theory Spec2Isabelle
  imports Complex_Main "HOL-Library.Stream"
begin

section \<open>Mouse Dash: the update-and-collision loop of \<^verbatim>\<open>game.js\<close>\<close>

text \<open>
  JavaScript numbers are modelled as follows: quantities that the code only ever
  counts (score, lives, combo, preset counts, attempts) are \<open>int\<close> or \<open>nat\<close>;
  positions, velocities and timers are \<open>real\<close> (rounding, infinities and NaN of the
  IEEE doubles are outside the model). The canvas size \<open>WIDTH\<close>, \<open>HEIGHT\<close> comes
  from the HTML page, which is not part of the sources; every function that reads it
  takes it as the parameters \<open>W\<close> and \<open>H\<close>.

  Names follow the source. Where two classes have a field of the same name, the later
  one carries a letter for its class (\<open>pos\<close>, \<open>ipos\<close>, \<open>hpos\<close>, \<open>ppos\<close>, \<open>fpos\<close>;
  \<open>radius\<close>, \<open>iradius\<close>; \<open>hsize\<close>, \<open>psize\<close>; \<open>lives\<close> of the game and
  \<open>d_lives\<close> of a preset); the coordinates of a vector are \<open>X\<close> and \<open>Y\<close>. A method
  \<open>C.m\<close> is \<open>C_m\<close> when the bare name is taken, a constructor is \<open>new_C\<close>.
\<close>

subsection \<open>Constants\<close>

definition PLAYER_SPEED :: real where "PLAYER_SPEED = 280"
definition INVULN_TIME :: real where "INVULN_TIME = 1"
definition TRAIL_LENGTH :: nat where "TRAIL_LENGTH = 12"
definition COMBO_WINDOW :: real where "COMBO_WINDOW = 125 / 100"
definition COMBO_BONUS_STEP :: int where "COMBO_BONUS_STEP = 2"
definition COMBO_BONUS_CAP :: int where "COMBO_BONUS_CAP = 14"
definition HIGHSCORE_KEY :: string where "HIGHSCORE_KEY = ''mouse_dash_high_score''"
definition TAU :: real where "TAU = pi * 2"

record Difficulty =
  name :: string
  d_lives :: int
  d_time :: real
  d_hazards :: nat
  d_items :: nat
  hazardSpeed :: "real \<times> real"

definition DIFFICULTIES :: "Difficulty list" where
  "DIFFICULTIES =
    [\<lparr>name = ''Easy'', d_lives = 5, d_time = 60, d_hazards = 3, d_items = 8, hazardSpeed = (120, 170)\<rparr>,
     \<lparr>name = ''Normal'', d_lives = 4, d_time = 50, d_hazards = 4, d_items = 10, hazardSpeed = (150, 210)\<rparr>,
     \<lparr>name = ''Hard'', d_lives = 3, d_time = 40, d_hazards = 10, d_items = 12, hazardSpeed = (190, 260)\<rparr>]"

text \<open>\<^verbatim>\<open>DIFFICULTIES[i]\<close>: \<open>None\<close> stands for JavaScript's \<^verbatim>\<open>undefined\<close> at an
  index outside the table.\<close>

definition difficulty_at :: "int \<Rightarrow> Difficulty option" where
  "difficulty_at i =
    (if 0 \<le> i \<and> i < int (length DIFFICULTIES) then Some (DIFFICULTIES ! nat i) else None)"

subsection \<open>Geometry utilities\<close>

definition clamp :: "real \<Rightarrow> real \<Rightarrow> real \<Rightarrow> real" where
  "clamp v lo hi = max lo (min hi v)"

text \<open>\<^verbatim>\<open>Math.hypot\<close> of two arguments.\<close>

definition hypot :: "real \<Rightarrow> real \<Rightarrow> real" where
  "hypot a b = sqrt (a * a + b * b)"

record Vec2 =
  X :: real
  Y :: real

definition len2 :: "Vec2 \<Rightarrow> real" where
  "len2 v = X v * X v + Y v * Y v"

definition len :: "Vec2 \<Rightarrow> real" where
  "len v = hypot (X v) (Y v)"

definition normalize :: "Vec2 \<Rightarrow> Vec2" where
  "normalize v = (let l = len v in if l > 0 then \<lparr>X = X v / l, Y = Y v / l\<rparr> else v)"

definition distanceTo :: "Vec2 \<Rightarrow> Vec2 \<Rightarrow> real" where
  "distanceTo a b = hypot (X a - X b) (Y a - Y b)"

subsection \<open>The random source\<close>

text \<open>
  \<^verbatim>\<open>Math.random()\<close> is ambient state of the runtime. The model threads the stream of
  the values it is going to return; each call takes the head.
  \<^verbatim>\<open>rand(min, max) = min + Math.random() * (max - min)\<close>.
\<close>

definition rand :: "real \<Rightarrow> real \<Rightarrow> real stream \<Rightarrow> real \<times> real stream" where
  "rand lo hi r = (lo + shd r * (hi - lo), stl r)"

subsection \<open>Player\<close>

text \<open>
  \<open>frames\<close> and \<open>framesFlipped\<close> hold one entry per sprite frame, the frame's width;
  nothing else of a frame is read outside drawing.
\<close>

record Player =
  pos :: Vec2
  frames :: "real list"
  framesFlipped :: "real list"
  radius :: real
  hitCooldown :: real
  trail :: "Vec2 list"
  animTime :: real
  animIndex :: nat
  lastMove :: Vec2

definition new_Player :: "Vec2 \<Rightarrow> real list \<Rightarrow> real list \<Rightarrow> Player" where
  "new_Player p fs ffs =
    \<lparr>pos = p, frames = fs, framesFlipped = ffs,
     radius = (case fs of [] \<Rightarrow> 18 | f # _ \<Rightarrow> f / 2),
     hitCooldown = 0, trail = [], animTime = 0, animIndex = 0,
     lastMove = \<lparr>X = 1, Y = 0\<rparr>\<rparr>"

text \<open>Lines 296--300: the direction built from the four pairs of held keys.\<close>

definition inputDirection :: "string set \<Rightarrow> Vec2" where
  "inputDirection keys =
    (let d = \<lparr>X = 0, Y = 0\<rparr>;
         d = (if ''ArrowLeft'' \<in> keys \<or> ''a'' \<in> keys then d\<lparr>X := X d - 1\<rparr> else d);
         d = (if ''ArrowRight'' \<in> keys \<or> ''d'' \<in> keys then d\<lparr>X := X d + 1\<rparr> else d);
         d = (if ''ArrowUp'' \<in> keys \<or> ''w'' \<in> keys then d\<lparr>Y := Y d - 1\<rparr> else d);
         d = (if ''ArrowDown'' \<in> keys \<or> ''s'' \<in> keys then d\<lparr>Y := Y d + 1\<rparr> else d)
     in d)"

text \<open>Lines 320--332: the sprite animation, advanced only while frames exist.\<close>

definition animate :: "Vec2 \<Rightarrow> real \<Rightarrow> Player \<Rightarrow> Player" where
  "animate direction dt p =
    (if frames p \<noteq> [] then
       (if len2 direction > 0 then
          (let p1 = p\<lparr>animTime := animTime p + dt\<rparr>
           in if animTime p1 \<ge> 8 / 100
              then p1\<lparr>animTime := 0, animIndex := (animIndex p1 + 1) mod length (frames p1)\<rparr>
              else p1)
        else p\<lparr>animTime := 0, animIndex := 0\<rparr>)
     else p)"

definition Player_update :: "real \<Rightarrow> real \<Rightarrow> string set \<Rightarrow> real \<Rightarrow> Player \<Rightarrow> Player" where
  "Player_update W H keys dt p =
    (let d0 = inputDirection keys;
         moving = (len2 d0 > 0);
         direction = (if moving then normalize d0 else d0);
         p = (if moving then p\<lparr>lastMove := direction\<rparr> else p);
         p = p\<lparr>pos := \<lparr>X = X (pos p) + X direction * PLAYER_SPEED * dt,
                       Y = Y (pos p) + Y direction * PLAYER_SPEED * dt\<rparr>\<rparr>;
         p = p\<lparr>pos := \<lparr>X = clamp (X (pos p)) (radius p) (W - radius p),
                       Y = clamp (Y (pos p)) (radius p + 40) (H - radius p)\<rparr>\<rparr>;
         p = (if hitCooldown p > 0 then p\<lparr>hitCooldown := max 0 (hitCooldown p - dt)\<rparr> else p);
         p = p\<lparr>trail := trail p @ [pos p]\<rparr>;
         p = (if length (trail p) > TRAIL_LENGTH then p\<lparr>trail := tl (trail p)\<rparr> else p)
     in animate direction dt p)"

definition canTakeHit :: "Player \<Rightarrow> bool" where
  "canTakeHit p \<longleftrightarrow> hitCooldown p \<le> 0"

definition markHit :: "Player \<Rightarrow> Player" where
  "markHit p = p\<lparr>hitCooldown := INVULN_TIME\<rparr>"

subsection \<open>Item\<close>

text \<open>\<open>sprite\<close> is the width of the cheese sprite when there is one.\<close>

record Item =
  ipos :: Vec2
  sprite :: "real option"
  iradius :: real
  wobble :: real

definition new_Item :: "Vec2 \<Rightarrow> real option \<Rightarrow> real stream \<Rightarrow> Item \<times> real stream" where
  "new_Item p sp r =
    (let (w, r1) = rand 0 TAU r
     in (\<lparr>ipos = p, sprite = sp,
          iradius = (case sp of Some width \<Rightarrow> width / 2 | None \<Rightarrow> 10),
          wobble = w\<rparr>, r1))"

subsection \<open>Hazard\<close>

record Hazard =
  hpos :: Vec2
  hsize :: real
  vel :: Vec2

text \<open>
  \<^verbatim>\<open>Hazard.randomVelocity\<close> is a \<^verbatim>\<open>while (true)\<close> loop that draws again as long
  as the sample is too short; it need not return, so its value is an option and
  \<open>None\<close> means that it runs forever.
\<close>

partial_function (option) randomVelocity :: "real \<times> real \<Rightarrow> real stream \<Rightarrow> (Vec2 \<times> real stream) option" where
  "randomVelocity speedRange r =
    (let (vx, r1) = rand (- 1) 1 r;
         (vy, r2) = rand (- 1) 1 r1;
         l2 = vx * vx + vy * vy
     in if l2 \<le> 1 / 10 then randomVelocity speedRange r2
        else (let l = sqrt l2;
                  (speed, r3) = rand (fst speedRange) (snd speedRange) r2
              in Some (\<lparr>X = (vx / l) * speed, Y = (vy / l) * speed\<rparr>, r3)))"

definition new_Hazard :: "Vec2 \<Rightarrow> real \<times> real \<Rightarrow> real stream \<Rightarrow> (Hazard \<times> real stream) option" where
  "new_Hazard p speedRange r =
    (case randomVelocity speedRange r of
       None \<Rightarrow> None
     | Some (v, r1) \<Rightarrow> Some (\<lparr>hpos = p, hsize = 24, vel = v\<rparr>, r1))"

text \<open>Lines 505--506 of \<^verbatim>\<open>Hazard.update\<close>: the position after integrating the velocity.\<close>

definition integrated :: "real \<Rightarrow> Hazard \<Rightarrow> Vec2" where
  "integrated dt h = \<lparr>X = X (hpos h) + X (vel h) * dt, Y = Y (hpos h) + Y (vel h) * dt\<rparr>"

definition Hazard_update :: "real \<Rightarrow> real \<Rightarrow> real \<Rightarrow> Hazard \<Rightarrow> Hazard" where
  "Hazard_update W H dt h =
    (let h = h\<lparr>hpos := integrated dt h\<rparr>;
         bounced = False;
         (h, bounced) =
           (if X (hpos h) < hsize h \<or> X (hpos h) > W - hsize h
            then (h\<lparr>vel := (vel h)\<lparr>X := X (vel h) * (- 1)\<rparr>\<rparr>, True) else (h, bounced));
         (h, bounced) =
           (if Y (hpos h) < hsize h + 40 \<or> Y (hpos h) > H - hsize h
            then (h\<lparr>vel := (vel h)\<lparr>Y := Y (vel h) * (- 1)\<rparr>\<rparr>, True) else (h, bounced))
     in if bounced
        then h\<lparr>hpos := \<lparr>X = clamp (X (hpos h)) (hsize h) (W - hsize h),
                        Y = clamp (Y (hpos h)) (hsize h + 40) (H - hsize h)\<rparr>\<rparr>
        else h)"

text \<open>\<^verbatim>\<open>Math.hypot(dx, dy) || 1\<close>: zero is falsy.\<close>

definition nudgeAwayFrom :: "Vec2 \<Rightarrow> Hazard \<Rightarrow> real stream \<Rightarrow> Hazard \<times> real stream" where
  "nudgeAwayFrom point h r =
    (let dx = X (hpos h) - X point;
         dy = Y (hpos h) - Y point;
         (dx, dy, r) =
           (if dx = 0 \<and> dy = 0
            then (let (a, r1) = rand (- 1) 1 r; (b, r2) = rand (- 1) 1 r1 in (a, b, r2))
            else (dx, dy, r));
         l = (if hypot dx dy = 0 then 1 else hypot dx dy)
     in (h\<lparr>hpos := \<lparr>X = X (hpos h) + (dx / l) * 18, Y = Y (hpos h) + (dy / l) * 18\<rparr>\<rparr>, r))"

subsection \<open>Effects\<close>

record Particle =
  ppos :: Vec2
  pvel :: Vec2
  life :: real
  total :: real
  color :: string
  psize :: real

definition new_Particle :: "Vec2 \<Rightarrow> Vec2 \<Rightarrow> real \<Rightarrow> string \<Rightarrow> real \<Rightarrow> Particle" where
  "new_Particle p v lifetime c sz =
    \<lparr>ppos = p, pvel = v, life = lifetime, total = lifetime, color = c, psize = sz\<rparr>"

definition Particle_update :: "real \<Rightarrow> Particle \<Rightarrow> Particle" where
  "Particle_update dt p =
    p\<lparr>ppos := \<lparr>X = X (ppos p) + X (pvel p) * dt, Y = Y (ppos p) + Y (pvel p) * dt\<rparr>,
      life := life p - dt\<rparr>"

record FloatingText =
  fpos :: Vec2
  ftext :: string
  fcolor :: string
  flife :: real

definition new_FloatingText :: "Vec2 \<Rightarrow> string \<Rightarrow> string \<Rightarrow> FloatingText" where
  "new_FloatingText p t c = \<lparr>fpos = p, ftext = t, fcolor = c, flife = 1\<rparr>"

definition FloatingText_update :: "real \<Rightarrow> FloatingText \<Rightarrow> FloatingText" where
  "FloatingText_update dt ft =
    ft\<lparr>flife := flife ft - dt, fpos := (fpos ft)\<lparr>Y := Y (fpos ft) - 30 * dt\<rparr>\<rparr>"

text \<open>Decimal rendering of a number, as string interpolation and \<^verbatim>\<open>String(n)\<close> give it
  for an integer.\<close>

fun decimal :: "nat \<Rightarrow> string" where
  "decimal n =
    (if n < 10 then [''0123456789'' ! n]
     else decimal (n div 10) @ [''0123456789'' ! (n mod 10)])"

definition String_of :: "int \<Rightarrow> string" where
  "String_of i = (if i < 0 then CHR ''-'' # decimal (nat (- i)) else decimal (nat i))"

text \<open>\<^verbatim>\<open>rgb([r, g, b])\<close> with the default alpha of 1.\<close>

definition rgb :: "nat \<times> nat \<times> nat \<Rightarrow> string" where
  "rgb c = (case c of (r, g, b) \<Rightarrow>
     ''rgba('' @ decimal r @ '', '' @ decimal g @ '', '' @ decimal b @ '', 1)'')"

definition COLORS_item :: "nat \<times> nat \<times> nat" where "COLORS_item = (250, 210, 70)"
definition COLORS_hazard :: "nat \<times> nat \<times> nat" where "COLORS_hazard = (250, 120, 60)"
definition COLORS_gold :: "nat \<times> nat \<times> nat" where "COLORS_gold = (255, 226, 120)"

subsection \<open>Persistence\<close>

text \<open>
  \<^verbatim>\<open>localStorage\<close>: its entries, and whether access to it throws (storage disabled
  or full); the code catches the exception and carries on.
\<close>

record Storage =
  entries :: "string \<rightharpoonup> string"
  throws :: bool

definition saveHighScore :: "int \<Rightarrow> Storage \<Rightarrow> Storage" where
  "saveHighScore sc st =
    (if throws st then st else st\<lparr>entries := (entries st)(HIGHSCORE_KEY \<mapsto> String_of sc)\<rparr>)"

text \<open>
  \<^verbatim>\<open>Number.parseInt(s, 10)\<close>: leading white space is skipped, a sign is read, and the
  longest run of decimal digits that follows is the value; \<open>None\<close> stands for NaN. Only
  the white space characters of ASCII are modelled, and the value is exact.
\<close>

definition isSpace :: "char \<Rightarrow> bool" where
  "isSpace c \<longleftrightarrow> c \<in> set [CHR '' '', CHR 0x09, CHR 0x0A, CHR 0x0B, CHR 0x0C, CHR 0x0D]"

definition digitValue :: "char \<Rightarrow> nat option" where
  "digitValue c =
    map_of [(CHR ''0'', 0), (CHR ''1'', 1), (CHR ''2'', 2), (CHR ''3'', 3), (CHR ''4'', 4),
            (CHR ''5'', 5), (CHR ''6'', 6), (CHR ''7'', 7), (CHR ''8'', 8), (CHR ''9'', 9)] c"

definition isDigit :: "char \<Rightarrow> bool" where
  "isDigit c \<longleftrightarrow> digitValue c \<noteq> None"

definition digitStep :: "nat \<Rightarrow> char \<Rightarrow> nat" where
  "digitStep a c = a * 10 + (case digitValue c of Some d \<Rightarrow> d | None \<Rightarrow> 0)"

definition digitsValue :: "string \<Rightarrow> nat" where
  "digitsValue z = foldl digitStep 0 z"

definition parseInt10 :: "string \<Rightarrow> int option" where
  "parseInt10 s =
    (let s1 = dropWhile isSpace s;
         (sign, s2) = (case s1 of
                         [] \<Rightarrow> (1, s1)
                       | c # r \<Rightarrow> if c = CHR ''-'' then (- 1, r)
                                  else if c = CHR ''+'' then (1, r) else (1, s1));
         z = takeWhile isDigit s2
     in if z = [] then None else Some (sign * int (digitsValue z)))"


text \<open>\<^verbatim>\<open>Game.loadHighScore\<close>: a missing or empty entry counts as \<^verbatim>\<open>"0"\<close>, NaN and a
  throwing store as 0.\<close>

definition loadHighScore :: "Storage \<Rightarrow> int" where
  "loadHighScore st =
    (if throws st then 0
     else (let item = (case entries st HIGHSCORE_KEY of
                         None \<Rightarrow> ''0''
                       | Some s \<Rightarrow> if s = [] then ''0'' else s)
           in case parseInt10 item of None \<Rightarrow> 0 | Some v \<Rightarrow> v))"

subsection \<open>Game\<close>

datatype GameState = Menu | Playing | Paused | GameOver

datatype error = TypeError

record Assets =
  cheese :: "real option"
  mouseFrames :: "real list"
  mouseFramesFlipped :: "real list"

text \<open>
  The fields of \<^verbatim>\<open>Game\<close> (without the background image, which only drawing reads),
  followed by the two pieces of ambient state its methods touch: the random source and
  \<^verbatim>\<open>localStorage\<close>.
\<close>

record Game =
  assets :: Assets
  state :: GameState
  difficultyIndex :: int
  timeAcc :: real
  score :: int
  lives :: int
  timeLeft :: real
  combo :: int
  comboTimer :: real
  player :: Player
  items :: "Item list"
  hazards :: "Hazard list"
  particles :: "Particle list"
  floaters :: "FloatingText list"
  shakeTimer :: real
  shakeStrength :: real
  highScore :: int
  newHighScore :: bool
  rng :: "real stream"
  storage :: Storage

text \<open>Lines 732--741.\<close>

definition enterGameOver :: "Game \<Rightarrow> Game" where
  "enterGameOver g =
    (let g = g\<lparr>state := GameOver\<rparr>
     in if score g > highScore g
        then (let g = g\<lparr>highScore := score g\<rparr>;
                  g = g\<lparr>newHighScore := True\<rparr>
              in g\<lparr>storage := saveHighScore (highScore g) (storage g)\<rparr>)
        else g\<lparr>newHighScore := False\<rparr>)"

subsection \<open>Spawner\<close>

text \<open>One pass through the body of the loop of \<^verbatim>\<open>spawnItems\<close> (lines 750--758).\<close>

definition spawnItems_attempt :: "real \<Rightarrow> real \<Rightarrow> Game \<Rightarrow> Game" where
  "spawnItems_attempt W H g =
    (let newItemRadius = (case cheese (assets g) of Some width \<Rightarrow> width / 2 | None \<Rightarrow> 10);
         (px, r1) = rand 40 (W - 40) (rng g);
         (py, r2) = rand 80 (H - 40) r1;
         p = \<lparr>X = px, Y = py\<rparr>;
         g = g\<lparr>rng := r2\<rparr>;
         tooClosePlayer = (distanceTo p (pos (player g)) < 80);
         tooCloseOther =
           list_ex (\<lambda>it. distanceTo p (ipos it) < iradius it + newItemRadius + 8) (items g);
         tooCloseHazard =
           list_ex (\<lambda>hz. distanceTo p (hpos hz) < hsize hz + newItemRadius + 12) (hazards g)
     in if \<not> tooClosePlayer \<and> \<not> tooCloseOther \<and> \<not> tooCloseHazard
        then (let (it, r3) = new_Item p (cheese (assets g)) (rng g)
              in g\<lparr>items := items g @ [it], rng := r3\<rparr>)
        else g)"

text \<open>The loop of \<^verbatim>\<open>spawnItems\<close>; it returns the final value of \<^verbatim>\<open>attempts\<close> too.\<close>

function spawnItems_loop :: "real \<Rightarrow> real \<Rightarrow> nat \<Rightarrow> nat \<Rightarrow> Game \<Rightarrow> nat \<times> Game" where
  "spawnItems_loop W H count attempts g =
    (if length (items g) < count \<and> attempts < count * 20
     then spawnItems_loop W H count (attempts + 1) (spawnItems_attempt W H g)
     else (attempts, g))"
  by pat_completeness auto
termination
  by (relation "measure (\<lambda>(W, H, count, attempts, g). count * 20 - attempts)") auto

definition spawnItems :: "real \<Rightarrow> real \<Rightarrow> nat \<Rightarrow> Game \<Rightarrow> Game" where
  "spawnItems W H count g = snd (spawnItems_loop W H count 0 g)"

text \<open>One pass through the body of the loop of \<^verbatim>\<open>spawnHazards\<close> (lines 766--769);
  \<open>None\<close> when the construction of the hazard does not return.\<close>

definition spawnHazards_attempt :: "real \<Rightarrow> real \<Rightarrow> real \<times> real \<Rightarrow> Game \<Rightarrow> Game option" where
  "spawnHazards_attempt W H speedRange g =
    (let (px, r1) = rand 60 (W - 60) (rng g);
         (py, r2) = rand 100 (H - 60) r1;
         p = \<lparr>X = px, Y = py\<rparr>;
         g = g\<lparr>rng := r2\<rparr>
     in if distanceTo p (pos (player g)) < 120 then Some g
        else if list_ex (\<lambda>h. distanceTo p (hpos h) < 60) (hazards g) then Some g
        else (case new_Hazard p speedRange (rng g) of
                None \<Rightarrow> None
              | Some (hz, r3) \<Rightarrow> Some (g\<lparr>hazards := hazards g @ [hz], rng := r3\<rparr>)))"

function spawnHazards_loop ::
  "real \<Rightarrow> real \<Rightarrow> nat \<Rightarrow> real \<times> real \<Rightarrow> nat \<Rightarrow> Game \<Rightarrow> (nat \<times> Game) option" where
  "spawnHazards_loop W H count speedRange attempts g =
    (if length (hazards g) < count \<and> attempts < count * 25
     then (case spawnHazards_attempt W H speedRange g of
             None \<Rightarrow> None
           | Some g' \<Rightarrow> spawnHazards_loop W H count speedRange (attempts + 1) g')
     else Some (attempts, g))"
  by pat_completeness auto
termination
  by (relation "measure (\<lambda>(W, H, count, speedRange, attempts, g). count * 25 - attempts)") auto

definition spawnHazards :: "real \<Rightarrow> real \<Rightarrow> nat \<Rightarrow> real \<times> real \<Rightarrow> Game \<Rightarrow> Game option" where
  "spawnHazards W H count speedRange g = map_option snd (spawnHazards_loop W H count speedRange 0 g)"

subsection \<open>Effects triggered by the collision engine\<close>

text \<open>
  The \<^verbatim>\<open>for\<close> loops of \<^verbatim>\<open>spawnCollectEffect\<close> and \<^verbatim>\<open>spawnHitEffect\<close>: \<open>n\<close> particles
  at \<open>p\<close>, each with a random angle and a random speed within \<open>speeds\<close>.
\<close>

fun burst :: "nat \<Rightarrow> Vec2 \<Rightarrow> real \<times> real \<Rightarrow> real \<Rightarrow> string \<Rightarrow> real \<Rightarrow> Game \<Rightarrow> Game" where
  "burst 0 p speeds lifetime c sz g = g"
| "burst (Suc n) p speeds lifetime c sz g =
    (let (angle, r1) = rand 0 TAU (rng g);
         (speed, r2) = rand (fst speeds) (snd speeds) r1;
         v = \<lparr>X = cos angle * speed, Y = sin angle * speed\<rparr>
     in burst n p speeds lifetime c sz
          (g\<lparr>particles := particles g @ [new_Particle p v lifetime c sz], rng := r2\<rparr>))"

definition spawnCollectEffect :: "Vec2 \<Rightarrow> int \<Rightarrow> int \<Rightarrow> Game \<Rightarrow> Game" where
  "spawnCollectEffect p points cmb g =
    (let g = burst 12 p (80, 160) (4 / 10) (rgb COLORS_gold) 3 g;
         g = g\<lparr>floaters := floaters g @
               [new_FloatingText p (''+'' @ String_of points) (rgb COLORS_gold)]\<rparr>
     in if cmb \<ge> 2
        then g\<lparr>floaters := floaters g @
               [new_FloatingText \<lparr>X = X p, Y = Y p - 18\<rparr> (''Combo x'' @ String_of cmb)
                  (rgb COLORS_item)]\<rparr>
        else g)"

definition spawnHitEffect :: "Vec2 \<Rightarrow> Game \<Rightarrow> Game" where
  "spawnHitEffect p g =
    (let g = burst 18 p (120, 220) (5 / 10) (rgb COLORS_hazard) 4 g
     in g\<lparr>shakeTimer := 25 / 100\<rparr>)"

definition updateEffects :: "real \<Rightarrow> Game \<Rightarrow> Game" where
  "updateEffects dt g =
    (let g = g\<lparr>particles := filter (\<lambda>p. life p > 0) (map (Particle_update dt) (particles g))\<rparr>
     in g\<lparr>floaters := filter (\<lambda>ft. flife ft > 0) (map (FloatingText_update dt) (floaters g))\<rparr>)"

subsection \<open>Collision and scoring engine\<close>

text \<open>Lines 840--847: what the loop over the items does with an item that overlaps the
  player.\<close>

definition collect :: "Item \<Rightarrow> Game \<Rightarrow> Game" where
  "collect item g =
    (let g = (if comboTimer g > 0 then g\<lparr>combo := combo g + 1\<rparr> else g\<lparr>combo := 1\<rparr>);
         g = g\<lparr>comboTimer := COMBO_WINDOW\<rparr>;
         bonus = min COMBO_BONUS_CAP ((combo g - 1) * COMBO_BONUS_STEP);
         points = 10 + bonus;
         g = g\<lparr>score := score g + points\<rparr>
     in spawnCollectEffect (ipos item) points (combo g) g)"

definition touches :: "Player \<Rightarrow> Item \<Rightarrow> bool" where
  "touches p item \<longleftrightarrow> distanceTo (pos p) (ipos item) \<le> radius p + iradius item"

text \<open>The loop of lines 836--849 over \<^verbatim>\<open>this.items\<close>, with the list \<^verbatim>\<open>collected\<close>.\<close>

fun collectItems :: "Item list \<Rightarrow> Item list \<Rightarrow> Game \<Rightarrow> Item list \<times> Game" where
  "collectItems [] collected g = (collected, g)"
| "collectItems (item # rest) collected g =
    (if touches (player g) item
     then collectItems rest (collected @ [item]) (collect item g)
     else collectItems rest collected g)"

text \<open>
  The loop of lines 859--867 over \<^verbatim>\<open>this.hazards\<close>: \<open>before\<close> holds the hazards already
  passed; the first hazard that overlaps is hit, nudged in place, and the loop breaks.
\<close>

fun hitHazards :: "Hazard list \<Rightarrow> Hazard list \<Rightarrow> Game \<Rightarrow> Game" where
  "hitHazards before [] g = g"
| "hitHazards before (hazard # rest) g =
    (if distanceTo (pos (player g)) (hpos hazard) \<le> radius (player g) + hsize hazard * (5 / 10)
     then (let g = g\<lparr>lives := lives g - 1\<rparr>;
               g = g\<lparr>player := markHit (player g)\<rparr>;
               (hazard, r) = nudgeAwayFrom (pos (player g)) hazard (rng g);
               g = g\<lparr>hazards := before @ hazard # rest, rng := r\<rparr>
           in spawnHitEffect (pos (player g)) g)
     else hitHazards (before @ [hazard]) rest g)"

text \<open>
  \<^verbatim>\<open>handleCollisions\<close>. The items are objects and \<^verbatim>\<open>collected.includes\<close> compares
  identities; here items are values, and two equal items overlap the player alike, so
  membership in \<open>collected\<close> removes the same items. Reading \<^verbatim>\<open>diff.items\<close> off an
  undefined preset throws.
\<close>

definition handleCollisions :: "real \<Rightarrow> real \<Rightarrow> Game \<Rightarrow> error + Game" where
  "handleCollisions W H g =
    (let (collected, g) = collectItems (items g) [] g;
         g = (if collected \<noteq> []
              then g\<lparr>items := filter (\<lambda>it. it \<notin> set collected) (items g)\<rparr> else g)
     in case (if items g = []
              then (case difficulty_at (difficultyIndex g) of
                      None \<Rightarrow> Inl TypeError
                    | Some diff \<Rightarrow> Inr (spawnItems W H (d_items diff) g))
              else Inr g) of
          Inl e \<Rightarrow> Inl e
        | Inr g \<Rightarrow> Inr (if \<not> canTakeHit (player g) then g else hitHazards [] (hazards g) g))"

subsection \<open>Frame update\<close>

text \<open>Lines 821--824: the combo window timer.\<close>

definition tickCombo :: "real \<Rightarrow> Game \<Rightarrow> Game" where
  "tickCombo dt g =
    (if comboTimer g > 0
     then (let g = g\<lparr>comboTimer := max 0 (comboTimer g - dt)\<rparr>
           in if comboTimer g = 0 then g\<lparr>combo := 0\<rparr> else g)
     else g)"

definition update :: "real \<Rightarrow> real \<Rightarrow> real \<Rightarrow> string set \<Rightarrow> Game \<Rightarrow> error + Game" where
  "update W H dt keys g =
    (let g = g\<lparr>timeAcc := timeAcc g + dt\<rparr>;
         g = (if shakeTimer g > 0 then g\<lparr>shakeTimer := max 0 (shakeTimer g - dt)\<rparr> else g);
         g = updateEffects dt g
     in if state g \<noteq> Playing then Inr g
        else (let g = tickCombo dt g;
                  g = g\<lparr>player := Player_update W H keys dt (player g)\<rparr>;
                  g = g\<lparr>hazards := map (Hazard_update W H dt) (hazards g)\<rparr>
              in case handleCollisions W H g of
                   Inl e \<Rightarrow> Inl e
                 | Inr g \<Rightarrow>
                     (let g = g\<lparr>timeLeft := max 0 (timeLeft g - dt)\<rparr>
                      in Inr (if timeLeft g \<le> 0 \<or> lives g \<le> 0 then enterGameOver g else g))))"

text \<open>A sequence of frames, each with its \<open>dt\<close> and its snapshot of held keys; an
  exception ends it.\<close>

fun frames_run :: "real \<Rightarrow> real \<Rightarrow> (real \<times> string set) list \<Rightarrow> Game \<Rightarrow> error + Game" where
  "frames_run W H [] g = Inr g"
| "frames_run W H ((dt, keys) # fs) g =
    (case update W H dt keys g of Inl e \<Rightarrow> Inl e | Inr g' \<Rightarrow> frames_run W H fs g')"

subsection \<open>Starting and resetting a run\<close>

text \<open>
  Results of the methods below: \<open>None\<close> when the method does not return (a hazard's
  velocity is never drawn), \<open>Some (Inl TypeError)\<close> when it throws on an undefined preset,
  \<open>Some (Inr g)\<close> when it returns with the game \<open>g\<close>.
\<close>

definition resetRun :: "real \<Rightarrow> real \<Rightarrow> int option \<Rightarrow> Game \<Rightarrow> (error + Game) option" where
  "resetRun W H idx g =
    (let g = (case idx of Some i \<Rightarrow> g\<lparr>difficultyIndex := i\<rparr> | None \<Rightarrow> g)
     in case difficulty_at (difficultyIndex g) of
          None \<Rightarrow> Some (Inl TypeError)
        | Some diff \<Rightarrow>
            (let g = g\<lparr>score := 0, lives := d_lives diff, timeLeft := d_time diff\<rparr>;
                 g = g\<lparr>combo := 0, comboTimer := 0\<rparr>;
                 g = g\<lparr>player := new_Player \<lparr>X = W / 2, Y = H / 2\<rparr>
                                  (mouseFrames (assets g)) (mouseFramesFlipped (assets g))\<rparr>;
                 g = g\<lparr>items := [], hazards := []\<rparr>;
                 g = g\<lparr>particles := [], floaters := [], shakeTimer := 0, newHighScore := False\<rparr>
             in case spawnHazards W H (d_hazards diff) (hazardSpeed diff) g of
                  None \<Rightarrow> None
                | Some g \<Rightarrow> Some (Inr ((spawnItems W H (d_items diff) g)\<lparr>state := Menu\<rparr>))))"

definition startGame :: "real \<Rightarrow> real \<Rightarrow> Game \<Rightarrow> (error + Game) option" where
  "startGame W H g =
    (case difficulty_at (difficultyIndex g) of
       None \<Rightarrow> Some (Inl TypeError)
     | Some diff \<Rightarrow>
         (let g = g\<lparr>state := Playing, timeLeft := d_time diff, score := 0, lives := d_lives diff\<rparr>;
              g = g\<lparr>combo := 0, comboTimer := 0\<rparr>;
              g = g\<lparr>player := (player g)\<lparr>pos := \<lparr>X = W / 2, Y = H / 2\<rparr>, hitCooldown := 0\<rparr>\<rparr>;
              g = g\<lparr>items := [], hazards := [], particles := [], floaters := []\<rparr>;
              g = g\<lparr>shakeTimer := 0, newHighScore := False\<rparr>
          in case spawnHazards W H (d_hazards diff) (hazardSpeed diff) g of
               None \<Rightarrow> None
             | Some g \<Rightarrow> Some (Inr (spawnItems W H (d_items diff) g))))"

text \<open>The constructor of \<^verbatim>\<open>Game\<close> (lines 625--658), which ends with \<^verbatim>\<open>resetRun()\<close>.\<close>

definition new_Game ::
  "real \<Rightarrow> real \<Rightarrow> Assets \<Rightarrow> real stream \<Rightarrow> Storage \<Rightarrow> (error + Game) option" where
  "new_Game W H a r st =
    resetRun W H None
      \<lparr>assets = a, state = Menu, difficultyIndex = 0, timeAcc = 0, score = 0,
       lives = d_lives (DIFFICULTIES ! 0), timeLeft = d_time (DIFFICULTIES ! 0),
       combo = 0, comboTimer = 0,
       player = new_Player \<lparr>X = W / 2, Y = H / 2\<rparr> (mouseFrames a) (mouseFramesFlipped a),
       items = [], hazards = [], particles = [], floaters = [],
       shakeTimer = 0, shakeStrength = 10,
       highScore = loadHighScore st, newHighScore = False,
       rng = r, storage = st\<rparr>"

subsection \<open>Key events\<close>

text \<open>The remainder operator \<^verbatim>\<open>%\<close> takes the sign of the dividend.\<close>

definition js_rem :: "int \<Rightarrow> int \<Rightarrow> int" where
  "js_rem a b = (if a < 0 then - ((- a) mod \<bar>b\<bar>) else a mod \<bar>b\<bar>)"

definition onKeyDown :: "real \<Rightarrow> real \<Rightarrow> string \<Rightarrow> Game \<Rightarrow> (error + Game) option" where
  "onKeyDown W H key g =
    (if key = ''q'' then resetRun W H (Some (difficultyIndex g)) g
     else if (state g = Playing \<or> state g = Paused) \<and> (key = ''p'' \<or> key = ''Escape'')
     then Some (Inr (g\<lparr>state := (if state g = Playing then Paused else Playing)\<rparr>))
     else if state g = Playing \<and> key = ''r'' then startGame W H g
     else if state g = Paused
     then (if key = ''r'' then startGame W H g
           else if key = ''m'' then resetRun W H (Some (difficultyIndex g)) g
           else Some (Inr g))
     else if state g = Menu
     then (let n = int (length DIFFICULTIES);
               g = (if key = ''ArrowUp''
                    then g\<lparr>difficultyIndex := js_rem (difficultyIndex g - 1 + n) n\<rparr> else g);
               g = (if key = ''ArrowDown''
                    then g\<lparr>difficultyIndex := js_rem (difficultyIndex g + 1) n\<rparr> else g)
           in if key = ''1'' \<or> key = ''2'' \<or> key = ''3''
              then (let idx = (if key = ''1'' then 1 else if key = ''2'' then 2 else 3) - 1
                    in startGame W H (g\<lparr>difficultyIndex := max 0 (min (n - 1) idx)\<rparr>))
              else if key = ''Enter'' \<or> key = '' '' then startGame W H g
              else Some (Inr g))
     else if state g = GameOver
     then (if key = ''Enter'' \<or> key = '' '' then startGame W H g
           else if key = ''r'' \<or> key = ''m'' then resetRun W H (Some (difficultyIndex g)) g
           else Some (Inr g))
     else Some (Inr g))"

subsection \<open>Derived notions used in the statements\<close>

text \<open>The direction \<^verbatim>\<open>Player.update\<close> moves along: the input direction, normalised when
  it is not zero (lines 302--305).\<close>

definition moveDirection :: "string set \<Rightarrow> Vec2" where
  "moveDirection keys =
    (if len2 (inputDirection keys) > 0 then normalize (inputDirection keys)
     else inputDirection keys)"

text \<open>The boundary tests of lines 509 and 513.\<close>

definition crosses_x :: "real \<Rightarrow> real \<Rightarrow> Hazard \<Rightarrow> bool" where
  "crosses_x W dt h \<longleftrightarrow>
    X (integrated dt h) < hsize h \<or> X (integrated dt h) > W - hsize h"

definition crosses_y :: "real \<Rightarrow> real \<Rightarrow> Hazard \<Rightarrow> bool" where
  "crosses_y H dt h \<longleftrightarrow>
    Y (integrated dt h) < hsize h + 40 \<or> Y (integrated dt h) > H - hsize h"

text \<open>
  The boundary tests of a hazard the way the specification words them, with a margin of
  half the hazard's size (the hazard is drawn as a square of side \<open>hsize\<close> centred on its
  position, and the overlap test takes \<open>hsize * 0.5\<close> as its extent).
\<close>

definition spec_crosses_x :: "real \<Rightarrow> real \<Rightarrow> Hazard \<Rightarrow> bool" where
  "spec_crosses_x W dt h \<longleftrightarrow>
    X (integrated dt h) < hsize h / 2 \<or> X (integrated dt h) > W - hsize h / 2"

definition spec_crosses_y :: "real \<Rightarrow> real \<Rightarrow> Hazard \<Rightarrow> bool" where
  "spec_crosses_y H dt h \<longleftrightarrow>
    Y (integrated dt h) < hsize h / 2 + 40 \<or> Y (integrated dt h) > H - hsize h / 2"

text \<open>The game after the loop over the items (lines 836--849): \<open>collect\<close> applied, in
  order, to the items that overlap the player.\<close>

definition afterItems :: "Game \<Rightarrow> Game" where
  "afterItems g = fold collect (filter (touches (player g)) (items g)) g"

text \<open>The items that overlap the player once it has moved in this frame.\<close>

definition reached :: "real \<Rightarrow> real \<Rightarrow> real \<Rightarrow> string set \<Rightarrow> Game \<Rightarrow> Item list" where
  "reached W H dt keys g = filter (touches (Player_update W H keys dt (player g))) (items g)"

text \<open>The overlap test of line 860 between the player and a hazard.\<close>

definition overlaps :: "Player \<Rightarrow> Hazard \<Rightarrow> bool" where
  "overlaps p hz \<longleftrightarrow> distanceTo (pos p) (hpos hz) \<le> radius p + hsize hz * (5 / 10)"

text \<open>
  The stages of a frame in state \<open>Playing\<close>: what \<^verbatim>\<open>update\<close> does before it calls
  \<^verbatim>\<open>handleCollisions\<close> (lines 814--827), and what it does after (lines 830--831).
\<close>

definition beforeCollisions :: "real \<Rightarrow> real \<Rightarrow> real \<Rightarrow> string set \<Rightarrow> Game \<Rightarrow> Game" where
  "beforeCollisions W H dt keys g =
    (let g = g\<lparr>timeAcc := timeAcc g + dt\<rparr>;
         g = (if shakeTimer g > 0 then g\<lparr>shakeTimer := max 0 (shakeTimer g - dt)\<rparr> else g);
         g = updateEffects dt g;
         g = tickCombo dt g;
         g = g\<lparr>player := Player_update W H keys dt (player g)\<rparr>
     in g\<lparr>hazards := map (Hazard_update W H dt) (hazards g)\<rparr>)"

definition afterCollisions :: "real \<Rightarrow> Game \<Rightarrow> Game" where
  "afterCollisions dt g =
    (let g = g\<lparr>timeLeft := max 0 (timeLeft g - dt)\<rparr>
     in if timeLeft g \<le> 0 \<or> lives g \<le> 0 then enterGameOver g else g)"

text \<open>What \<^verbatim>\<open>update\<close> does in any other state (lines 814--819).\<close>

definition idleFrame :: "real \<Rightarrow> Game \<Rightarrow> Game" where
  "idleFrame dt g =
    (let g = g\<lparr>timeAcc := timeAcc g + dt\<rparr>;
         g = (if shakeTimer g > 0 then g\<lparr>shakeTimer := max 0 (shakeTimer g - dt)\<rparr> else g)
     in updateEffects dt g)"

text \<open>A preset exists for the selected difficulty.\<close>

definition validIndex :: "Game \<Rightarrow> bool" where
  "validIndex g \<longleftrightarrow> 0 \<le> difficultyIndex g \<and> difficultyIndex g < 3"

text \<open>The second entry of the table of presets.\<close>

definition preset_Normal :: Difficulty where
  "preset_Normal = DIFFICULTIES ! 1"

text \<open>
  The number of frames of a sequence in which \<^verbatim>\<open>update\<close> takes the game into
  \<open>GameOver\<close> from another state.
\<close>

fun gameOverTransitions :: "real \<Rightarrow> real \<Rightarrow> (real \<times> string set) list \<Rightarrow> Game \<Rightarrow> nat" where
  "gameOverTransitions W H [] g = 0"
| "gameOverTransitions W H ((dt, keys) # fs) g =
    (case update W H dt keys g of
       Inl e \<Rightarrow> 0
     | Inr g' \<Rightarrow>
         (if state g \<noteq> GameOver \<and> state g' = GameOver then 1 else 0)
         + gameOverTransitions W H fs g')"

text \<open>The game \<^verbatim>\<open>startGame\<close> has built when it calls the spawner (lines 710--726).\<close>

definition cleared :: "real \<Rightarrow> real \<Rightarrow> Difficulty \<Rightarrow> Game \<Rightarrow> Game" where
  "cleared W H diff g =
    (let g = g\<lparr>state := Playing, timeLeft := d_time diff, score := 0, lives := d_lives diff\<rparr>;
         g = g\<lparr>combo := 0, comboTimer := 0\<rparr>;
         g = g\<lparr>player := (player g)\<lparr>pos := \<lparr>X = W / 2, Y = H / 2\<rparr>, hitCooldown := 0\<rparr>\<rparr>;
         g = g\<lparr>items := [], hazards := [], particles := [], floaters := []\<rparr>
     in g\<lparr>shakeTimer := 0, newHighScore := False\<rparr>)"

text \<open>The game \<^verbatim>\<open>resetRun\<close> has built when it calls the spawner (lines 678--699), for the
  preset \<open>diff\<close> of the index it has selected.\<close>

definition selected :: "int option \<Rightarrow> Game \<Rightarrow> Game" where
  "selected idx g = (case idx of Some i \<Rightarrow> g\<lparr>difficultyIndex := i\<rparr> | None \<Rightarrow> g)"

definition wiped :: "real \<Rightarrow> real \<Rightarrow> Difficulty \<Rightarrow> Game \<Rightarrow> Game" where
  "wiped W H diff g =
    (let g = g\<lparr>score := 0, lives := d_lives diff, timeLeft := d_time diff\<rparr>;
         g = g\<lparr>combo := 0, comboTimer := 0\<rparr>;
         g = g\<lparr>player := new_Player \<lparr>X = W / 2, Y = H / 2\<rparr>
                          (mouseFrames (assets g)) (mouseFramesFlipped (assets g))\<rparr>;
         g = g\<lparr>items := [], hazards := []\<rparr>
     in g\<lparr>particles := [], floaters := [], shakeTimer := 0, newHighScore := False\<rparr>)"

subsection \<open>Notions for the spawner\<close>

text \<open>
  A random source is \<open>acceptable\<close> when the sample \<^verbatim>\<open>randomVelocity\<close> draws from its
  first two values passes the test of line 497, and \<open>fair\<close> when from every point on
  some later pair (at either parity) is acceptable.
\<close>

definition acceptable :: "real stream \<Rightarrow> bool" where
  "acceptable r \<longleftrightarrow>
    (let vx = fst (rand (- 1) 1 r); vy = fst (rand (- 1) 1 (stl r))
     in \<not> vx * vx + vy * vy \<le> 1 / 10)"

definition fair :: "real stream \<Rightarrow> bool" where
  "fair r \<longleftrightarrow> (\<forall>n. \<exists>k. acceptable (sdrop (n + 2 * k) r))"

text \<open>
  The separation that \<^verbatim>\<open>spawnItems\<close> checks for a new item: from the player, from the
  items placed before it, and from the hazards; and the same for a list of new items,
  each against those before it.
\<close>

definition item_ok :: "Vec2 \<Rightarrow> Hazard list \<Rightarrow> Item list \<Rightarrow> Item \<Rightarrow> bool" where
  "item_ok playerPos hzs earlier it \<longleftrightarrow>
    80 \<le> distanceTo (ipos it) playerPos \<and>
    list_all (\<lambda>other. iradius other + iradius it + 8 \<le> distanceTo (ipos it) (ipos other)) earlier \<and>
    list_all (\<lambda>hz. hsize hz + iradius it + 12 \<le> distanceTo (ipos it) (hpos hz)) hzs"

fun items_ok :: "Vec2 \<Rightarrow> Hazard list \<Rightarrow> Item list \<Rightarrow> Item list \<Rightarrow> bool" where
  "items_ok playerPos hzs earlier [] \<longleftrightarrow> True"
| "items_ok playerPos hzs earlier (it # rest) \<longleftrightarrow>
    item_ok playerPos hzs earlier it \<and> items_ok playerPos hzs (earlier @ [it]) rest"

text \<open>The separation that \<^verbatim>\<open>spawnHazards\<close> checks for a new hazard.\<close>

definition hazard_ok :: "Vec2 \<Rightarrow> Hazard list \<Rightarrow> Hazard \<Rightarrow> bool" where
  "hazard_ok playerPos earlier hz \<longleftrightarrow>
    120 \<le> distanceTo (hpos hz) playerPos \<and>
    list_all (\<lambda>h. 60 \<le> distanceTo (hpos hz) (hpos h)) earlier"

fun hazards_ok :: "Vec2 \<Rightarrow> Hazard list \<Rightarrow> Hazard list \<Rightarrow> bool" where
  "hazards_ok playerPos earlier [] \<longleftrightarrow> True"
| "hazards_ok playerPos earlier (hz # rest) \<longleftrightarrow>
    hazard_ok playerPos earlier hz \<and> hazards_ok playerPos (earlier @ [hz]) rest"

text \<open>
  What one pass through the loop of \<^verbatim>\<open>spawnHazards\<close> draws first: the position of
  line 766; and what one pass through the loop of \<^verbatim>\<open>spawnItems\<close> draws: the position
  of line 751 and, from the third value on, the item of line 758.
\<close>

definition hazard_candidate :: "real \<Rightarrow> real \<Rightarrow> Game \<Rightarrow> Vec2" where
  "hazard_candidate W H g =
    \<lparr>X = fst (rand 60 (W - 60) (rng g)), Y = fst (rand 100 (H - 60) (stl (rng g)))\<rparr>"

definition item_candidate :: "real \<Rightarrow> real \<Rightarrow> Game \<Rightarrow> Item" where
  "item_candidate W H g =
    fst (new_Item \<lparr>X = fst (rand 40 (W - 40) (rng g)), Y = fst (rand 80 (H - 40) (stl (rng g)))\<rparr>
           (cheese (assets g)) (stl (stl (rng g))))"

text \<open>A given number of passes through the body of each loop, one after another.\<close>

fun hazard_attempts :: "real \<Rightarrow> real \<Rightarrow> real \<times> real \<Rightarrow> nat \<Rightarrow> Game \<Rightarrow> Game option" where
  "hazard_attempts W H sr 0 g = Some g"
| "hazard_attempts W H sr (Suc n) g =
    (case spawnHazards_attempt W H sr g of
       None \<Rightarrow> None
     | Some g' \<Rightarrow> hazard_attempts W H sr n g')"

fun item_attempts :: "real \<Rightarrow> real \<Rightarrow> nat \<Rightarrow> Game \<Rightarrow> Game" where
  "item_attempts W H 0 g = g"
| "item_attempts W H (Suc n) g = item_attempts W H n (spawnItems_attempt W H g)"

text \<open>A random source is central for \<open>n\<close> draws when its first \<open>n\<close> values lie between
  0.45 and 0.55.\<close>

definition central :: "nat \<Rightarrow> real stream \<Rightarrow> bool" where
  "central n r \<longleftrightarrow> (\<forall>k<n. 9 / 20 \<le> r !! k \<and> r !! k \<le> 11 / 20)"

subsection \<open>Sequences of operations\<close>

text \<open>What the frame driver and the key listener do to the game, in any order.\<close>

datatype event = Frame real "string set" | KeyDown string

fun step :: "real \<Rightarrow> real \<Rightarrow> event \<Rightarrow> Game \<Rightarrow> (error + Game) option" where
  "step W H (Frame dt keys) g = Some (update W H dt keys g)"
| "step W H (KeyDown key) g = onKeyDown W H key g"

fun play :: "real \<Rightarrow> real \<Rightarrow> event list \<Rightarrow> Game \<Rightarrow> (error + Game) option" where
  "play W H [] g = Some (Inr g)"
| "play W H (e # es) g =
    (case step W H e g of
       None \<Rightarrow> None
     | Some (Inl err) \<Rightarrow> Some (Inl err)
     | Some (Inr g') \<Rightarrow> play W H es g')"

subsection \<open>Example values\<close>

definition example_player :: Player where
  "example_player = new_Player \<lparr>X = 30, Y = 70\<rparr> [] []"

text \<open>A hazard resting on the left bound after a bounce, moving to the left.\<close>

definition example_hazard :: Hazard where
  "example_hazard = \<lparr>hpos = \<lparr>X = 24, Y = 200\<rparr>, hsize = 24, vel = \<lparr>X = - 50, Y = 0\<rparr>\<rparr>"

text \<open>A store that holds a high score of 50.\<close>

definition example_store :: Storage where
  "example_store = \<lparr>entries = [HIGHSCORE_KEY \<mapsto> ''50''], throws = False\<rparr>"

text \<open>A game in the middle of a run on a 960 by 540 canvas: the player in the centre,
  two items within reach, one far away, one hazard far away, no combo running.\<close>

definition example_items :: "Item list" where
  "example_items =
    [\<lparr>ipos = \<lparr>X = 480, Y = 280\<rparr>, sprite = None, iradius = 10, wobble = 0\<rparr>,
     \<lparr>ipos = \<lparr>X = 490, Y = 270\<rparr>, sprite = None, iradius = 10, wobble = 1\<rparr>,
     \<lparr>ipos = \<lparr>X = 100, Y = 100\<rparr>, sprite = None, iradius = 10, wobble = 2\<rparr>]"

definition example_game :: Game where
  "example_game =
    \<lparr>assets = \<lparr>cheese = None, mouseFrames = [], mouseFramesFlipped = []\<rparr>,
     state = Playing, difficultyIndex = 1, timeAcc = 0, score = 0, lives = 4, timeLeft = 50,
     combo = 0, comboTimer = 0,
     player = new_Player \<lparr>X = 480, Y = 270\<rparr> [] [],
     items = example_items, hazards = [example_hazard],
     particles = [], floaters = [], shakeTimer = 0, shakeStrength = 10,
     highScore = 0, newHighScore = False,
     rng = sconst (1 / 2), storage = \<lparr>entries = Map.empty, throws = False\<rparr>\<rparr>"

text \<open>The example game right after a hit, with a hazard sitting on the player, and
  three frames of 50 ms.\<close>

definition example_hit_game :: Game where
  "example_hit_game =
    example_game\<lparr>player := markHit (player example_game),
                  hazards := [\<lparr>hpos = \<lparr>X = 480, Y = 270\<rparr>, hsize = 24, vel = \<lparr>X = 0, Y = 0\<rparr>\<rparr>]\<rparr>"

definition example_frames :: "(real \<times> string set) list" where
  "example_frames = [(5 / 100, {}), (5 / 100, {''ArrowLeft''}), (5 / 100, {})]"

text \<open>The example game 30 ms before the end of its time, with 50 points against a high
  score of 20 and no item within reach.\<close>

definition example_ending_game :: Game where
  "example_ending_game =
    example_game\<lparr>items := [example_items ! 2], timeLeft := 3 / 100, score := 50,
                  highScore := 20\<rparr>"

text \<open>The example game with a combo of 3 whose window has 10 ms left, one item within
  reach and one far away.\<close>

definition example_combo_game :: Game where
  "example_combo_game =
    example_game\<lparr>items := [example_items ! 0, example_items ! 2], combo := 3,
                  comboTimer := 1 / 100, score := 34\<rparr>"

text \<open>
  Two games about to spawn, with no hazards and no items yet. In the first the random
  source yields 0, 0 and then 1/2 for ever; in the second it yields 1/2 for ever.
\<close>

definition example_stuck_game :: Game where
  "example_stuck_game = example_game\<lparr>items := [], hazards := [], rng := 0 ## 0 ## sconst (1 / 2)\<rparr>"

definition example_crowded_game :: Game where
  "example_crowded_game = example_game\<lparr>items := [], hazards := []\<rparr>"

text \<open>The same game on the random source that yields 0 for ever.\<close>

definition example_open_game :: Game where
  "example_open_game = example_crowded_game\<lparr>rng := sconst 0\<rparr>"

text \<open>
  The values \<^verbatim>\<open>Math.random\<close> returns during one start of the Normal preset on a 960
  by 540 canvas, in the order of the calls. Hazards: a position next to the player; the
  position (60, 100), a velocity sample that is too short, then the sample (-1, 0) and
  its speed; (270, 100) with its velocity; a position 38 below that hazard; (480, 100)
  and (690, 100) with their velocities. Items: a position next to the player; (40, 480)
  and (120, 480), each with its wobble; (120, 480) again; the position of the first
  hazard; then (200, 480) to (760, 480), each with its wobble.
\<close>

definition example_draws :: "real list" where
  "example_draws =
    [1 / 2, 1 / 2,
     0, 0, 1 / 2, 1 / 2, 0, 1 / 2, 0,
     1 / 4, 0, 1 / 2, 0, 1 / 2,
     1 / 4, 1 / 10,
     1 / 2, 0, 0, 1 / 2, 3 / 4,
     3 / 4, 0, 1 / 2, 0, 1 / 4,
     1 / 2, 1 / 2,
     0, 20 / 21, 0,
     1 / 11, 20 / 21, 1 / 2,
     1 / 11, 20 / 21,
     1 / 44, 1 / 21,
     2 / 11, 20 / 21, 0,
     3 / 11, 20 / 21, 1 / 2,
     4 / 11, 20 / 21, 0,
     5 / 11, 20 / 21, 1 / 2,
     6 / 11, 20 / 21, 0,
     7 / 11, 20 / 21, 1 / 2,
     8 / 11, 20 / 21, 0,
     9 / 11, 20 / 21, 1 / 2]"

text \<open>
  A run of the Normal preset that has just ended with a last hit: no lives, 7 seconds
  and 34 points left over, a combo of 3, the player away from the centre and still
  invulnerable, one item and one hazard on the field, a particle and a floating text
  on the screen, the screen shaking, a new high score. The random source yields the
  values above and then 0 for ever.
\<close>

definition example_finished_game :: Game where
  "example_finished_game =
    example_combo_game\<lparr>state := GameOver, lives := 0, timeLeft := 7,
       player := (markHit (player example_game))\<lparr>pos := \<lparr>X = 100, Y = 400\<rparr>\<rparr>,
       items := [example_items ! 2],
       particles := [new_Particle \<lparr>X = 100, Y = 400\<rparr> \<lparr>X = 90, Y = 0\<rparr> (1 / 2)
                       ''rgba(250, 120, 60, 1)'' 3],
       floaters := [new_FloatingText \<lparr>X = 100, Y = 382\<rparr> ''-1'' ''rgba(250, 120, 60, 1)''],
       shakeTimer := 1 / 5, highScore := 34, newHighScore := True,
       rng := example_draws @- sconst 0\<rparr>"

text \<open>
  A random source whose first 600 values are 0.45, 0.5, 0.55, 0.48, 150 times over, and
  whose later values are 0; and the example game in the menu, on that source.
\<close>

definition example_central_draws :: "real stream" where
  "example_central_draws = concat (replicate 150 [9 / 20, 1 / 2, 11 / 20, 12 / 25]) @- sconst 0"

definition example_unlucky_game :: Game where
  "example_unlucky_game = example_game\<lparr>state := Menu, rng := example_central_draws\<rparr>"

section \<open>Verified properties\<close>

subsection \<open>Player\<close>

lemma animate_pos: "pos (animate d dt p) = pos p"
  by (simp add: animate_def Let_def)

lemma animate_radius: "radius (animate d dt p) = radius p"
  by (simp add: animate_def Let_def)

lemma animate_hitCooldown: "hitCooldown (animate d dt p) = hitCooldown p"
  by (simp add: animate_def Let_def)

lemma Player_update_pos:
  "pos (Player_update W H keys dt p) =
    \<lparr>X = clamp (X (pos p) + X (moveDirection keys) * PLAYER_SPEED * dt) (radius p) (W - radius p),
     Y = clamp (Y (pos p) + Y (moveDirection keys) * PLAYER_SPEED * dt) (radius p + 40) (H - radius p)\<rparr>"
  by (simp add: Player_update_def Let_def animate_pos moveDirection_def)

lemma Player_update_radius: "radius (Player_update W H keys dt p) = radius p"
  by (simp add: Player_update_def Let_def animate_radius)

lemma Player_update_hitCooldown:
  "hitCooldown (Player_update W H keys dt p) =
    (if hitCooldown p > 0 then max 0 (hitCooldown p - dt) else hitCooldown p)"
  by (simp add: Player_update_def Let_def animate_hitCooldown)

lemma clamp_bounds: "lo \<le> hi \<Longrightarrow> lo \<le> clamp v lo hi \<and> clamp v lo hi \<le> hi"
  by (simp add: clamp_def)

text \<open>
  Claim C5. After \<^verbatim>\<open>Player.update\<close> the player's position lies within
  \<open>[radius, W - radius]\<close> horizontally and \<open>[radius + 40, H - radius]\<close> vertically, for
  every prior position, every set of held keys and every \<open>dt\<close>; 40 is the HUD band.
  The two intervals are assumed not to be empty, that is, the canvas is at least as
  wide as the player and at least 40 higher than the player.
\<close>

theorem Player_update_within_bounds:
  assumes "radius p \<le> W - radius p" and "radius p + 40 \<le> H - radius p"
  shows "radius p \<le> X (pos (Player_update W H keys dt p)) \<and>
         X (pos (Player_update W H keys dt p)) \<le> W - radius p \<and>
         radius p + 40 \<le> Y (pos (Player_update W H keys dt p)) \<and>
         Y (pos (Player_update W H keys dt p)) \<le> H - radius p"
  using clamp_bounds [OF assms(1)] clamp_bounds [OF assms(2)]
  by (simp add: Player_update_pos)

theorem Player_update_within_bounds_witness:
  "radius example_player \<le> 960 - radius example_player \<and>
   radius example_player + 40 \<le> 540 - radius example_player \<and>
   radius example_player = 18 \<and>
   X (pos (Player_update 960 540 {''ArrowLeft''} (5 / 100) example_player)) = 18 \<and>
   Y (pos (Player_update 960 540 {''ArrowLeft''} (5 / 100) example_player)) = 70"
  using Player_update_within_bounds [of example_player 960 540 "{''ArrowLeft''}" "5 / 100"]
  by (simp add: example_player_def new_Player_def Player_update_pos moveDirection_def
      inputDirection_def Let_def len2_def normalize_def len_def hypot_def clamp_def
      PLAYER_SPEED_def)

subsection \<open>Hazard\<close>

lemma Hazard_update_vel:
  "vel (Hazard_update W H dt h) =
    \<lparr>X = (if crosses_x W dt h then X (vel h) * (- 1) else X (vel h)),
     Y = (if crosses_y H dt h then Y (vel h) * (- 1) else Y (vel h))\<rparr>"
  by (simp add: Hazard_update_def Let_def crosses_x_def crosses_y_def)

lemma Hazard_update_hsize: "hsize (Hazard_update W H dt h) = hsize h"
  by (simp add: Hazard_update_def Let_def)

lemma Hazard_update_hpos:
  "hpos (Hazard_update W H dt h) =
    (if crosses_x W dt h \<or> crosses_y H dt h
     then \<lparr>X = clamp (X (integrated dt h)) (hsize h) (W - hsize h),
           Y = clamp (Y (integrated dt h)) (hsize h + 40) (H - hsize h)\<rparr>
     else integrated dt h)"
  by (simp add: Hazard_update_def Let_def crosses_x_def crosses_y_def)

lemma Hazard_update_len: "len (vel (Hazard_update W H dt h)) = len (vel h)"
  by (simp add: Hazard_update_vel len_def hypot_def)

text \<open>
  Claim C6. The length of a hazard's velocity vector is the same after any number of
  update steps, whatever their \<open>dt\<close> and however many walls are hit on the way: a
  bounce negates a component of the velocity and nothing else touches it.
\<close>

theorem hazard_speed_invariant:
  "len (vel (fold (Hazard_update W H) dts h)) = len (vel h)"
  by (induction dts arbitrary: h) (simp_all add: Hazard_update_len)

lemma new_Hazard_hsize: "new_Hazard p sr r = Some (h, r') \<Longrightarrow> hsize h = 24 \<and> hpos h = p"
  by (auto simp: new_Hazard_def split: option.splits)

text \<open>
  Claim C7, as stated, fails: the margin of the wall test is not the hazard's half-size.
  A hazard of size 24 that rests on the left bound and moves left comes to \<open>x = 21.5\<close>,
  still more than its half-size 12 away from the edge on both axes, and the code
  reflects its velocity and puts it back to \<open>x = 24\<close>.
\<close>

theorem hazard_bounce_margin_counterexample:
  "hsize example_hazard = 24 \<and>
   X (integrated (5 / 100) example_hazard) = 215 / 10 \<and>
   \<not> spec_crosses_x 960 (5 / 100) example_hazard \<and>
   \<not> spec_crosses_y 540 (5 / 100) example_hazard \<and>
   vel (Hazard_update 960 540 (5 / 100) example_hazard) = \<lparr>X = 50, Y = 0\<rparr> \<and>
   hpos (Hazard_update 960 540 (5 / 100) example_hazard) = \<lparr>X = 24, Y = 200\<rparr>"
  by (simp add: example_hazard_def spec_crosses_x_def spec_crosses_y_def integrated_def
      Hazard_update_vel Hazard_update_hpos crosses_x_def crosses_y_def clamp_def)

text \<open>
  Claim C7, amended. The wall test of \<^verbatim>\<open>Hazard.update\<close> uses a margin equal to the
  hazard's full size (plus 40 at the top for the HUD band): the horizontal component of
  the velocity is negated exactly when the integrated position is left of \<open>hsize\<close> or
  right of \<open>W - hsize\<close>, the vertical one exactly when it is above \<open>hsize + 40\<close> or
  below \<open>H - hsize\<close>, and on each axis the position is clamped into these bounds
  exactly when that axis crossed; otherwise it is the integrated position.
\<close>

theorem Hazard_update_bounce:
  "X (vel (Hazard_update W H dt h)) = (if crosses_x W dt h then - X (vel h) else X (vel h)) \<and>
   Y (vel (Hazard_update W H dt h)) = (if crosses_y H dt h then - Y (vel h) else Y (vel h)) \<and>
   X (hpos (Hazard_update W H dt h)) =
     (if crosses_x W dt h then clamp (X (integrated dt h)) (hsize h) (W - hsize h)
      else X (integrated dt h)) \<and>
   Y (hpos (Hazard_update W H dt h)) =
     (if crosses_y H dt h then clamp (Y (integrated dt h)) (hsize h + 40) (H - hsize h)
      else Y (integrated dt h)) \<and>
   hsize (Hazard_update W H dt h) = hsize h \<and>
   (crosses_x W dt h \<longleftrightarrow>
      X (hpos h) + X (vel h) * dt < hsize h \<or> X (hpos h) + X (vel h) * dt > W - hsize h) \<and>
   (crosses_y H dt h \<longleftrightarrow>
      Y (hpos h) + Y (vel h) * dt < hsize h + 40 \<or> Y (hpos h) + Y (vel h) * dt > H - hsize h)"
  by (auto simp add: Hazard_update_vel Hazard_update_hpos Hazard_update_hsize clamp_def
      crosses_x_def crosses_y_def integrated_def)

theorem Hazard_update_bounce_witness:
  "crosses_x 960 (5 / 100) example_hazard \<and>
   X (vel (Hazard_update 960 540 (5 / 100) example_hazard)) = 50 \<and>
   X (hpos (Hazard_update 960 540 (5 / 100) example_hazard)) = 24 \<and>
   Y (hpos (Hazard_update 960 540 (5 / 100) example_hazard)) = 200"
  using Hazard_update_bounce [of 960 540 "5 / 100" example_hazard]
  by (simp add: example_hazard_def crosses_x_def crosses_y_def integrated_def clamp_def)

subsection \<open>Which fields each operation leaves alone\<close>

declare spawnItems_loop.simps [simp del]
declare spawnHazards_loop.simps [simp del]
declare decimal.simps [simp del]

lemma burst_keeps [simp]:
  "score (burst n p sp lt c sz g) = score g"
  "combo (burst n p sp lt c sz g) = combo g"
  "comboTimer (burst n p sp lt c sz g) = comboTimer g"
  "lives (burst n p sp lt c sz g) = lives g"
  "state (burst n p sp lt c sz g) = state g"
  "highScore (burst n p sp lt c sz g) = highScore g"
  "newHighScore (burst n p sp lt c sz g) = newHighScore g"
  "storage (burst n p sp lt c sz g) = storage g"
  "difficultyIndex (burst n p sp lt c sz g) = difficultyIndex g"
  "player (burst n p sp lt c sz g) = player g"
  "items (burst n p sp lt c sz g) = items g"
  "hazards (burst n p sp lt c sz g) = hazards g"
  "timeLeft (burst n p sp lt c sz g) = timeLeft g"
  "assets (burst n p sp lt c sz g) = assets g"
  "floaters (burst n p sp lt c sz g) = floaters g"
  "shakeTimer (burst n p sp lt c sz g) = shakeTimer g"
  by (induction n arbitrary: g; simp add: Let_def case_prod_beta)+

lemma spawnCollectEffect_keeps [simp]:
  "score (spawnCollectEffect p pts c g) = score g"
  "combo (spawnCollectEffect p pts c g) = combo g"
  "comboTimer (spawnCollectEffect p pts c g) = comboTimer g"
  "lives (spawnCollectEffect p pts c g) = lives g"
  "state (spawnCollectEffect p pts c g) = state g"
  "highScore (spawnCollectEffect p pts c g) = highScore g"
  "newHighScore (spawnCollectEffect p pts c g) = newHighScore g"
  "storage (spawnCollectEffect p pts c g) = storage g"
  "difficultyIndex (spawnCollectEffect p pts c g) = difficultyIndex g"
  "player (spawnCollectEffect p pts c g) = player g"
  "items (spawnCollectEffect p pts c g) = items g"
  "hazards (spawnCollectEffect p pts c g) = hazards g"
  "timeLeft (spawnCollectEffect p pts c g) = timeLeft g"
  "assets (spawnCollectEffect p pts c g) = assets g"
  "shakeTimer (spawnCollectEffect p pts c g) = shakeTimer g"
  by (simp_all add: spawnCollectEffect_def Let_def)

lemma spawnHitEffect_keeps [simp]:
  "score (spawnHitEffect p g) = score g"
  "combo (spawnHitEffect p g) = combo g"
  "comboTimer (spawnHitEffect p g) = comboTimer g"
  "lives (spawnHitEffect p g) = lives g"
  "state (spawnHitEffect p g) = state g"
  "highScore (spawnHitEffect p g) = highScore g"
  "newHighScore (spawnHitEffect p g) = newHighScore g"
  "storage (spawnHitEffect p g) = storage g"
  "difficultyIndex (spawnHitEffect p g) = difficultyIndex g"
  "player (spawnHitEffect p g) = player g"
  "items (spawnHitEffect p g) = items g"
  "hazards (spawnHitEffect p g) = hazards g"
  "timeLeft (spawnHitEffect p g) = timeLeft g"
  "assets (spawnHitEffect p g) = assets g"
  "floaters (spawnHitEffect p g) = floaters g"
  by (simp_all add: spawnHitEffect_def Let_def)

lemma updateEffects_keeps [simp]:
  "score (updateEffects dt g) = score g"
  "combo (updateEffects dt g) = combo g"
  "comboTimer (updateEffects dt g) = comboTimer g"
  "lives (updateEffects dt g) = lives g"
  "state (updateEffects dt g) = state g"
  "highScore (updateEffects dt g) = highScore g"
  "newHighScore (updateEffects dt g) = newHighScore g"
  "storage (updateEffects dt g) = storage g"
  "difficultyIndex (updateEffects dt g) = difficultyIndex g"
  "player (updateEffects dt g) = player g"
  "items (updateEffects dt g) = items g"
  "hazards (updateEffects dt g) = hazards g"
  "timeLeft (updateEffects dt g) = timeLeft g"
  "assets (updateEffects dt g) = assets g"
  "shakeTimer (updateEffects dt g) = shakeTimer g"
  "rng (updateEffects dt g) = rng g"
  by (simp_all add: updateEffects_def Let_def)

lemma collect_keeps [simp]:
  "lives (collect it g) = lives g"
  "state (collect it g) = state g"
  "highScore (collect it g) = highScore g"
  "newHighScore (collect it g) = newHighScore g"
  "storage (collect it g) = storage g"
  "difficultyIndex (collect it g) = difficultyIndex g"
  "player (collect it g) = player g"
  "items (collect it g) = items g"
  "hazards (collect it g) = hazards g"
  "timeLeft (collect it g) = timeLeft g"
  "assets (collect it g) = assets g"
  "shakeTimer (collect it g) = shakeTimer g"
  by (simp_all add: collect_def Let_def)

lemma collect_combo:
  "combo (collect it g) = (if comboTimer g > 0 then combo g + 1 else 1)"
  by (simp add: collect_def Let_def)

lemma collect_comboTimer: "comboTimer (collect it g) = COMBO_WINDOW"
  by (simp add: collect_def Let_def)

lemma collect_score:
  "score (collect it g) =
    score g + (10 + min COMBO_BONUS_CAP ((combo (collect it g) - 1) * COMBO_BONUS_STEP))"
  by (simp add: collect_def Let_def)

lemma spawnItems_attempt_keeps [simp]:
  "score (spawnItems_attempt W H g) = score g"
  "combo (spawnItems_attempt W H g) = combo g"
  "comboTimer (spawnItems_attempt W H g) = comboTimer g"
  "lives (spawnItems_attempt W H g) = lives g"
  "state (spawnItems_attempt W H g) = state g"
  "highScore (spawnItems_attempt W H g) = highScore g"
  "newHighScore (spawnItems_attempt W H g) = newHighScore g"
  "storage (spawnItems_attempt W H g) = storage g"
  "difficultyIndex (spawnItems_attempt W H g) = difficultyIndex g"
  "player (spawnItems_attempt W H g) = player g"
  "hazards (spawnItems_attempt W H g) = hazards g"
  "timeLeft (spawnItems_attempt W H g) = timeLeft g"
  "assets (spawnItems_attempt W H g) = assets g"
  "shakeTimer (spawnItems_attempt W H g) = shakeTimer g"
  "particles (spawnItems_attempt W H g) = particles g"
  "floaters (spawnItems_attempt W H g) = floaters g"
  by (simp_all add: spawnItems_attempt_def Let_def case_prod_beta)

lemma spawnItems_loop_keeps [simp]:
  "score (snd (spawnItems_loop W H n a g)) = score g"
  "combo (snd (spawnItems_loop W H n a g)) = combo g"
  "comboTimer (snd (spawnItems_loop W H n a g)) = comboTimer g"
  "lives (snd (spawnItems_loop W H n a g)) = lives g"
  "state (snd (spawnItems_loop W H n a g)) = state g"
  "highScore (snd (spawnItems_loop W H n a g)) = highScore g"
  "newHighScore (snd (spawnItems_loop W H n a g)) = newHighScore g"
  "storage (snd (spawnItems_loop W H n a g)) = storage g"
  "difficultyIndex (snd (spawnItems_loop W H n a g)) = difficultyIndex g"
  "player (snd (spawnItems_loop W H n a g)) = player g"
  "hazards (snd (spawnItems_loop W H n a g)) = hazards g"
  "timeLeft (snd (spawnItems_loop W H n a g)) = timeLeft g"
  "assets (snd (spawnItems_loop W H n a g)) = assets g"
  "shakeTimer (snd (spawnItems_loop W H n a g)) = shakeTimer g"
  "particles (snd (spawnItems_loop W H n a g)) = particles g"
  "floaters (snd (spawnItems_loop W H n a g)) = floaters g"
  by (induction W H n a g rule: spawnItems_loop.induct;
      subst spawnItems_loop.simps; simp)+

subsection \<open>Collision and scoring engine\<close>

lemma hypot_le_iff: "0 \<le> r \<Longrightarrow> hypot a b \<le> r \<longleftrightarrow> a * a + b * b \<le> r * r"
proof -
  assume r: "0 \<le> r"
  have "sqrt (a * a + b * b) \<le> r \<longleftrightarrow> sqrt (a * a + b * b) \<le> sqrt (r * r)"
    using r by simp
  also have "\<dots> \<longleftrightarrow> a * a + b * b \<le> r * r"
    by (rule real_sqrt_le_iff)
  finally show ?thesis by (simp add: hypot_def)
qed

lemma hypot_less_iff: "0 \<le> r \<Longrightarrow> hypot a b < r \<longleftrightarrow> a * a + b * b < r * r"
proof -
  assume r: "0 \<le> r"
  have "sqrt (a * a + b * b) < r \<longleftrightarrow> sqrt (a * a + b * b) < sqrt (r * r)"
    using r by simp
  also have "\<dots> \<longleftrightarrow> a * a + b * b < r * r"
    by (rule real_sqrt_less_iff)
  finally show ?thesis by (simp add: hypot_def)
qed

lemma collectItems_player: "player (snd (collectItems its acc g)) = player g"
  by (induction its arbitrary: acc g) simp_all

lemma collectItems_fold:
  "snd (collectItems its acc g) = fold collect (filter (touches (player g)) its) g"
  by (induction its arbitrary: acc g) simp_all

lemma collectItems_collected:
  "fst (collectItems its acc g) = acc @ filter (touches (player g)) its"
  by (induction its arbitrary: acc g) simp_all

lemma hitHazards_keeps [simp]:
  "score (hitHazards b hs g) = score g"
  "combo (hitHazards b hs g) = combo g"
  "comboTimer (hitHazards b hs g) = comboTimer g"
  "state (hitHazards b hs g) = state g"
  "highScore (hitHazards b hs g) = highScore g"
  "newHighScore (hitHazards b hs g) = newHighScore g"
  "storage (hitHazards b hs g) = storage g"
  "difficultyIndex (hitHazards b hs g) = difficultyIndex g"
  "items (hitHazards b hs g) = items g"
  "timeLeft (hitHazards b hs g) = timeLeft g"
  "assets (hitHazards b hs g) = assets g"
  by (induction b hs g rule: hitHazards.induct; simp add: Let_def case_prod_beta)+

lemma spawnItems_keeps [simp]:
  "score (spawnItems W H n g) = score g"
  "combo (spawnItems W H n g) = combo g"
  "comboTimer (spawnItems W H n g) = comboTimer g"
  "lives (spawnItems W H n g) = lives g"
  "state (spawnItems W H n g) = state g"
  "highScore (spawnItems W H n g) = highScore g"
  "newHighScore (spawnItems W H n g) = newHighScore g"
  "storage (spawnItems W H n g) = storage g"
  "difficultyIndex (spawnItems W H n g) = difficultyIndex g"
  "player (spawnItems W H n g) = player g"
  "hazards (spawnItems W H n g) = hazards g"
  "timeLeft (spawnItems W H n g) = timeLeft g"
  "assets (spawnItems W H n g) = assets g"
  "shakeTimer (spawnItems W H n g) = shakeTimer g"
  "particles (spawnItems W H n g) = particles g"
  "floaters (spawnItems W H n g) = floaters g"
  by (simp_all add: spawnItems_def)

lemma fold_collect_keeps [simp]:
  "lives (fold collect its g) = lives g"
  "state (fold collect its g) = state g"
  "highScore (fold collect its g) = highScore g"
  "newHighScore (fold collect its g) = newHighScore g"
  "storage (fold collect its g) = storage g"
  "difficultyIndex (fold collect its g) = difficultyIndex g"
  "player (fold collect its g) = player g"
  "items (fold collect its g) = items g"
  "hazards (fold collect its g) = hazards g"
  "timeLeft (fold collect its g) = timeLeft g"
  "assets (fold collect its g) = assets g"
  "shakeTimer (fold collect its g) = shakeTimer g"
  by (induction its arbitrary: g; simp)+

lemma handleCollisions_score:
  assumes "handleCollisions W H g = Inr g'"
  shows "score g' = score (afterItems g)" and "combo g' = combo (afterItems g)"
    and "comboTimer g' = comboTimer (afterItems g)"
  using assms
  by (auto simp add: handleCollisions_def afterItems_def Let_def case_prod_beta collectItems_fold
      split: if_splits option.splits sum.splits)

lemma fold_collect_combo:
  "combo (fold collect its g) =
    (if its = [] then combo g
     else (if comboTimer g > 0 then combo g else 0) + int (length its))"
proof (induction its arbitrary: g)
  case Nil
  then show ?case by simp
next
  case (Cons it its)
  show ?case
    by (simp add: Cons.IH [of "collect it g"] collect_combo collect_comboTimer COMBO_WINDOW_def)
qed

text \<open>
  Claim C1. Every collection of an item (\<open>collect\<close>, the body of the loop over the
  items in \<^verbatim>\<open>handleCollisions\<close>) increments the combo when the combo window timer is
  active and sets it to 1 otherwise, adds \<open>10 + min 14 ((combo - 1) * 2)\<close> points to
  the score, where \<open>combo\<close> is the new count: 10 for the first item of a combo, 12 for
  the second, 24 for the eighth and for every later one; it restarts the window of
  1.25 s, so \<open>n\<close> collections in a row take the combo to \<open>n\<close> above its value (or
  above 0 when no window was open). The item loop applies \<open>collect\<close> to the
  overlapping items in order, and nothing else in \<^verbatim>\<open>handleCollisions\<close> changes score
  or combo.
\<close>

theorem combo_scoring:
  "combo (collect it g) = (if comboTimer g > 0 then combo g + 1 else 1) \<and>
   score (collect it g) = score g + (10 + min 14 ((combo (collect it g) - 1) * 2)) \<and>
   (combo (collect it g) = 1 \<longrightarrow> score (collect it g) = score g + 10) \<and>
   (combo (collect it g) = 2 \<longrightarrow> score (collect it g) = score g + 12) \<and>
   (combo (collect it g) = 8 \<longrightarrow> score (collect it g) = score g + 24) \<and>
   (combo (collect it g) \<ge> 8 \<longrightarrow> score (collect it g) = score g + 24) \<and>
   comboTimer (collect it g) = 125 / 100 \<and>
   (its \<noteq> [] \<longrightarrow>
      combo (fold collect its g) =
        (if comboTimer g > 0 then combo g else 0) + int (length its)) \<and>
   snd (collectItems (items g) [] g) = afterItems g \<and>
   (\<forall>g'. handleCollisions W H g = Inr g' \<longrightarrow>
      score g' = score (afterItems g) \<and> combo g' = combo (afterItems g))"
  using handleCollisions_score [of W H g]
  by (simp add: collect_combo collect_comboTimer collect_score [of it g] collectItems_fold
      fold_collect_combo afterItems_def COMBO_BONUS_CAP_def COMBO_BONUS_STEP_def
      COMBO_WINDOW_def)

lemma touches_example [simp]:
  "touches (player example_game) (example_items ! 0)"
  "touches (player example_game) (example_items ! 1)"
  "\<not> touches (player example_game) (example_items ! 2)"
  by (simp_all add: touches_def example_game_def example_items_def new_Player_def
      distanceTo_def hypot_le_iff)

theorem combo_scoring_witness:
  "comboTimer example_game = 0 \<and>
   combo (collect (example_items ! 0) example_game) = 1 \<and>
   score (collect (example_items ! 0) example_game) = score example_game + 10 \<and>
   comboTimer (collect (example_items ! 0) example_game) > 0 \<and>
   combo (collect (example_items ! 1) (collect (example_items ! 0) example_game)) = 2 \<and>
   score (collect (example_items ! 1) (collect (example_items ! 0) example_game)) =
     score example_game + 10 + 12"
proof -
  let ?g1 = "collect (example_items ! 0) example_game"
  have t0: "comboTimer example_game = 0"
    by (simp add: example_game_def)
  note first = combo_scoring [of "example_items ! 0" example_game "[]" 960 540]
  note second = combo_scoring [of "example_items ! 1" ?g1 "[]" 960 540]
  from first t0 have c1: "combo ?g1 = 1" by simp
  with first have s1: "score ?g1 = score example_game + 10" by simp
  from first have t1: "comboTimer ?g1 > 0" by simp
  with second c1 have c2: "combo (collect (example_items ! 1) ?g1) = 2" by simp
  with second s1 have "score (collect (example_items ! 1) ?g1) = score example_game + 10 + 12"
    by simp
  with t0 c1 s1 t1 c2 show ?thesis by simp
qed

subsection \<open>Frame update\<close>

lemma update_idle: "state g \<noteq> Playing \<Longrightarrow> update W H dt keys g = Inr (idleFrame dt g)"
  by (simp add: update_def idleFrame_def Let_def)

lemma update_Playing:
  "state g = Playing \<Longrightarrow>
   update W H dt keys g =
     (case handleCollisions W H (beforeCollisions W H dt keys g) of
        Inl e \<Rightarrow> Inl e
      | Inr g1 \<Rightarrow> Inr (afterCollisions dt g1))"
  unfolding update_def beforeCollisions_def afterCollisions_def Let_def
  by (simp split: sum.splits)

lemma tickCombo_keeps [simp]:
  "score (tickCombo dt g) = score g"
  "lives (tickCombo dt g) = lives g"
  "state (tickCombo dt g) = state g"
  "highScore (tickCombo dt g) = highScore g"
  "newHighScore (tickCombo dt g) = newHighScore g"
  "storage (tickCombo dt g) = storage g"
  "difficultyIndex (tickCombo dt g) = difficultyIndex g"
  "player (tickCombo dt g) = player g"
  "items (tickCombo dt g) = items g"
  "hazards (tickCombo dt g) = hazards g"
  "timeLeft (tickCombo dt g) = timeLeft g"
  "assets (tickCombo dt g) = assets g"
  "rng (tickCombo dt g) = rng g"
  by (simp_all add: tickCombo_def Let_def)

lemma idleFrame_keeps [simp]:
  "score (idleFrame dt g) = score g"
  "combo (idleFrame dt g) = combo g"
  "comboTimer (idleFrame dt g) = comboTimer g"
  "lives (idleFrame dt g) = lives g"
  "state (idleFrame dt g) = state g"
  "highScore (idleFrame dt g) = highScore g"
  "newHighScore (idleFrame dt g) = newHighScore g"
  "storage (idleFrame dt g) = storage g"
  "difficultyIndex (idleFrame dt g) = difficultyIndex g"
  "player (idleFrame dt g) = player g"
  "items (idleFrame dt g) = items g"
  "hazards (idleFrame dt g) = hazards g"
  "timeLeft (idleFrame dt g) = timeLeft g"
  "assets (idleFrame dt g) = assets g"
  "rng (idleFrame dt g) = rng g"
  by (simp_all add: idleFrame_def Let_def)

lemma beforeCollisions_keeps [simp]:
  "score (beforeCollisions W H dt keys g) = score g"
  "lives (beforeCollisions W H dt keys g) = lives g"
  "state (beforeCollisions W H dt keys g) = state g"
  "highScore (beforeCollisions W H dt keys g) = highScore g"
  "newHighScore (beforeCollisions W H dt keys g) = newHighScore g"
  "storage (beforeCollisions W H dt keys g) = storage g"
  "difficultyIndex (beforeCollisions W H dt keys g) = difficultyIndex g"
  "items (beforeCollisions W H dt keys g) = items g"
  "timeLeft (beforeCollisions W H dt keys g) = timeLeft g"
  "assets (beforeCollisions W H dt keys g) = assets g"
  "rng (beforeCollisions W H dt keys g) = rng g"
  "player (beforeCollisions W H dt keys g) = Player_update W H keys dt (player g)"
  "hazards (beforeCollisions W H dt keys g) = map (Hazard_update W H dt) (hazards g)"
  "combo (beforeCollisions W H dt keys g) = combo (tickCombo dt g)"
  "comboTimer (beforeCollisions W H dt keys g) = comboTimer (tickCombo dt g)"
  by (simp_all add: beforeCollisions_def Let_def tickCombo_def)

lemma enterGameOver_keeps [simp]:
  "score (enterGameOver g) = score g"
  "combo (enterGameOver g) = combo g"
  "comboTimer (enterGameOver g) = comboTimer g"
  "lives (enterGameOver g) = lives g"
  "difficultyIndex (enterGameOver g) = difficultyIndex g"
  "player (enterGameOver g) = player g"
  "items (enterGameOver g) = items g"
  "hazards (enterGameOver g) = hazards g"
  "timeLeft (enterGameOver g) = timeLeft g"
  "assets (enterGameOver g) = assets g"
  "rng (enterGameOver g) = rng g"
  "state (enterGameOver g) = GameOver"
  by (simp_all add: enterGameOver_def Let_def)

lemma enterGameOver_highScore:
  "highScore (enterGameOver g) = (if score g > highScore g then score g else highScore g)"
  "newHighScore (enterGameOver g) \<longleftrightarrow> score g > highScore g"
  "storage (enterGameOver g) =
     (if score g > highScore g then saveHighScore (score g) (storage g) else storage g)"
  by (simp_all add: enterGameOver_def Let_def)

lemma afterCollisions_keeps [simp]:
  "score (afterCollisions dt g) = score g"
  "combo (afterCollisions dt g) = combo g"
  "comboTimer (afterCollisions dt g) = comboTimer g"
  "lives (afterCollisions dt g) = lives g"
  "difficultyIndex (afterCollisions dt g) = difficultyIndex g"
  "player (afterCollisions dt g) = player g"
  "items (afterCollisions dt g) = items g"
  "hazards (afterCollisions dt g) = hazards g"
  "assets (afterCollisions dt g) = assets g"
  "rng (afterCollisions dt g) = rng g"
  "timeLeft (afterCollisions dt g) = max 0 (timeLeft g - dt)"
  by (simp_all add: afterCollisions_def Let_def)

lemma handleCollisions_keeps:
  assumes "handleCollisions W H g = Inr g'"
  shows "state g' = state g" and "highScore g' = highScore g"
    and "newHighScore g' = newHighScore g" and "storage g' = storage g"
    and "difficultyIndex g' = difficultyIndex g" and "timeLeft g' = timeLeft g"
    and "assets g' = assets g"
  using assms
  by (auto simp add: handleCollisions_def Let_def case_prod_beta collectItems_fold
      split: if_splits option.splits sum.splits)

lemma handleCollisions_returns:
  "validIndex g \<Longrightarrow> \<exists>g'. handleCollisions W H g = Inr g'"
  by (auto simp add: handleCollisions_def Let_def case_prod_beta collectItems_fold
      validIndex_def difficulty_at_def DIFFICULTIES_def
      split: if_splits option.splits sum.splits)

lemma handleCollisions_invulnerable:
  assumes "handleCollisions W H g = Inr g'" and "0 < hitCooldown (player g)"
  shows "lives g' = lives g" and "player g' = player g" and "hazards g' = hazards g"
  using assms
  by (auto simp add: handleCollisions_def Let_def case_prod_beta collectItems_fold
      canTakeHit_def split: if_splits option.splits sum.splits)

lemma update_returns:
  assumes "validIndex g"
  shows "\<exists>g'. update W H dt keys g = Inr g' \<and> validIndex g'"
proof (cases "state g = Playing")
  case False
  then show ?thesis using assms by (simp add: update_idle validIndex_def)
next
  case True
  have "validIndex (beforeCollisions W H dt keys g)"
    using assms by (simp add: validIndex_def)
  then obtain g1 where g1: "handleCollisions W H (beforeCollisions W H dt keys g) = Inr g1"
    using handleCollisions_returns by blast
  then have "validIndex (afterCollisions dt g1)"
    using assms handleCollisions_keeps(5) [OF g1] by (simp add: validIndex_def)
  with g1 True show ?thesis by (simp add: update_Playing)
qed

lemma frames_run_returns:
  "validIndex g \<Longrightarrow> \<exists>g'. frames_run W H fs g = Inr g'"
proof (induction fs arbitrary: g)
  case Nil
  then show ?case by simp
next
  case (Cons f fs)
  obtain dt keys where f: "f = (dt, keys)" by (cases f)
  from Cons.prems obtain g1 where "update W H dt keys g = Inr g1" and "validIndex g1"
    using update_returns by blast
  with Cons.IH [of g1] f show ?case by simp
qed

lemma update_Playing_invulnerable:
  assumes "state g = Playing" and "update W H dt keys g = Inr g'"
    and "0 < hitCooldown (Player_update W H keys dt (player g))"
  shows "lives g' = lives g" and "player g' = Player_update W H keys dt (player g)"
proof -
  from assms(1,2) obtain g1
    where g1: "handleCollisions W H (beforeCollisions W H dt keys g) = Inr g1"
      and g': "g' = afterCollisions dt g1"
    by (auto simp add: update_Playing split: sum.splits)
  from assms(3) have "0 < hitCooldown (player (beforeCollisions W H dt keys g))" by simp
  from handleCollisions_invulnerable [OF g1 this] g'
  show "lives g' = lives g" and "player g' = Player_update W H keys dt (player g)"
    by simp_all
qed

lemma update_cooldown_step:
  assumes "update W H dt keys g = Inr g'" and "0 \<le> dt" and "dt < hitCooldown (player g)"
  shows "lives g' = lives g \<and> hitCooldown (player g) - dt \<le> hitCooldown (player g')"
proof (cases "state g = Playing")
  case False
  with assms show ?thesis by (auto simp add: update_idle)
next
  case True
  from assms(2,3) have c: "hitCooldown (Player_update W H keys dt (player g)) = hitCooldown (player g) - dt"
    by (simp add: Player_update_hitCooldown)
  with assms(3) have "0 < hitCooldown (Player_update W H keys dt (player g))" by simp
  from update_Playing_invulnerable [OF True assms(1) this] c show ?thesis by simp
qed

lemma frames_run_invulnerable:
  assumes "frames_run W H fs g = Inr g'" and "\<forall>f \<in> set fs. 0 \<le> fst f"
    and "sum_list (map fst fs) < hitCooldown (player g)"
  shows "lives g' = lives g"
  using assms
proof (induction fs arbitrary: g)
  case Nil
  then show ?case by simp
next
  case (Cons f fs)
  obtain dt keys where f: "f = (dt, keys)" by (cases f)
  from Cons.prems(1) f obtain g1
    where g1: "update W H dt keys g = Inr g1" and rest: "frames_run W H fs g1 = Inr g'"
    by (auto split: sum.splits)
  from Cons.prems(2) f have dt: "0 \<le> dt" and nonneg: "\<forall>f \<in> set fs. 0 \<le> fst f" by auto
  from nonneg have "0 \<le> sum_list (map fst fs)" by (intro sum_list_nonneg) auto
  with Cons.prems(3) f have lt: "dt < hitCooldown (player g)" by simp
  from update_cooldown_step [OF g1 dt lt]
  have l: "lives g1 = lives g" and c: "hitCooldown (player g) - dt \<le> hitCooldown (player g1)"
    by simp_all
  from Cons.prems(3) f c have "sum_list (map fst fs) < hitCooldown (player g1)" by simp
  from Cons.IH [OF rest nonneg this] l show ?case by simp
qed

lemma Player_update_hitCooldown_nonneg:
  "0 \<le> hitCooldown p \<Longrightarrow> 0 \<le> hitCooldown (Player_update W H keys dt p)"
  by (simp add: Player_update_hitCooldown)

lemma hitHazards_lives:
  "lives (hitHazards b hs g) = (if list_ex (overlaps (player g)) hs then lives g - 1 else lives g)"
  by (induction b hs g rule: hitHazards.induct) (simp_all add: Let_def case_prod_beta overlaps_def)

lemma hitHazards_player:
  "player (hitHazards b hs g) = (if list_ex (overlaps (player g)) hs then markHit (player g) else player g)"
  by (induction b hs g rule: hitHazards.induct) (simp_all add: Let_def case_prod_beta overlaps_def)

lemma handleCollisions_lives:
  assumes "handleCollisions W H g = Inr g'"
  shows "lives g' =
    (if canTakeHit (player g) \<and> list_ex (overlaps (player g)) (hazards g)
     then lives g - 1 else lives g)"
  using assms
  by (auto simp add: handleCollisions_def Let_def case_prod_beta collectItems_fold
      hitHazards_lives split: if_splits option.splits sum.splits)

lemma handleCollisions_player:
  assumes "handleCollisions W H g = Inr g'"
  shows "player g' =
    (if canTakeHit (player g) \<and> list_ex (overlaps (player g)) (hazards g)
     then markHit (player g) else player g)"
  using assms
  by (auto simp add: handleCollisions_def Let_def case_prod_beta collectItems_fold
      hitHazards_player split: if_splits option.splits sum.splits)

lemma update_hitCooldown_nonneg:
  assumes "update W H dt keys g = Inr g'" and "0 \<le> hitCooldown (player g)"
  shows "0 \<le> hitCooldown (player g')"
proof (cases "state g = Playing")
  case False
  with assms show ?thesis by (auto simp add: update_idle)
next
  case True
  from True assms(1) obtain g1
    where g1: "handleCollisions W H (beforeCollisions W H dt keys g) = Inr g1"
      and g': "g' = afterCollisions dt g1"
    by (auto simp add: update_Playing split: sum.splits)
  from assms(2) have "0 \<le> hitCooldown (Player_update W H keys dt (player g))"
    by (rule Player_update_hitCooldown_nonneg)
  with handleCollisions_player [OF g1] g' show ?thesis
    by (simp add: markHit_def INVULN_TIME_def)
qed

text \<open>
  Claim C2. \<^verbatim>\<open>canTakeHit\<close> is true exactly when \<open>hitCooldown\<close> is 0 (the cooldown is
  never negative: it starts at 0, \<^verbatim>\<open>markHit\<close> sets it to 1, and a frame update keeps
  it at or above 0). \<^verbatim>\<open>handleCollisions\<close> takes one life exactly when the player can
  take a hit and some hazard overlaps; so whenever the cooldown is positive at the
  hazard check it leaves the lives alone, and so does the whole frame update. Over any
  sequence of frames whose \<open>dt\<close>s are not negative and add up to less than the
  cooldown, the lives do not change. With a valid difficulty index the frames do run.
\<close>

theorem invulnerability_gates_damage:
  "(0 \<le> hitCooldown p \<longrightarrow> (canTakeHit p \<longleftrightarrow> hitCooldown p = 0)) \<and>
   hitCooldown (markHit p) = 1 \<and>
   (\<forall>g'. handleCollisions W H g = Inr g' \<longrightarrow>
      lives g' =
        (if canTakeHit (player g) \<and> list_ex (overlaps (player g)) (hazards g)
         then lives g - 1 else lives g)) \<and>
   (\<forall>g'. 0 < hitCooldown (player g) \<longrightarrow> handleCollisions W H g = Inr g' \<longrightarrow>
      lives g' = lives g) \<and>
   (\<forall>g'. state g = Playing \<longrightarrow> 0 < hitCooldown (Player_update W H keys dt (player g)) \<longrightarrow>
      update W H dt keys g = Inr g' \<longrightarrow> lives g' = lives g) \<and>
   (\<forall>g'. (\<forall>f \<in> set fs. 0 \<le> fst f) \<longrightarrow> sum_list (map fst fs) < hitCooldown (player g) \<longrightarrow>
      frames_run W H fs g = Inr g' \<longrightarrow> lives g' = lives g) \<and>
   (\<forall>g'. 0 \<le> hitCooldown (player g) \<longrightarrow> update W H dt keys g = Inr g' \<longrightarrow>
      0 \<le> hitCooldown (player g')) \<and>
   (validIndex g \<longrightarrow> (\<exists>g'. frames_run W H fs g = Inr g'))"
proof -
  have a: "0 \<le> hitCooldown p \<longrightarrow> (canTakeHit p \<longleftrightarrow> hitCooldown p = 0)"
    by (auto simp add: canTakeHit_def)
  have b: "hitCooldown (markHit p) = 1"
    by (simp add: markHit_def INVULN_TIME_def)
  have c: "\<forall>g'. handleCollisions W H g = Inr g' \<longrightarrow>
      lives g' =
        (if canTakeHit (player g) \<and> list_ex (overlaps (player g)) (hazards g)
         then lives g - 1 else lives g)"
    using handleCollisions_lives [of W H g] by blast
  have d: "\<forall>g'. 0 < hitCooldown (player g) \<longrightarrow> handleCollisions W H g = Inr g' \<longrightarrow>
      lives g' = lives g"
    using handleCollisions_invulnerable(1) [of W H g] by blast
  have e: "\<forall>g'. state g = Playing \<longrightarrow> 0 < hitCooldown (Player_update W H keys dt (player g)) \<longrightarrow>
      update W H dt keys g = Inr g' \<longrightarrow> lives g' = lives g"
    using update_Playing_invulnerable(1) [of g W H dt keys] by blast
  have f: "\<forall>g'. (\<forall>f \<in> set fs. 0 \<le> fst f) \<longrightarrow> sum_list (map fst fs) < hitCooldown (player g) \<longrightarrow>
      frames_run W H fs g = Inr g' \<longrightarrow> lives g' = lives g"
    using frames_run_invulnerable [of W H fs g] by blast
  have h: "\<forall>g'. 0 \<le> hitCooldown (player g) \<longrightarrow> update W H dt keys g = Inr g' \<longrightarrow>
      0 \<le> hitCooldown (player g')"
    using update_hitCooldown_nonneg [of W H dt keys g] by blast
  have i: "validIndex g \<longrightarrow> (\<exists>g'. frames_run W H fs g = Inr g')"
    using frames_run_returns [of g W H fs] by blast
  from a b c d e f h i show ?thesis by (intro conjI)
qed

theorem invulnerability_gates_damage_witness:
  "hitCooldown (player example_hit_game) = 1 \<and>
   \<not> canTakeHit (player example_hit_game) \<and>
   list_ex (overlaps (player example_hit_game)) (hazards example_hit_game) \<and>
   sum_list (map fst example_frames) = 15 / 100 \<and>
   validIndex example_hit_game \<and>
   (\<exists>g'. frames_run 960 540 example_frames example_hit_game = Inr g' \<and>
      lives g' = lives example_hit_game)"
proof -
  note main = invulnerability_gates_damage
    [of "player example_hit_game" 960 540 example_hit_game "{}" 0 example_frames]
  have c: "hitCooldown (player example_hit_game) = 1"
    by (simp add: example_hit_game_def markHit_def INVULN_TIME_def)
  have v: "validIndex example_hit_game"
    by (simp add: example_hit_game_def example_game_def validIndex_def)
  have s: "sum_list (map fst example_frames) = 15 / 100"
    by (simp add: example_frames_def)
  have n: "\<forall>f \<in> set example_frames. 0 \<le> fst f"
    by (simp add: example_frames_def)
  have o: "list_ex (overlaps (player example_hit_game)) (hazards example_hit_game)"
    by (simp add: example_hit_game_def example_game_def overlaps_def markHit_def new_Player_def
        distanceTo_def hypot_le_iff)
  from main [THEN conjunct2, THEN conjunct2, THEN conjunct2, THEN conjunct2, THEN conjunct2,
      THEN conjunct2, THEN conjunct2, rule_format, OF v]
  obtain g' where g': "frames_run 960 540 example_frames example_hit_game = Inr g'"
    by blast
  from s c have lt: "sum_list (map fst example_frames) < hitCooldown (player example_hit_game)"
    by simp
  from main [THEN conjunct2, THEN conjunct2, THEN conjunct2, THEN conjunct2, THEN conjunct2,
      THEN conjunct1, rule_format, OF _ lt g'] n
  have l: "lives g' = lives example_hit_game" by blast
  from main [THEN conjunct1] c have k: "\<not> canTakeHit (player example_hit_game)" by simp
  from g' l have "\<exists>g'. frames_run 960 540 example_frames example_hit_game = Inr g' \<and>
      lives g' = lives example_hit_game"
    by blast
  with c k o s v show ?thesis by (intro conjI)
qed

lemma afterCollisions_state:
  "state (afterCollisions dt g) =
    (if max 0 (timeLeft g - dt) \<le> 0 \<or> lives g \<le> 0 then GameOver else state g)"
  by (simp add: afterCollisions_def Let_def)

lemma afterCollisions_highScore:
  "highScore (afterCollisions dt g) =
    (if (max 0 (timeLeft g - dt) \<le> 0 \<or> lives g \<le> 0) \<and> score g > highScore g
     then score g else highScore g)"
  "storage (afterCollisions dt g) =
    (if (max 0 (timeLeft g - dt) \<le> 0 \<or> lives g \<le> 0) \<and> score g > highScore g
     then saveHighScore (score g) (storage g) else storage g)"
  by (simp_all add: afterCollisions_def Let_def enterGameOver_highScore)

lemma update_Playing_result:
  assumes "state g = Playing" and "update W H dt keys g = Inr g'"
  shows "timeLeft g' = max 0 (timeLeft g - dt)"
    and "state g' = (if timeLeft g' \<le> 0 \<or> lives g' \<le> 0 then GameOver else Playing)"
    and "highScore g' =
          (if state g' = GameOver \<and> score g' > highScore g then score g' else highScore g)"
    and "storage g' =
          (if state g' = GameOver \<and> score g' > highScore g
           then saveHighScore (score g') (storage g) else storage g)"
    and "score g' = score (afterItems (beforeCollisions W H dt keys g))"
proof -
  from assms obtain g1
    where g1: "handleCollisions W H (beforeCollisions W H dt keys g) = Inr g1"
      and g': "g' = afterCollisions dt g1"
    by (auto simp add: update_Playing split: sum.splits)
  note k = handleCollisions_keeps [OF g1] handleCollisions_score [OF g1]
  show "timeLeft g' = max 0 (timeLeft g - dt)"
    using g' k by simp
  show "state g' = (if timeLeft g' \<le> 0 \<or> lives g' \<le> 0 then GameOver else Playing)"
    using g' k assms(1) by (simp add: afterCollisions_state)
  show "highScore g' =
          (if state g' = GameOver \<and> score g' > highScore g then score g' else highScore g)"
    using g' k assms(1) by (simp add: afterCollisions_state afterCollisions_highScore)
  show "storage g' =
          (if state g' = GameOver \<and> score g' > highScore g
           then saveHighScore (score g') (storage g) else storage g)"
    using g' k assms(1) by (simp add: afterCollisions_state afterCollisions_highScore)
  show "score g' = score (afterItems (beforeCollisions W H dt keys g))"
    using g' k by simp
qed

lemma frames_run_GameOver:
  assumes "state g = GameOver" and "frames_run W H fs g = Inr g'"
  shows "state g' = GameOver \<and> highScore g' = highScore g \<and> storage g' = storage g \<and>
         score g' = score g \<and> newHighScore g' = newHighScore g"
  using assms
proof (induction fs arbitrary: g)
  case Nil
  then show ?case by simp
next
  case (Cons f fs)
  obtain dt keys where f: "f = (dt, keys)" by (cases f)
  from Cons.prems f have rest: "frames_run W H fs (idleFrame dt g) = Inr g'"
    by (simp add: update_idle)
  from Cons.IH [OF _ rest] Cons.prems(1) show ?case by simp
qed

lemma gameOverTransitions_GameOver:
  "state g = GameOver \<Longrightarrow> gameOverTransitions W H fs g = 0"
proof (induction fs arbitrary: g)
  case Nil
  then show ?case by simp
next
  case (Cons f fs)
  obtain dt keys where f: "f = (dt, keys)" by (cases f)
  from Cons.IH [of "idleFrame dt g"] Cons.prems f show ?case
    by (simp add: update_idle)
qed

lemma gameOverTransitions_le_1: "gameOverTransitions W H fs g \<le> 1"
proof (induction fs arbitrary: g)
  case Nil
  then show ?case by simp
next
  case (Cons f fs)
  obtain dt keys where f: "f = (dt, keys)" by (cases f)
  show ?case
  proof (cases "update W H dt keys g")
    case (Inl e)
    with f show ?thesis by simp
  next
    case (Inr g1)
    show ?thesis
    proof (cases "state g1 = GameOver")
      case True
      with Inr f gameOverTransitions_GameOver [of g1 W H fs] show ?thesis by simp
    next
      case False
      with Inr f Cons.IH [of g1] show ?thesis by simp
    qed
  qed
qed

lemma update_state_idle:
  assumes "state g \<noteq> Playing" and "update W H dt keys g = Inr g'"
  shows "state g' = state g"
  using assms by (auto simp add: update_idle)

lemma gameOverTransitions_reached:
  assumes "frames_run W H fs g = Inr g'" and "state g \<noteq> GameOver" and "state g' = GameOver"
  shows "gameOverTransitions W H fs g = 1"
  using assms
proof (induction fs arbitrary: g)
  case Nil
  then show ?case by simp
next
  case (Cons f fs)
  obtain dt keys where f: "f = (dt, keys)" by (cases f)
  from Cons.prems(1) f obtain g1
    where g1: "update W H dt keys g = Inr g1" and rest: "frames_run W H fs g1 = Inr g'"
    by (auto split: sum.splits)
  show ?case
  proof (cases "state g1 = GameOver")
    case True
    with g1 f Cons.prems(2) gameOverTransitions_GameOver [of g1 W H fs] show ?thesis by simp
  next
    case False
    from Cons.IH [OF rest False Cons.prems(3)] g1 f False show ?thesis by simp
  qed
qed

lemma digit_chars:
  assumes "n < 10"
  shows "digitValue (''0123456789'' ! n) = Some n"
proof -
  have "\<forall>i < 10. digitValue (''0123456789'' ! i) = Some i"
    by (simp add: digitValue_def eval_nat_numeral All_less_Suc)
  with assms show ?thesis by blast
qed


lemma isDigit_plain:
  assumes "isDigit c"
  shows "\<not> isSpace c" and "c \<noteq> CHR ''-''" and "c \<noteq> CHR ''+''"
  using assms by (auto simp add: isDigit_def digitValue_def isSpace_def split: if_splits)

lemma parseInt10_digits:
  assumes "s \<noteq> []" and "list_all isDigit s"
  shows "parseInt10 s = Some (int (digitsValue s))"
    and "parseInt10 (CHR ''-'' # s) = Some (- int (digitsValue s))"
proof -
  from assms obtain c cs where s: "s = c # cs" and c: "isDigit c"
    by (cases s) auto
  from assms(2) have t: "takeWhile isDigit s = s"
    by (simp add: list_all_iff)
  from isDigit_plain [OF c] s have d: "dropWhile isSpace s = s" by simp
  have sign: "(case s of [] \<Rightarrow> (1::int, s)
      | c # r \<Rightarrow> if c = CHR ''-'' then (- 1, r) else if c = CHR ''+'' then (1, r) else (1, s)) = (1, s)"
    using isDigit_plain [OF c] s by simp
  show "parseInt10 s = Some (int (digitsValue s))"
    by (simp add: parseInt10_def Let_def d sign t assms(1))
  have m: "\<not> isSpace CHR ''-''" by (simp add: isSpace_def)
  show "parseInt10 (CHR ''-'' # s) = Some (- int (digitsValue s))"
    by (simp add: parseInt10_def Let_def m t assms(1))
qed

lemma decimal_digits:
  "decimal n \<noteq> [] \<and> list_all isDigit (decimal n) \<and>
   foldl digitStep a (decimal n) = a * 10 ^ length (decimal n) + n"
proof (induction n arbitrary: a rule: decimal.induct)
  case (1 n)
  show ?case
  proof (cases "n < 10")
    case True
    then have d: "decimal n = [''0123456789'' ! n]"
      by (subst decimal.simps) simp
    from digit_chars [OF True] show ?thesis
      by (simp add: d isDigit_def digitStep_def)
  next
    case False
    let ?c = "''0123456789'' ! (n mod 10)"
    have m: "n mod 10 < 10" by simp
    from False have d: "decimal n = decimal (n div 10) @ [?c]"
      by (subst decimal.simps) simp
    note ih = 1 [OF False]
    have "foldl digitStep a (decimal n) = digitStep (foldl digitStep a (decimal (n div 10))) ?c"
      by (simp add: d)
    also have "\<dots> = digitStep (a * 10 ^ length (decimal (n div 10)) + n div 10) ?c"
      using ih [of a] by simp
    also have "\<dots> = (a * 10 ^ length (decimal (n div 10)) + n div 10) * 10 + n mod 10"
      by (simp add: digitStep_def digit_chars [OF m])
    also have "\<dots> = a * 10 ^ length (decimal n) + n"
      by (simp add: d algebra_simps)
    finally have "foldl digitStep a (decimal n) = a * 10 ^ length (decimal n) + n" .
    moreover have "isDigit ?c"
      using digit_chars [OF m] by (simp add: isDigit_def)
    with ih [of a] have "list_all isDigit (decimal n)"
      by (simp add: d)
    ultimately show ?thesis by (simp add: d)
  qed
qed

lemma parseInt10_String_of: "parseInt10 (String_of i) = Some i"
proof (cases "i < 0")
  case False
  from decimal_digits [of "nat i" 0]
  have "decimal (nat i) \<noteq> []" and "list_all isDigit (decimal (nat i))"
    and "digitsValue (decimal (nat i)) = nat i"
    by (simp_all add: digitsValue_def)
  with parseInt10_digits(1) [of "decimal (nat i)"] False show ?thesis
    by (simp add: String_of_def)
next
  case True
  from decimal_digits [of "nat (- i)" 0]
  have "decimal (nat (- i)) \<noteq> []" and "list_all isDigit (decimal (nat (- i)))"
    and "digitsValue (decimal (nat (- i))) = nat (- i)"
    by (simp_all add: digitsValue_def)
  with parseInt10_digits(2) [of "decimal (nat (- i))"] True show ?thesis
    by (simp add: String_of_def)
qed

lemma String_of_nonempty: "String_of i \<noteq> []"
  using decimal_digits [of "nat i" 0] decimal_digits [of "nat (- i)" 0]
  by (simp add: String_of_def)

lemma loadHighScore_saveHighScore:
  "\<not> throws st \<Longrightarrow> loadHighScore (saveHighScore sc st) = sc"
  by (simp add: loadHighScore_def saveHighScore_def Let_def String_of_nonempty parseInt10_String_of)

lemma saveHighScore_entry:
  "\<not> throws st \<Longrightarrow> entries (saveHighScore sc st) HIGHSCORE_KEY = Some (String_of sc)"
  by (simp add: saveHighScore_def)

text \<open>
  Claim C3. An update in state \<open>Playing\<close> lowers \<open>timeLeft\<close> (not below 0) and ends
  in \<open>GameOver\<close> exactly when \<open>timeLeft\<close> or \<open>lives\<close> has then reached 0 (it stays
  \<open>Playing\<close> otherwise). On that transition the high score becomes the score when the
  score is strictly greater, and is then handed to the store (which keeps it under the
  high score key, from where \<^verbatim>\<open>loadHighScore\<close> reads it back, unless access to the
  store throws); otherwise neither changes.
  Updates in \<open>GameOver\<close> keep the state, the high score and the store, so over any
  sequence of frames the game enters \<open>GameOver\<close> at most once, and exactly once when
  it ends there.
\<close>

theorem game_over_once:
  "(\<forall>g'. state g = Playing \<longrightarrow> update W H dt keys g = Inr g' \<longrightarrow>
      timeLeft g' = max 0 (timeLeft g - dt) \<and>
      (state g' = GameOver \<longleftrightarrow> timeLeft g' \<le> 0 \<or> lives g' \<le> 0) \<and>
      (state g' \<noteq> GameOver \<longrightarrow> state g' = Playing) \<and>
      highScore g' =
        (if state g' = GameOver \<and> score g' > highScore g then score g' else highScore g) \<and>
      storage g' =
        (if state g' = GameOver \<and> score g' > highScore g
         then saveHighScore (score g') (storage g) else storage g)) \<and>
   (\<not> throws st \<longrightarrow>
      entries (saveHighScore sc st) HIGHSCORE_KEY = Some (String_of sc) \<and>
      loadHighScore (saveHighScore sc st) = sc) \<and>
   (\<forall>g'. state g = GameOver \<longrightarrow> frames_run W H fs g = Inr g' \<longrightarrow>
      state g' = GameOver \<and> highScore g' = highScore g \<and> storage g' = storage g) \<and>
   gameOverTransitions W H fs g \<le> 1 \<and>
   (\<forall>g'. frames_run W H fs g = Inr g' \<longrightarrow> state g \<noteq> GameOver \<longrightarrow> state g' = GameOver \<longrightarrow>
      gameOverTransitions W H fs g = 1)"
proof -
  have a: "\<forall>g'. state g = Playing \<longrightarrow> update W H dt keys g = Inr g' \<longrightarrow>
      timeLeft g' = max 0 (timeLeft g - dt) \<and>
      (state g' = GameOver \<longleftrightarrow> timeLeft g' \<le> 0 \<or> lives g' \<le> 0) \<and>
      (state g' \<noteq> GameOver \<longrightarrow> state g' = Playing) \<and>
      highScore g' =
        (if state g' = GameOver \<and> score g' > highScore g then score g' else highScore g) \<and>
      storage g' =
        (if state g' = GameOver \<and> score g' > highScore g
         then saveHighScore (score g') (storage g) else storage g)"
  proof (intro allI impI)
    fix g'
    assume p: "state g = Playing" and u: "update W H dt keys g = Inr g'"
    note r = update_Playing_result [OF p u]
    from r(2) have "state g' = GameOver \<longleftrightarrow> timeLeft g' \<le> 0 \<or> lives g' \<le> 0"
      by (simp split: if_splits)
    moreover from r(2) have "state g' \<noteq> GameOver \<longrightarrow> state g' = Playing"
      by (simp split: if_splits)
    ultimately show "timeLeft g' = max 0 (timeLeft g - dt) \<and>
      (state g' = GameOver \<longleftrightarrow> timeLeft g' \<le> 0 \<or> lives g' \<le> 0) \<and>
      (state g' \<noteq> GameOver \<longrightarrow> state g' = Playing) \<and>
      highScore g' =
        (if state g' = GameOver \<and> score g' > highScore g then score g' else highScore g) \<and>
      storage g' =
        (if state g' = GameOver \<and> score g' > highScore g
         then saveHighScore (score g') (storage g) else storage g)"
      using r(1) r(3) r(4) by (intro conjI)
  qed
  have b: "\<not> throws st \<longrightarrow>
      entries (saveHighScore sc st) HIGHSCORE_KEY = Some (String_of sc) \<and>
      loadHighScore (saveHighScore sc st) = sc"
    by (simp add: saveHighScore_entry loadHighScore_saveHighScore)
  have c: "\<forall>g'. state g = GameOver \<longrightarrow> frames_run W H fs g = Inr g' \<longrightarrow>
      state g' = GameOver \<and> highScore g' = highScore g \<and> storage g' = storage g"
    using frames_run_GameOver [of g W H fs] by blast
  have d: "gameOverTransitions W H fs g \<le> 1"
    by (rule gameOverTransitions_le_1)
  have e: "\<forall>g'. frames_run W H fs g = Inr g' \<longrightarrow> state g \<noteq> GameOver \<longrightarrow> state g' = GameOver \<longrightarrow>
      gameOverTransitions W H fs g = 1"
    using gameOverTransitions_reached [of W H fs g] by blast
  from a b c d e show ?thesis by (intro conjI)
qed

lemma String_of_50: "String_of 50 = ''50''"
  by (simp add: String_of_def decimal.simps)

lemma ending_score:
  "score (afterItems (beforeCollisions 960 540 (5 / 100) {} example_ending_game)) = 50"
  by (simp add: afterItems_def touches_def Player_update_pos Player_update_radius
      moveDirection_def inputDirection_def len2_def clamp_def distanceTo_def hypot_le_iff
      example_ending_game_def example_game_def example_items_def new_Player_def)

theorem game_over_once_witness:
  "state example_ending_game = Playing \<and>
   (\<exists>g'. update 960 540 (5 / 100) {} example_ending_game = Inr g' \<and>
      state g' = GameOver \<and> timeLeft g' = 0 \<and> score g' = 50 \<and> highScore g' = 50 \<and>
      entries (storage g') HIGHSCORE_KEY = Some ''50'' \<and> loadHighScore (storage g') = 50 \<and>
      (\<exists>g''. frames_run 960 540 example_frames g' = Inr g'' \<and>
         state g'' = GameOver \<and> highScore g'' = 50)) \<and>
   gameOverTransitions 960 540 ((5 / 100, {}) # example_frames) example_ending_game = 1"
proof -
  let ?g = example_ending_game
  let ?fs = "(5 / 100, {}) # example_frames"
  have p: "state ?g = Playing" and v: "validIndex ?g"
    and t: "timeLeft ?g = 3 / 100" and h: "highScore ?g = 20"
    and st: "\<not> throws (storage ?g)"
    by (simp_all add: example_ending_game_def example_game_def validIndex_def)
  from update_returns [OF v] obtain g'
    where u: "update 960 540 (5 / 100) {} ?g = Inr g'" and v': "validIndex g'"
    by blast
  from frames_run_returns [OF v'] obtain g''
    where f: "frames_run 960 540 example_frames g' = Inr g''"
    by blast
  have sc: "score g' = 50"
    using update_Playing_result(5) [OF p u] ending_score by simp
  note first = game_over_once [of ?g 960 540 "5 / 100" "{}" "storage ?g" 50 ?fs]
  note later = game_over_once [of g' 960 540 "5 / 100" "{}" "storage ?g" 50 example_frames]
  note step = first [THEN conjunct1, rule_format, OF p u]
  note saved = first [THEN conjunct2, THEN conjunct1, rule_format, OF st]
  note once = first [THEN conjunct2, THEN conjunct2, THEN conjunct2, THEN conjunct2, rule_format]
  note stays = later [THEN conjunct2, THEN conjunct2, THEN conjunct1, rule_format]
  from step t have tl: "timeLeft g' = 0" by simp
  with step have go: "state g' = GameOver" by simp
  from step sc h go have hs: "highScore g' = 50" by simp
  from step sc h go have "storage g' = saveHighScore 50 (storage ?g)" by simp
  with saved have en: "entries (storage g') HIGHSCORE_KEY = Some ''50''"
    and ld: "loadHighScore (storage g') = 50"
    by (simp_all add: String_of_50)
  from stays [OF go f] hs have l: "state g'' = GameOver \<and> highScore g'' = 50" by simp
  from u f have "frames_run 960 540 ?fs ?g = Inr g''" by simp
  from once [OF this] p l have n: "gameOverTransitions 960 540 ?fs ?g = 1" by simp
  from go tl sc hs en ld f l have "update 960 540 (5 / 100) {} ?g = Inr g' \<and>
      state g' = GameOver \<and> timeLeft g' = 0 \<and> score g' = 50 \<and> highScore g' = 50 \<and>
      entries (storage g') HIGHSCORE_KEY = Some ''50'' \<and> loadHighScore (storage g') = 50 \<and>
      (\<exists>g''. frames_run 960 540 example_frames g' = Inr g'' \<and>
         state g'' = GameOver \<and> highScore g'' = 50)"
    using u by blast
  then have "\<exists>g'. update 960 540 (5 / 100) {} ?g = Inr g' \<and>
      state g' = GameOver \<and> timeLeft g' = 0 \<and> score g' = 50 \<and> highScore g' = 50 \<and>
      entries (storage g') HIGHSCORE_KEY = Some ''50'' \<and> loadHighScore (storage g') = 50 \<and>
      (\<exists>g''. frames_run 960 540 example_frames g' = Inr g'' \<and>
         state g'' = GameOver \<and> highScore g'' = 50)" ..
  with p n show ?thesis by (intro conjI)
qed

lemma update_Playing_combo:
  assumes "state g = Playing" and "update W H dt keys g = Inr g'"
  shows "combo g' = combo (afterItems (beforeCollisions W H dt keys g))"
proof -
  from assms obtain g1
    where g1: "handleCollisions W H (beforeCollisions W H dt keys g) = Inr g1"
      and g': "g' = afterCollisions dt g1"
    by (auto simp add: update_Playing split: sum.splits)
  from handleCollisions_score(2) [OF g1] g' show ?thesis by simp
qed

lemma tickCombo_comboTimer:
  "comboTimer (tickCombo dt g) = (if comboTimer g > 0 then max 0 (comboTimer g - dt) else comboTimer g)"
  by (simp add: tickCombo_def Let_def)

lemma tickCombo_combo:
  "combo (tickCombo dt g) = (if comboTimer g > 0 \<and> comboTimer g \<le> dt then 0 else combo g)"
  by (auto simp add: tickCombo_def Let_def max_def)

text \<open>
  Claim C8, amended. In a frame in state \<open>Playing\<close> the combo window timer is
  lowered by \<open>dt\<close>, and the combo reset to 0 when the timer reaches zero, before the
  player moves and before the items are processed. So when items are collected in the
  frame, the combo grows by their number only if the timer was still positive after
  \<open>dt\<close> had been subtracted (\<open>comboTimer > dt\<close> at the start of the frame); otherwise
  the first of them starts a new combo at 1.
\<close>

theorem combo_timer_order:
  assumes "state g = Playing" and "update W H dt keys g = Inr g'"
  shows "comboTimer (beforeCollisions W H dt keys g) =
           (if comboTimer g > 0 then max 0 (comboTimer g - dt) else comboTimer g) \<and>
         combo (beforeCollisions W H dt keys g) =
           (if comboTimer g > 0 \<and> comboTimer g \<le> dt then 0 else combo g) \<and>
         combo g' =
           (if reached W H dt keys g = [] then combo (beforeCollisions W H dt keys g)
            else if comboTimer g > 0 \<and> comboTimer g > dt
                 then combo g + int (length (reached W H dt keys g))
                 else int (length (reached W H dt keys g)))"
proof -
  let ?b = "beforeCollisions W H dt keys g"
  have r: "filter (touches (player ?b)) (items ?b) = reached W H dt keys g"
    by (simp add: reached_def)
  have "combo g' = combo (fold collect (reached W H dt keys g) ?b)"
    using update_Playing_combo [OF assms] r by (simp add: afterItems_def)
  then have "combo g' =
           (if reached W H dt keys g = [] then combo ?b
            else if comboTimer g > 0 \<and> comboTimer g > dt
                 then combo g + int (length (reached W H dt keys g))
                 else int (length (reached W H dt keys g)))"
    by (auto simp add: fold_collect_combo tickCombo_comboTimer tickCombo_combo max_def)
  then show ?thesis
    by (simp add: tickCombo_comboTimer tickCombo_combo)
qed

lemma reached_example:
  "reached 960 540 (5 / 100) {} example_combo_game = [example_items ! 0]"
  by (simp add: reached_def touches_def Player_update_pos Player_update_radius
      moveDirection_def inputDirection_def len2_def clamp_def distanceTo_def hypot_le_iff
      example_combo_game_def example_game_def example_items_def new_Player_def)

text \<open>
  Claim C8, as stated, fails: the timer is not lowered after the items are processed.
  With a combo of 3 whose window has 10 ms left at the start of a 50 ms frame, the item
  collected in that frame starts a new combo at 1 and scores 10; it does not raise the
  combo to 4.
\<close>

theorem combo_timer_order_counterexample:
  "state example_combo_game = Playing \<and>
   comboTimer example_combo_game > 0 \<and>
   combo example_combo_game = 3 \<and>
   reached 960 540 (5 / 100) {} example_combo_game = [example_items ! 0] \<and>
   (\<exists>g'. update 960 540 (5 / 100) {} example_combo_game = Inr g' \<and>
      combo g' = 1 \<and> score g' = score example_combo_game + 10)"
proof -
  let ?g = example_combo_game
  have p: "state ?g = Playing" and v: "validIndex ?g"
    and t: "comboTimer ?g = 1 / 100" and c: "combo ?g = 3"
    by (simp_all add: example_combo_game_def example_game_def validIndex_def)
  from update_returns [OF v] obtain g'
    where u: "update 960 540 (5 / 100) {} ?g = Inr g'"
    by blast
  let ?b = "beforeCollisions 960 540 (5 / 100) {} ?g"
  have a: "afterItems ?b = collect (example_items ! 0) ?b"
    using reached_example by (simp add: afterItems_def reached_def)
  have tb: "comboTimer ?b = 0"
    using t by (simp add: tickCombo_comboTimer)
  have "combo g' = 1"
    using update_Playing_combo [OF p u] a tb by (simp add: collect_combo)
  moreover have "score g' = score ?g + 10"
    using update_Playing_result(5) [OF p u] a tb
    by (simp add: collect_score collect_combo COMBO_BONUS_CAP_def COMBO_BONUS_STEP_def)
  ultimately have "\<exists>g'. update 960 540 (5 / 100) {} ?g = Inr g' \<and>
      combo g' = 1 \<and> score g' = score ?g + 10"
    using u by blast
  with p t c reached_example show ?thesis by simp
qed

theorem combo_timer_order_witness:
  "state example_combo_game = Playing \<and>
   (\<exists>g'. update 960 540 (5 / 100) {} example_combo_game = Inr g' \<and> combo g' = 1) \<and>
   (\<exists>g'. update 960 540 (5 / 1000) {} example_combo_game = Inr g' \<and> combo g' = 4)"
proof -
  let ?g = example_combo_game
  have p: "state ?g = Playing" and v: "validIndex ?g"
    and t: "comboTimer ?g = 1 / 100" and c: "combo ?g = 3"
    by (simp_all add: example_combo_game_def example_game_def validIndex_def)
  have r: "reached 960 540 (5 / 1000) {} example_combo_game = [example_items ! 0]"
    by (simp add: reached_def touches_def Player_update_pos Player_update_radius
      moveDirection_def inputDirection_def len2_def clamp_def distanceTo_def hypot_le_iff
      example_combo_game_def example_game_def example_items_def new_Player_def)
  from update_returns [OF v] obtain g1
    where u1: "update 960 540 (5 / 100) {} ?g = Inr g1"
    by blast
  from update_returns [OF v] obtain g2
    where u2: "update 960 540 (5 / 1000) {} ?g = Inr g2"
    by blast
  from combo_timer_order [OF p u1] t c reached_example have "combo g1 = 1" by simp
  moreover from combo_timer_order [OF p u2] t c r have "combo g2 = 4" by simp
  ultimately show ?thesis using p u1 u2 by blast
qed

subsection \<open>Spawner\<close>

lemma randomVelocity_unfold:
  "randomVelocity sr r =
    (if acceptable r
     then Some (\<lparr>X = (fst (rand (- 1) 1 r) /
                      sqrt (fst (rand (- 1) 1 r) * fst (rand (- 1) 1 r) +
                            fst (rand (- 1) 1 (stl r)) * fst (rand (- 1) 1 (stl r)))) *
                     fst (rand (fst sr) (snd sr) (stl (stl r))),
                 Y = (fst (rand (- 1) 1 (stl r)) /
                      sqrt (fst (rand (- 1) 1 r) * fst (rand (- 1) 1 r) +
                            fst (rand (- 1) 1 (stl r)) * fst (rand (- 1) 1 (stl r)))) *
                     fst (rand (fst sr) (snd sr) (stl (stl r)))\<rparr>,
                stl (stl (stl r)))
     else randomVelocity sr (stl (stl r)))"
  by (subst randomVelocity.simps) (simp add: acceptable_def rand_def Let_def)

lemma randomVelocity_returns:
  "acceptable (sdrop (2 * k) r) \<Longrightarrow> \<exists>v j. randomVelocity sr r = Some (v, sdrop j r)"
proof (induction k arbitrary: r)
  case 0
  then have "acceptable r" by simp
  then have "\<exists>v. randomVelocity sr r = Some (v, sdrop (Suc (Suc (Suc 0))) r)"
    by (subst randomVelocity_unfold) simp
  then show ?case by blast
next
  case (Suc k)
  show ?case
  proof (cases "acceptable r")
    case True
    then have "\<exists>v. randomVelocity sr r = Some (v, sdrop (Suc (Suc (Suc 0))) r)"
      by (subst randomVelocity_unfold) simp
    then show ?thesis by blast
  next
    case False
    from Suc.prems have "acceptable (sdrop (2 * k) (stl (stl r)))" by simp
    from Suc.IH [OF this] obtain v j
      where "randomVelocity sr (stl (stl r)) = Some (v, sdrop j (stl (stl r)))"
      by blast
    with False have "randomVelocity sr r = Some (v, sdrop (Suc (Suc j)) r)"
      by (subst randomVelocity_unfold) simp
    then show ?thesis by blast
  qed
qed

lemma fair_sdrop: "fair r \<Longrightarrow> fair (sdrop m r)"
  unfolding fair_def
proof
  fix n
  assume "\<forall>n. \<exists>k. acceptable (sdrop (n + 2 * k) r)"
  then obtain k where "acceptable (sdrop ((m + n) + 2 * k) r)" by blast
  then have "acceptable (sdrop (n + 2 * k) (sdrop m r))"
    by (simp add: sdrop_add add.assoc)
  then show "\<exists>k. acceptable (sdrop (n + 2 * k) (sdrop m r))" ..
qed

lemma fair_stl: "fair r \<Longrightarrow> fair (stl r)"
  using fair_sdrop [of r "Suc 0"] by simp

lemma fair_returns: "fair r \<Longrightarrow> \<exists>v j. randomVelocity sr r = Some (v, sdrop j r)"
proof -
  assume "fair r"
  then obtain k where "acceptable (sdrop (0 + 2 * k) r)"
    unfolding fair_def by blast
  then show ?thesis using randomVelocity_returns [of k r sr] by simp
qed

lemma new_Hazard_returns:
  "fair r \<Longrightarrow> \<exists>hz j. new_Hazard p sr r = Some (hz, sdrop j r)"
  using fair_returns [of r sr] by (auto simp add: new_Hazard_def)

lemma randomVelocity_Some_not_half:
  assumes "randomVelocity sr r = Some y"
  shows "r \<noteq> sconst (1 / 2)"
proof (rule randomVelocity.raw_induct [where P = "\<lambda>a b c. b \<noteq> sconst (1 / 2)", OF _ assms])
  fix rv :: "real \<times> real \<Rightarrow> real stream \<Rightarrow> (Vec2 \<times> real stream) option"
  fix sr' :: "real \<times> real" and r' :: "real stream" and y' :: "Vec2 \<times> real stream"
  assume IH: "\<And>a b c. rv a b = Some c \<Longrightarrow> b \<noteq> sconst (1 / 2)"
  assume step: "(let (vx, r1) = rand (- 1) 1 r'; (vy, r2) = rand (- 1) 1 r1;
          l2 = vx * vx + vy * vy
      in if l2 \<le> 1 / 10 then rv sr' r2
         else let l = sqrt l2;
                  (speed, r3) = rand (fst sr') (snd sr') r2
              in Some (\<lparr>X = vx / l * speed, Y = vy / l * speed\<rparr>, r3)) = Some y'"
  show "r' \<noteq> sconst (1 / 2)"
  proof
    assume "r' = sconst (1 / 2)"
    with step have "rv sr' (sconst (1 / 2)) = Some y'"
      by (simp add: rand_def Let_def)
    from IH [OF this] show False by blast
  qed
qed

lemma randomVelocity_diverges: "randomVelocity sr (sconst (1 / 2)) = None"
proof (cases "randomVelocity sr (sconst (1 / 2))")
  case None
  then show ?thesis .
next
  case (Some y)
  from randomVelocity_Some_not_half [OF this] show ?thesis by blast
qed

lemma spawnItems_attempt_items:
  "items (spawnItems_attempt W H g) = items g \<or>
   (\<exists>it. items (spawnItems_attempt W H g) = items g @ [it] \<and>
      item_ok (pos (player g)) (hazards g) (items g) it)"
  by (simp add: spawnItems_attempt_def Let_def case_prod_beta new_Item_def item_ok_def
      list_ex_iff list_all_iff not_less)

lemma items_ok_snoc:
  "items_ok pp hzs earlier (new @ [it]) \<longleftrightarrow>
    items_ok pp hzs earlier new \<and> item_ok pp hzs (earlier @ new) it"
  by (induction new arbitrary: earlier) simp_all

lemma spawnItems_loop_continue:
  assumes "length (items g) < count \<and> attempts < count * 20"
  shows "spawnItems_loop W H count attempts g =
     spawnItems_loop W H count (attempts + 1) (spawnItems_attempt W H g)"
  by (subst spawnItems_loop.simps) (rule if_P [OF assms])

lemma spawnItems_loop_stop:
  assumes "\<not> (length (items g) < count \<and> attempts < count * 20)"
  shows "spawnItems_loop W H count attempts g = (attempts, g)"
  by (subst spawnItems_loop.simps) (rule if_not_P [OF assms])

lemma spawnItems_loop_attempts:
  "attempts \<le> fst (spawnItems_loop W H count attempts g) \<and>
   fst (spawnItems_loop W H count attempts g) \<le> max attempts (count * 20)"
proof (induction W H count attempts g rule: spawnItems_loop.induct)
  case (1 W H count attempts g)
  show ?case
  proof (cases "length (items g) < count \<and> attempts < count * 20")
    case True
    from 1 [OF True] True show ?thesis
      by (simp add: spawnItems_loop_continue)
  next
    case False
    then show ?thesis by (simp add: spawnItems_loop_stop)
  qed
qed

lemma spawnItems_loop_exit:
  "count \<le> length (items (snd (spawnItems_loop W H count attempts g))) \<or>
   count * 20 \<le> fst (spawnItems_loop W H count attempts g)"
proof (induction W H count attempts g rule: spawnItems_loop.induct)
  case (1 W H count attempts g)
  show ?case
  proof (cases "length (items g) < count \<and> attempts < count * 20")
    case True
    from 1 [OF True] True show ?thesis
      by (simp add: spawnItems_loop_continue)
  next
    case False
    then show ?thesis by (auto simp add: spawnItems_loop_stop)
  qed
qed

lemma spawnItems_loop_items:
  "\<exists>new. items (snd (spawnItems_loop W H count attempts g)) = items g @ new \<and>
     items_ok (pos (player g)) (hazards g) (items g) new \<and>
     length (items g @ new) \<le> max count (length (items g))"
proof (induction W H count attempts g rule: spawnItems_loop.induct)
  case (1 W H count attempts g)
  show ?case
  proof (cases "length (items g) < count \<and> attempts < count * 20")
    case False
    then have "spawnItems_loop W H count attempts g = (attempts, g)"
      by (rule spawnItems_loop_stop)
    then show ?thesis by simp
  next
    case True
    let ?g1 = "spawnItems_attempt W H g"
    have unfold: "spawnItems_loop W H count attempts g = spawnItems_loop W H count (attempts + 1) ?g1"
      using True by (rule spawnItems_loop_continue)
    from 1 [OF True] obtain new
      where new: "items (snd (spawnItems_loop W H count (attempts + 1) ?g1)) = items ?g1 @ new"
        and ok: "items_ok (pos (player g)) (hazards g) (items ?g1) new"
        and n: "length (items ?g1 @ new) \<le> max count (length (items ?g1))"
      by auto
    from spawnItems_attempt_items [of W H g] show ?thesis
    proof
      assume "items ?g1 = items g"
      with new ok n unfold show ?thesis by simp
    next
      assume "\<exists>it. items ?g1 = items g @ [it] \<and> item_ok (pos (player g)) (hazards g) (items g) it"
      then obtain it where it: "items ?g1 = items g @ [it]"
        and iok: "item_ok (pos (player g)) (hazards g) (items g) it"
        by blast
      have "items (snd (spawnItems_loop W H count attempts g)) = items g @ (it # new)"
        using new it unfold by simp
      moreover have "items_ok (pos (player g)) (hazards g) (items g) (it # new)"
        using ok it iok by simp
      moreover have "length (items g @ (it # new)) \<le> max count (length (items g))"
        using n it True by simp
      ultimately show ?thesis by blast
    qed
  qed
qed

lemma spawnHazards_attempt_keeps:
  assumes "spawnHazards_attempt W H sr g = Some g'"
  shows "score g' = score g" and "combo g' = combo g" and "comboTimer g' = comboTimer g"
    and "lives g' = lives g" and "state g' = state g" and "highScore g' = highScore g"
    and "newHighScore g' = newHighScore g" and "storage g' = storage g"
    and "difficultyIndex g' = difficultyIndex g" and "player g' = player g"
    and "items g' = items g" and "timeLeft g' = timeLeft g" and "assets g' = assets g"
    and "shakeTimer g' = shakeTimer g" and "particles g' = particles g"
    and "floaters g' = floaters g"
  using assms
  by (auto simp add: spawnHazards_attempt_def Let_def case_prod_beta
      split: if_splits option.splits)

lemma spawnHazards_attempt_hazards:
  assumes "spawnHazards_attempt W H sr g = Some g'"
  shows "hazards g' = hazards g \<or>
   (\<exists>hz. hazards g' = hazards g @ [hz] \<and> hazard_ok (pos (player g)) (hazards g) hz)"
  using assms
  by (auto simp add: spawnHazards_attempt_def Let_def case_prod_beta hazard_ok_def
      new_Hazard_def list_ex_iff list_all_iff not_less split: if_splits option.splits)

lemma spawnHazards_attempt_returns:
  assumes "fair (rng g)"
  shows "\<exists>g'. spawnHazards_attempt W H sr g = Some g' \<and> fair (rng g')"
proof -
  let ?r2 = "stl (stl (rng g))"
  have f2: "fair ?r2" using assms by (simp add: fair_stl)
  let ?p = "\<lparr>X = fst (rand 60 (W - 60) (rng g)), Y = fst (rand 100 (H - 60) (stl (rng g)))\<rparr>"
  from new_Hazard_returns [OF f2, of ?p sr] obtain hz j
    where hz: "new_Hazard ?p sr ?r2 = Some (hz, sdrop j ?r2)"
    by blast
  have "fair (sdrop j ?r2)" using f2 by (rule fair_sdrop)
  with hz f2 show ?thesis
    by (simp add: spawnHazards_attempt_def Let_def case_prod_beta rand_def)
qed

lemma spawnHazards_loop_continue:
  assumes "length (hazards g) < count \<and> attempts < count * 25"
  shows "spawnHazards_loop W H count sr attempts g =
     (case spawnHazards_attempt W H sr g of
        None \<Rightarrow> None
      | Some g' \<Rightarrow> spawnHazards_loop W H count sr (attempts + 1) g')"
  by (subst spawnHazards_loop.simps) (rule if_P [OF assms])

lemma spawnHazards_loop_stop:
  assumes "\<not> (length (hazards g) < count \<and> attempts < count * 25)"
  shows "spawnHazards_loop W H count sr attempts g = Some (attempts, g)"
  by (subst spawnHazards_loop.simps) (rule if_not_P [OF assms])

lemma spawnHazards_loop_returns:
  "fair (rng g) \<Longrightarrow>
   \<exists>a g'. spawnHazards_loop W H count sr attempts g = Some (a, g') \<and> fair (rng g')"
proof (induction W H count sr attempts g rule: spawnHazards_loop.induct)
  case (1 W H count sr attempts g)
  show ?case
  proof (cases "length (hazards g) < count \<and> attempts < count * 25")
    case False
    with 1(2) show ?thesis by (simp add: spawnHazards_loop_stop)
  next
    case True
    from spawnHazards_attempt_returns [OF 1(2), of W H sr] obtain g1
      where g1: "spawnHazards_attempt W H sr g = Some g1" and f1: "fair (rng g1)"
      by blast
    from 1(1) [OF True g1 f1] g1 True show ?thesis
      by (simp add: spawnHazards_loop_continue)
  qed
qed

lemma spawnHazards_loop_props:
  "spawnHazards_loop W H count sr attempts g = Some (a, g') \<Longrightarrow>
   attempts \<le> a \<and> a \<le> max attempts (count * 25) \<and>
   (count \<le> length (hazards g') \<or> count * 25 \<le> a) \<and>
   (\<exists>new. hazards g' = hazards g @ new \<and> hazards_ok (pos (player g)) (hazards g) new \<and>
      length (hazards g @ new) \<le> max count (length (hazards g)))"
proof (induction W H count sr attempts g rule: spawnHazards_loop.induct)
  case (1 W H count sr attempts g)
  show ?case
  proof (cases "length (hazards g) < count \<and> attempts < count * 25")
    case False
    with 1(2) have "a = attempts" and "g' = g" by (simp_all add: spawnHazards_loop_stop)
    with False show ?thesis by auto
  next
    case True
    with 1(2) obtain g1
      where g1: "spawnHazards_attempt W H sr g = Some g1"
        and rest: "spawnHazards_loop W H count sr (attempts + 1) g1 = Some (a, g')"
      by (auto simp add: spawnHazards_loop_continue split: option.splits)
    note k = spawnHazards_attempt_keeps [OF g1]
    note ih = 1(1) [OF True g1 rest]
    from ih have a: "attempts + 1 \<le> a" "a \<le> max (attempts + 1) (count * 25)"
      and e: "count \<le> length (hazards g') \<or> count * 25 \<le> a"
      by blast+
    from ih obtain new
      where new: "hazards g' = hazards g1 @ new"
        and ok: "hazards_ok (pos (player g1)) (hazards g1) new"
        and n: "length (hazards g1 @ new) \<le> max count (length (hazards g1))"
      by blast
    from a True have a': "attempts \<le> a \<and> a \<le> max attempts (count * 25)" by auto
    from spawnHazards_attempt_hazards [OF g1] show ?thesis
    proof
      assume "hazards g1 = hazards g"
      with new ok n a' e k(10) show ?thesis by simp
    next
      assume "\<exists>hz. hazards g1 = hazards g @ [hz] \<and> hazard_ok (pos (player g)) (hazards g) hz"
      then obtain hz where hz: "hazards g1 = hazards g @ [hz]"
        and hok: "hazard_ok (pos (player g)) (hazards g) hz"
        by blast
      have "hazards g' = hazards g @ (hz # new)"
        using new hz by simp
      moreover have "hazards_ok (pos (player g)) (hazards g) (hz # new)"
        using ok hz hok k(10) by simp
      moreover have "length (hazards g @ (hz # new)) \<le> max count (length (hazards g))"
        using n hz True by simp
      ultimately show ?thesis using a' e by blast
    qed
  qed
qed

lemma spawnHazards_loop_keeps:
  assumes "spawnHazards_loop W H count sr attempts g = Some (a, g')"
  shows "score g' = score g \<and> combo g' = combo g \<and> comboTimer g' = comboTimer g \<and>
    lives g' = lives g \<and> state g' = state g \<and> highScore g' = highScore g \<and>
    newHighScore g' = newHighScore g \<and> storage g' = storage g \<and>
    difficultyIndex g' = difficultyIndex g \<and> player g' = player g \<and>
    items g' = items g \<and> timeLeft g' = timeLeft g \<and> assets g' = assets g \<and>
    shakeTimer g' = shakeTimer g \<and> particles g' = particles g \<and> floaters g' = floaters g"
  using assms
proof (induction W H count sr attempts g rule: spawnHazards_loop.induct)
  case (1 W H count sr attempts g)
  show ?case
  proof (cases "length (hazards g) < count \<and> attempts < count * 25")
    case False
    with 1(2) show ?thesis by (simp add: spawnHazards_loop_stop)
  next
    case True
    with 1(2) obtain g1
      where g1: "spawnHazards_attempt W H sr g = Some g1"
        and rest: "spawnHazards_loop W H count sr (attempts + 1) g1 = Some (a, g')"
      by (auto simp add: spawnHazards_loop_continue split: option.splits)
    from 1(1) [OF True g1 rest] spawnHazards_attempt_keeps [OF g1] show ?thesis by simp
  qed
qed

lemma spawnItems_attempt_half:
  assumes "rng g = sconst (1 / 2)" and "pos (player g) = \<lparr>X = 480, Y = 270\<rparr>"
  shows "spawnItems_attempt 960 540 g = g"
  using assms
  by (simp add: spawnItems_attempt_def Let_def rand_def distanceTo_def hypot_less_iff)

lemma spawnItems_loop_half:
  assumes "rng g = sconst (1 / 2)" and "pos (player g) = \<lparr>X = 480, Y = 270\<rparr>"
  shows "spawnItems_loop 960 540 count attempts g =
    (if length (items g) < count then max attempts (count * 20) else attempts, g)"
proof (induction "count * 20 - attempts" arbitrary: attempts)
  case 0
  then show ?case by (simp add: spawnItems_loop_stop)
next
  case (Suc n)
  show ?case
  proof (cases "length (items g) < count")
    case False
    then show ?thesis by (simp add: spawnItems_loop_stop)
  next
    case True
    from Suc(2) have lt: "attempts < count * 20" and n: "n = count * 20 - (attempts + 1)"
      by simp_all
    from Suc(1) [OF n] True lt show ?thesis
      by (simp add: spawnItems_loop_continue spawnItems_attempt_half [OF assms])
  qed
qed

lemma sdrop_sconst: "sdrop n (sconst x) = sconst x"
  by (induction n) simp_all

lemma fair_sconst_0: "fair (sconst 0)"
  by (simp add: fair_def sdrop_sconst acceptable_def rand_def)

text \<open>
  The loop of \<^verbatim>\<open>spawnHazards\<close> is capped, but each hazard it accepts is constructed
  through \<^verbatim>\<open>Hazard.randomVelocity\<close>, a \<^verbatim>\<open>while (true)\<close> loop without a cap that
  returns as soon as a sample passes its test. The random source of the model ranges
  over all streams of reals, among them streams on which no sample ever passes, such
  as 0, 0, 1/2, 1/2, ...: there the first position (60, 100) is accepted and every
  velocity sample after it is (0, 0). \<^verbatim>\<open>Math.random\<close> yields no such stream; fairness
  of the source is the condition that sets them aside.
\<close>

lemma spawnHazards_unfair_source:
  "spawnHazards_loop 960 540 3 (120, 170) 0 example_stuck_game = None \<and>
   spawnHazards 960 540 3 (120, 170) example_stuck_game = None"
proof -
  have "spawnHazards_attempt 960 540 (120, 170) example_stuck_game = None"
    by (simp add: spawnHazards_attempt_def Let_def rand_def example_stuck_game_def
        example_game_def new_Player_def distanceTo_def hypot_less_iff new_Hazard_def
        randomVelocity_diverges)
  moreover have "length (hazards example_stuck_game) < 3 \<and> (0::nat) < 3 * 25"
    by (simp add: example_stuck_game_def)
  ultimately have "spawnHazards_loop 960 540 3 (120, 170) 0 example_stuck_game = None"
    by (simp add: spawnHazards_loop_continue)
  then show ?thesis by (simp add: spawnHazards_def)
qed

text \<open>
  Claim C9. Item placement always terminates, after at most \<open>20 * count\<close> attempts.
  Hazard placement terminates on every fair random source (one on which each velocity
  draw meets a sample of squared length above 0.1, as every run of \<^verbatim>\<open>Math.random\<close>
  does), and makes at most \<open>25 * count\<close> attempts. Each accepted position satisfies the
  separation constraints at the time it is placed: an item from the player, the items
  already there and the hazards; a hazard from the player and the hazards already
  there. Fewer than \<open>count\<close> entities are placed only when the cap is hit, and that is
  a normal return.
\<close>

theorem spawner_bounded:
  "fst (spawnItems_loop W H count 0 g) \<le> 20 * count \<and>
   (\<exists>new. items (spawnItems W H count g) = items g @ new \<and>
      items_ok (pos (player g)) (hazards g) (items g) new) \<and>
   length (items (spawnItems W H count g)) \<le> max count (length (items g)) \<and>
   (count \<le> length (items (spawnItems W H count g)) \<or>
    fst (spawnItems_loop W H count 0 g) = 20 * count) \<and>
   (\<forall>a g'. spawnHazards_loop W H count sr 0 g = Some (a, g') \<longrightarrow>
      spawnHazards W H count sr g = Some g' \<and>
      a \<le> 25 * count \<and>
      (\<exists>new. hazards g' = hazards g @ new \<and>
         hazards_ok (pos (player g)) (hazards g) new) \<and>
      length (hazards g') \<le> max count (length (hazards g)) \<and>
      (count \<le> length (hazards g') \<or> a = 25 * count)) \<and>
   (fair (rng g) \<longrightarrow> (\<exists>a g'. spawnHazards_loop W H count sr 0 g = Some (a, g')))"
proof -
  note at = spawnItems_loop_attempts [of 0 W H count g]
  have i1: "fst (spawnItems_loop W H count 0 g) \<le> 20 * count"
    using at by (simp add: mult.commute)
  from spawnItems_loop_items [of W H count 0 g] obtain new
    where new: "items (spawnItems W H count g) = items g @ new"
      and ok: "items_ok (pos (player g)) (hazards g) (items g) new"
      and n: "length (items g @ new) \<le> max count (length (items g))"
    unfolding spawnItems_def by blast
  have i2: "\<exists>new. items (spawnItems W H count g) = items g @ new \<and>
      items_ok (pos (player g)) (hazards g) (items g) new"
    using new ok by blast
  have i3: "length (items (spawnItems W H count g)) \<le> max count (length (items g))"
    using new n by simp
  have i4: "count \<le> length (items (spawnItems W H count g)) \<or>
      fst (spawnItems_loop W H count 0 g) = 20 * count"
    using spawnItems_loop_exit [of count W H 0 g] i1 by (auto simp add: spawnItems_def)
  have h1: "\<forall>a g'. spawnHazards_loop W H count sr 0 g = Some (a, g') \<longrightarrow>
      spawnHazards W H count sr g = Some g' \<and>
      a \<le> 25 * count \<and>
      (\<exists>new. hazards g' = hazards g @ new \<and>
         hazards_ok (pos (player g)) (hazards g) new) \<and>
      length (hazards g') \<le> max count (length (hazards g)) \<and>
      (count \<le> length (hazards g') \<or> a = 25 * count)"
  proof (intro allI impI)
    fix a g'
    assume l: "spawnHazards_loop W H count sr 0 g = Some (a, g')"
    note p = spawnHazards_loop_props [OF l]
    from p have a: "a \<le> 25 * count" by (simp add: mult.commute)
    from p obtain new where new: "hazards g' = hazards g @ new"
      and ok: "hazards_ok (pos (player g)) (hazards g) new"
      and n: "length (hazards g @ new) \<le> max count (length (hazards g))"
      by blast
    have e: "count \<le> length (hazards g') \<or> a = 25 * count"
      using p a by auto
    have s: "spawnHazards W H count sr g = Some g'"
      using l by (simp add: spawnHazards_def)
    have x: "\<exists>new. hazards g' = hazards g @ new \<and> hazards_ok (pos (player g)) (hazards g) new"
      using new ok by blast
    have len: "length (hazards g') \<le> max count (length (hazards g))"
      using new n by simp
    from s a x len e show "spawnHazards W H count sr g = Some g' \<and>
      a \<le> 25 * count \<and>
      (\<exists>new. hazards g' = hazards g @ new \<and>
         hazards_ok (pos (player g)) (hazards g) new) \<and>
      length (hazards g') \<le> max count (length (hazards g)) \<and>
      (count \<le> length (hazards g') \<or> a = 25 * count)"
      by (intro conjI)
  qed
  have h2: "fair (rng g) \<longrightarrow> (\<exists>a g'. spawnHazards_loop W H count sr 0 g = Some (a, g'))"
    using spawnHazards_loop_returns [of g W H count sr 0] by blast
  from i1 i2 i3 i4 h1 h2 show ?thesis by (intro conjI)
qed

lemma crowded_facts:
  "rng example_crowded_game = sconst (1 / 2)"
  "pos (player example_crowded_game) = \<lparr>X = 480, Y = 270\<rparr>"
  "items example_crowded_game = []"
  "hazards example_crowded_game = []"
  by (simp_all add: example_crowded_game_def example_game_def new_Player_def)

theorem spawner_bounded_witness:
  "fair (rng example_open_game) \<and>
   (\<exists>a g'. spawnHazards_loop 960 540 3 (120, 170) 0 example_open_game = Some (a, g') \<and>
      a \<le> 75 \<and> length (hazards g') \<le> 3 \<and>
      hazards_ok (pos (player example_open_game)) [] (hazards g')) \<and>
   fst (spawnItems_loop 960 540 8 0 example_crowded_game) = 160 \<and>
   items (spawnItems 960 540 8 example_crowded_game) = []"
proof -
  note open_game = spawner_bounded [of 960 540 3 example_open_game "(120, 170)"]
  note crowded = spawner_bounded [of 960 540 8 example_crowded_game "(120, 170)"]
  have f: "fair (rng example_open_game)"
    by (simp add: example_open_game_def fair_sconst_0)
  have h0: "hazards example_open_game = []"
    by (simp add: example_open_game_def crowded_facts)
  note returns = open_game [THEN conjunct2, THEN conjunct2, THEN conjunct2, THEN conjunct2,
      THEN conjunct2, rule_format, OF f]
  then obtain a g'
    where l: "spawnHazards_loop 960 540 3 (120, 170) 0 example_open_game = Some (a, g')"
    by blast
  note props = open_game [THEN conjunct2, THEN conjunct2, THEN conjunct2, THEN conjunct2,
      THEN conjunct1, rule_format, OF l]
  from props h0 have "a \<le> 75 \<and> length (hazards g') \<le> 3 \<and>
      hazards_ok (pos (player example_open_game)) [] (hazards g')"
    by auto
  with l have hz: "\<exists>a g'. spawnHazards_loop 960 540 3 (120, 170) 0 example_open_game = Some (a, g') \<and>
      a \<le> 75 \<and> length (hazards g') \<le> 3 \<and>
      hazards_ok (pos (player example_open_game)) [] (hazards g')"
    by blast
  have it: "items (spawnItems 960 540 8 example_crowded_game) = []"
    by (simp add: spawnItems_def spawnItems_loop_half crowded_facts)
  note exit = crowded [THEN conjunct2, THEN conjunct2, THEN conjunct2, THEN conjunct1]
  with it have at: "fst (spawnItems_loop 960 540 8 0 example_crowded_game) = 160"
    by simp
  from f hz at it show ?thesis by (intro conjI)
qed

lemma spawnItems_attempt_places:
  "items (spawnItems_attempt W H s) =
    (if item_ok (pos (player s)) (hazards s) (items s) (item_candidate W H s)
     then items s @ [item_candidate W H s] else items s)"
  by (simp add: spawnItems_attempt_def Let_def case_prod_beta new_Item_def item_ok_def
      item_candidate_def rand_def list_ex_iff list_all_iff not_less)

lemma spawnHazards_attempt_places:
  assumes "spawnHazards_attempt W H sr s = Some s'"
  shows "\<exists>v. hazards s' =
    (if hazard_ok (pos (player s)) (hazards s)
          \<lparr>hpos = hazard_candidate W H s, hsize = 24, vel = v\<rparr>
     then hazards s @ [\<lparr>hpos = hazard_candidate W H s, hsize = 24, vel = v\<rparr>]
     else hazards s)"
  using assms
  by (auto simp add: spawnHazards_attempt_def Let_def case_prod_beta hazard_ok_def
      hazard_candidate_def rand_def new_Hazard_def list_ex_iff list_all_iff not_less
      split: if_splits option.splits)

lemma spawnItems_loop_passes:
  "\<exists>n. spawnItems_loop W H count a g = (a + n, item_attempts W H n g) \<and>
     (\<forall>j<n. length (items (item_attempts W H j g)) < count)"
proof (induction W H count a g rule: spawnItems_loop.induct)
  case (1 W H count attempts g)
  show ?case
  proof (cases "length (items g) < count \<and> attempts < count * 20")
    case False
    then have "spawnItems_loop W H count attempts g = (attempts + 0, item_attempts W H 0 g)"
      by (simp add: spawnItems_loop_stop)
    then show ?thesis by blast
  next
    case True
    from 1 [OF True] obtain n
      where n: "spawnItems_loop W H count (attempts + 1) (spawnItems_attempt W H g) =
          (attempts + 1 + n, item_attempts W H n (spawnItems_attempt W H g))"
        and b: "\<forall>j<n. length (items (item_attempts W H j (spawnItems_attempt W H g))) < count"
      by blast
    have "spawnItems_loop W H count attempts g = (attempts + Suc n, item_attempts W H (Suc n) g)"
      using n True by (simp add: spawnItems_loop_continue)
    moreover have "\<forall>j<Suc n. length (items (item_attempts W H j g)) < count"
    proof (intro allI impI)
      fix j assume "j < Suc n"
      then show "length (items (item_attempts W H j g)) < count"
        using b True by (cases j) simp_all
    qed
    ultimately show ?thesis by blast
  qed
qed

lemma spawnHazards_loop_passes:
  "spawnHazards_loop W H count sr a g = Some (b, g') \<Longrightarrow>
   \<exists>n. b = a + n \<and> hazard_attempts W H sr n g = Some g' \<and>
     (\<forall>j<n. \<forall>s. hazard_attempts W H sr j g = Some s \<longrightarrow> length (hazards s) < count)"
proof (induction W H count sr a g rule: spawnHazards_loop.induct)
  case (1 W H count sr attempts g)
  show ?case
  proof (cases "length (hazards g) < count \<and> attempts < count * 25")
    case False
    with 1(2) have "b = attempts + 0 \<and> hazard_attempts W H sr 0 g = Some g'"
      by (simp add: spawnHazards_loop_stop)
    then show ?thesis by blast
  next
    case True
    with 1(2) obtain g1
      where g1: "spawnHazards_attempt W H sr g = Some g1"
        and rest: "spawnHazards_loop W H count sr (attempts + 1) g1 = Some (b, g')"
      by (auto simp add: spawnHazards_loop_continue split: option.splits)
    from 1(1) [OF True g1 rest] obtain n
      where n: "b = attempts + 1 + n" "hazard_attempts W H sr n g1 = Some g'"
        and l: "\<forall>j<n. \<forall>s. hazard_attempts W H sr j g1 = Some s \<longrightarrow> length (hazards s) < count"
      by blast
    have "b = attempts + Suc n \<and> hazard_attempts W H sr (Suc n) g = Some g'"
      using n g1 by simp
    moreover have "\<forall>j<Suc n. \<forall>s. hazard_attempts W H sr j g = Some s \<longrightarrow> length (hazards s) < count"
    proof (intro allI impI)
      fix j s assume "j < Suc n" and "hazard_attempts W H sr j g = Some s"
      then show "length (hazards s) < count"
        using l g1 True by (cases j) auto
    qed
    ultimately show ?thesis by blast
  qed
qed

lemma square_le: "\<bar>a\<bar> \<le> b \<Longrightarrow> a * a \<le> b * (b::real)"
  using abs_le_square_iff [of a b] by (simp add: power2_eq_square)

lemma central_pair:
  assumes "central (Suc (Suc n)) r"
  shows "central n (stl (stl r))"
    and "9 / 20 \<le> shd r \<and> shd r \<le> 11 / 20"
    and "9 / 20 \<le> shd (stl r) \<and> shd (stl r) \<le> 11 / 20"
proof -
  show "central n (stl (stl r))"
    unfolding central_def
  proof (intro allI impI)
    fix k assume "k < n"
    then have "Suc (Suc k) < Suc (Suc n)" by simp
    with assms have "9 / 20 \<le> r !! Suc (Suc k) \<and> r !! Suc (Suc k) \<le> 11 / 20"
      unfolding central_def by blast
    then show "9 / 20 \<le> stl (stl r) !! k \<and> stl (stl r) !! k \<le> 11 / 20" by simp
  qed
  from assms have "9 / 20 \<le> r !! 0 \<and> r !! 0 \<le> 11 / 20"
    unfolding central_def by blast
  then show "9 / 20 \<le> shd r \<and> shd r \<le> 11 / 20" by simp
  from assms have "9 / 20 \<le> r !! Suc 0 \<and> r !! Suc 0 \<le> 11 / 20"
    unfolding central_def by blast
  then show "9 / 20 \<le> shd (stl r) \<and> shd (stl r) \<le> 11 / 20" by simp
qed

lemma central_sdrop: "central (m + n) r \<Longrightarrow> central n (sdrop m r)"
  by (simp add: central_def sdrop_snth)

lemma central_less: "central m r \<Longrightarrow> n \<le> m \<Longrightarrow> central n r"
  by (simp add: central_def)

lemma spawnHazards_attempt_central:
  assumes c: "central (Suc (Suc n)) (rng g)" and p: "pos (player g) = \<lparr>X = 480, Y = 270\<rparr>"
  shows "spawnHazards_attempt 960 540 sr g = Some (g\<lparr>rng := stl (stl (rng g))\<rparr>)"
proof -
  let ?u = "shd (rng g)" and ?v = "shd (stl (rng g))"
  note b = central_pair(2,3) [OF c]
  from b have "\<bar>?u * 840 - 420\<bar> \<le> 42" by (simp add: abs_le_iff)
  then have x: "(?u * 840 - 420) * (?u * 840 - 420) \<le> 42 * 42" by (rule square_le)
  from b have "\<bar>?v * 380 - 170\<bar> \<le> 39" by (simp add: abs_le_iff)
  then have y: "(?v * 380 - 170) * (?v * 380 - 170) \<le> 39 * 39" by (rule square_le)
  from x y have "hypot (?u * 840 - 420) (?v * 380 - 170) < 120"
    by (simp add: hypot_less_iff)
  then show ?thesis
    by (simp add: spawnHazards_attempt_def Let_def rand_def distanceTo_def p)
qed

lemma spawnItems_attempt_central:
  assumes c: "central (Suc (Suc n)) (rng g)" and p: "pos (player g) = \<lparr>X = 480, Y = 270\<rparr>"
  shows "spawnItems_attempt 960 540 g = g\<lparr>rng := stl (stl (rng g))\<rparr>"
proof -
  let ?u = "shd (rng g)" and ?v = "shd (stl (rng g))"
  note b = central_pair(2,3) [OF c]
  from b have "\<bar>?u * 880 - 440\<bar> \<le> 44" by (simp add: abs_le_iff)
  then have x: "(?u * 880 - 440) * (?u * 880 - 440) \<le> 44 * 44" by (rule square_le)
  from b have "\<bar>?v * 420 - 190\<bar> \<le> 41" by (simp add: abs_le_iff)
  then have y: "(?v * 420 - 190) * (?v * 420 - 190) \<le> 41 * 41" by (rule square_le)
  from x y have "hypot (?u * 880 - 440) (?v * 420 - 190) < 80"
    by (simp add: hypot_less_iff)
  then show ?thesis
    by (simp add: spawnItems_attempt_def Let_def rand_def distanceTo_def p)
qed

lemma spawnHazards_loop_central:
  assumes "pos (player g) = \<lparr>X = 480, Y = 270\<rparr>" and "length (hazards g) < count"
    and "central (2 * (count * 25 - a)) (rng g)"
  shows "spawnHazards_loop 960 540 count sr a g =
    Some (max a (count * 25), g\<lparr>rng := sdrop (2 * (count * 25 - a)) (rng g)\<rparr>)"
  using assms
proof (induction "count * 25 - a" arbitrary: a g)
  case 0
  then show ?case by (simp add: spawnHazards_loop_stop)
next
  case (Suc n)
  from Suc(2) have lt: "a < count * 25" and n: "n = count * 25 - (a + 1)"
    by simp_all
  from Suc(2) Suc(5) have c: "central (Suc (Suc (2 * n))) (rng g)"
    by (simp add: Suc(2) [symmetric])
  let ?g1 = "g\<lparr>rng := stl (stl (rng g))\<rparr>"
  have att: "spawnHazards_attempt 960 540 sr g = Some ?g1"
    using c Suc(3) by (rule spawnHazards_attempt_central)
  have c1: "central (2 * (count * 25 - (a + 1))) (rng ?g1)"
    using central_pair(1) [OF c] n by simp
  have "spawnHazards_loop 960 540 count sr (a + 1) ?g1 =
    Some (max (a + 1) (count * 25), ?g1\<lparr>rng := sdrop (2 * (count * 25 - (a + 1))) (rng ?g1)\<rparr>)"
    using Suc(3) Suc(4) c1 by (intro Suc(1) [OF n]) simp_all
  moreover have "sdrop (2 * n) (stl (stl (rng g))) = sdrop (2 * Suc n) (rng g)"
    by simp
  ultimately show ?case using lt Suc(4) att n Suc(2) [symmetric]
    by (simp add: spawnHazards_loop_continue max_def)
qed

lemma spawnItems_loop_central:
  assumes "pos (player g) = \<lparr>X = 480, Y = 270\<rparr>" and "length (items g) < count"
    and "central (2 * (count * 20 - a)) (rng g)"
  shows "spawnItems_loop 960 540 count a g =
    (max a (count * 20), g\<lparr>rng := sdrop (2 * (count * 20 - a)) (rng g)\<rparr>)"
  using assms
proof (induction "count * 20 - a" arbitrary: a g)
  case 0
  then show ?case by (simp add: spawnItems_loop_stop)
next
  case (Suc n)
  from Suc(2) have lt: "a < count * 20" and n: "n = count * 20 - (a + 1)"
    by simp_all
  from Suc(2) Suc(5) have c: "central (Suc (Suc (2 * n))) (rng g)"
    by (simp add: Suc(2) [symmetric])
  let ?g1 = "g\<lparr>rng := stl (stl (rng g))\<rparr>"
  have att: "spawnItems_attempt 960 540 g = ?g1"
    using c Suc(3) by (rule spawnItems_attempt_central)
  have c1: "central (2 * (count * 20 - (a + 1))) (rng ?g1)"
    using central_pair(1) [OF c] n by simp
  have "spawnItems_loop 960 540 count (a + 1) ?g1 =
    (max (a + 1) (count * 20), ?g1\<lparr>rng := sdrop (2 * (count * 20 - (a + 1))) (rng ?g1)\<rparr>)"
    using Suc(3) Suc(4) c1 by (intro Suc(1) [OF n]) simp_all
  moreover have "sdrop (2 * n) (stl (stl (rng g))) = sdrop (2 * Suc n) (rng g)"
    by simp
  ultimately show ?case using lt Suc(4) att n Suc(2) [symmetric]
    by (simp add: spawnItems_loop_continue max_def)
qed

lemma concat_replicate_facts:
  "length (concat (replicate n xs)) = n * length xs"
  "set (concat (replicate n xs)) \<subseteq> set xs"
  by (induction n) auto

lemma central_example: "central 600 example_central_draws"
  unfolding central_def
proof (intro allI impI)
  fix k :: nat assume k: "k < 600"
  let ?xs = "concat (replicate 150 [9 / 20, 1 / 2, 11 / 20, 12 / 25 :: real])"
  have l: "k < length ?xs"
    using k by (simp only: concat_replicate_facts(1)) simp
  then have "?xs ! k \<in> set ?xs" by (rule nth_mem)
  with concat_replicate_facts(2) [of 150 "[9 / 20, 1 / 2, 11 / 20, 12 / 25 :: real]"]
  have "?xs ! k \<in> {9 / 20, 1 / 2, 11 / 20, 12 / 25}" by auto
  moreover have "example_central_draws !! k = ?xs ! k"
    unfolding example_central_draws_def using l by (rule shift_snth_less)
  ultimately show "9 / 20 \<le> example_central_draws !! k \<and> example_central_draws !! k \<le> 11 / 20"
    by auto
qed

lemma fair_shift_sconst_0: "fair (w @- sconst 0)"
  unfolding fair_def
proof
  fix n
  have "sdrop (n + 2 * length w) (w @- sconst 0) = sconst 0"
    by (simp add: sdrop_shift sdrop_sconst)
  then have "acceptable (sdrop (n + 2 * length w) (w @- sconst 0))"
    by (simp add: acceptable_def rand_def)
  then show "\<exists>k. acceptable (sdrop (n + 2 * k) (w @- sconst 0))" ..
qed

subsection \<open>Starting a run\<close>

lemma startGame_unfold:
  "startGame W H g =
    (case difficulty_at (difficultyIndex g) of
       None \<Rightarrow> Some (Inl TypeError)
     | Some diff \<Rightarrow>
         (case spawnHazards W H (d_hazards diff) (hazardSpeed diff) (cleared W H diff g) of
            None \<Rightarrow> None
          | Some g1 \<Rightarrow> Some (Inr (spawnItems W H (d_items diff) g1))))"
  unfolding startGame_def cleared_def Let_def by (simp split: option.splits)

lemma cleared_fields [simp]:
  "state (cleared W H diff g) = Playing"
  "timeLeft (cleared W H diff g) = d_time diff"
  "score (cleared W H diff g) = 0"
  "lives (cleared W H diff g) = d_lives diff"
  "combo (cleared W H diff g) = 0"
  "comboTimer (cleared W H diff g) = 0"
  "player (cleared W H diff g) = (player g)\<lparr>pos := \<lparr>X = W / 2, Y = H / 2\<rparr>, hitCooldown := 0\<rparr>"
  "items (cleared W H diff g) = []"
  "hazards (cleared W H diff g) = []"
  "particles (cleared W H diff g) = []"
  "floaters (cleared W H diff g) = []"
  "shakeTimer (cleared W H diff g) = 0"
  "newHighScore (cleared W H diff g) = False"
  "highScore (cleared W H diff g) = highScore g"
  "storage (cleared W H diff g) = storage g"
  "difficultyIndex (cleared W H diff g) = difficultyIndex g"
  "assets (cleared W H diff g) = assets g"
  "rng (cleared W H diff g) = rng g"
  by (simp_all add: cleared_def Let_def)

lemma cleared_forgets:
  "cleared W H diff (g\<lparr>items := its, hazards := hzs, particles := ps, floaters := fts\<rparr>) =
   cleared W H diff g"
  by (simp add: cleared_def Let_def)

lemma startGame_returns:
  assumes "difficulty_at (difficultyIndex g) = Some diff" and "fair (rng g)"
  shows "\<exists>g'. startGame W H g = Some (Inr g')"
proof -
  have "fair (rng (cleared W H diff g))" using assms(2) by simp
  from spawnHazards_loop_returns [OF this, of W H "d_hazards diff" "hazardSpeed diff" 0]
  obtain a g1 where "spawnHazards_loop W H (d_hazards diff) (hazardSpeed diff) 0
      (cleared W H diff g) = Some (a, g1)"
    by blast
  then show ?thesis using assms(1)
    by (simp add: startGame_unfold spawnHazards_def)
qed

lemma startGame_stages:
  assumes "difficulty_at (difficultyIndex g) = Some diff" and "startGame W H g = Some (Inr g')"
  shows "\<exists>a gh. spawnHazards_loop W H (d_hazards diff) (hazardSpeed diff) 0
            (cleared W H diff g) = Some (a, gh) \<and>
          g' = snd (spawnItems_loop W H (d_items diff) 0 gh)"
  using assms
  by (auto simp add: startGame_unfold spawnHazards_def spawnItems_def split: option.splits)

lemma startGame_result:
  assumes d: "difficulty_at (difficultyIndex g) = Some diff"
    and s: "startGame W H g = Some (Inr g')"
  shows "state g' = Playing \<and> lives g' = d_lives diff \<and> timeLeft g' = d_time diff \<and>
      score g' = 0 \<and> combo g' = 0 \<and> comboTimer g' = 0 \<and>
      pos (player g') = \<lparr>X = W / 2, Y = H / 2\<rparr> \<and> hitCooldown (player g') = 0 \<and>
      particles g' = [] \<and> floaters g' = [] \<and> shakeTimer g' = 0 \<and> \<not> newHighScore g'"
    and "highScore g' = highScore g \<and> storage g' = storage g \<and>
      difficultyIndex g' = difficultyIndex g"
    and "length (hazards g') \<le> d_hazards diff \<and> length (items g') \<le> d_items diff \<and>
      hazards_ok \<lparr>X = W / 2, Y = H / 2\<rparr> [] (hazards g') \<and>
      items_ok \<lparr>X = W / 2, Y = H / 2\<rparr> (hazards g') [] (items g')"
    and "\<exists>a gh b.
      spawnHazards_loop W H (d_hazards diff) (hazardSpeed diff) 0 (cleared W H diff g) = Some (a, gh) \<and>
      spawnItems_loop W H (d_items diff) 0 gh = (b, g') \<and>
      (length (hazards g') = d_hazards diff \<or> a = 25 * d_hazards diff) \<and>
      (length (items g') = d_items diff \<or> b = 20 * d_items diff)"
proof -
  from startGame_stages [OF d s] obtain a gh
    where l: "spawnHazards_loop W H (d_hazards diff) (hazardSpeed diff) 0
            (cleared W H diff g) = Some (a, gh)"
      and g': "g' = snd (spawnItems_loop W H (d_items diff) 0 gh)"
    by blast
  note k = spawnHazards_loop_keeps [OF l]
  note p = spawnHazards_loop_props [OF l]
  show "state g' = Playing \<and> lives g' = d_lives diff \<and> timeLeft g' = d_time diff \<and>
      score g' = 0 \<and> combo g' = 0 \<and> comboTimer g' = 0 \<and>
      pos (player g') = \<lparr>X = W / 2, Y = H / 2\<rparr> \<and> hitCooldown (player g') = 0 \<and>
      particles g' = [] \<and> floaters g' = [] \<and> shakeTimer g' = 0 \<and> \<not> newHighScore g'"
    using k by (simp add: g')
  show "highScore g' = highScore g \<and> storage g' = storage g \<and>
      difficultyIndex g' = difficultyIndex g"
    using k by (simp add: g')
  from p have hz: "hazards_ok \<lparr>X = W / 2, Y = H / 2\<rparr> [] (hazards gh)"
    and hl: "length (hazards gh) \<le> d_hazards diff"
    and he: "d_hazards diff \<le> length (hazards gh) \<or> d_hazards diff * 25 \<le> a"
    and ha: "a \<le> d_hazards diff * 25"
    by auto
  from k have pg: "pos (player gh) = \<lparr>X = W / 2, Y = H / 2\<rparr>" and ig: "items gh = []"
    by simp_all
  from spawnItems_loop_items [of W H "d_items diff" 0 gh] pg ig g'
  have it: "items_ok \<lparr>X = W / 2, Y = H / 2\<rparr> (hazards gh) [] (items g')"
    and il: "length (items g') \<le> d_items diff"
    by auto
  have hg: "hazards g' = hazards gh" by (simp add: g')
  show "length (hazards g') \<le> d_hazards diff \<and> length (items g') \<le> d_items diff \<and>
      hazards_ok \<lparr>X = W / 2, Y = H / 2\<rparr> [] (hazards g') \<and>
      items_ok \<lparr>X = W / 2, Y = H / 2\<rparr> (hazards g') [] (items g')"
    using hz hl it il hg by simp
  obtain b where b: "spawnItems_loop W H (d_items diff) 0 gh = (b, g')"
    using g' by (cases "spawnItems_loop W H (d_items diff) 0 gh") simp
  from spawnItems_loop_exit [of "d_items diff" W H 0 gh]
    spawnItems_loop_attempts [of 0 W H "d_items diff" gh] b il
  have ie: "length (items g') = d_items diff \<or> b = 20 * d_items diff"
    by auto
  from he ha hl hg have he': "length (hazards g') = d_hazards diff \<or> a = 25 * d_hazards diff"
    by auto
  from l b he' ie show "\<exists>a gh b.
      spawnHazards_loop W H (d_hazards diff) (hazardSpeed diff) 0 (cleared W H diff g) = Some (a, gh) \<and>
      spawnItems_loop W H (d_items diff) 0 gh = (b, g') \<and>
      (length (hazards g') = d_hazards diff \<or> a = 25 * d_hazards diff) \<and>
      (length (items g') = d_items diff \<or> b = 20 * d_items diff)"
    by blast
qed

lemma startGame_forgets:
  "startGame W H (g\<lparr>items := its, hazards := hzs, particles := ps, floaters := fts\<rparr>) =
   startGame W H g"
  by (simp add: startGame_unfold cleared_forgets split: option.splits)

lemma startGame_passes:
  assumes d: "difficulty_at (difficultyIndex g) = Some diff"
    and s: "startGame W H g = Some (Inr g')"
  shows "\<exists>a gh b.
      spawnHazards_loop W H (d_hazards diff) (hazardSpeed diff) 0 (cleared W H diff g) = Some (a, gh) \<and>
      spawnItems_loop W H (d_items diff) 0 gh = (b, g') \<and>
      hazard_attempts W H (hazardSpeed diff) a (cleared W H diff g) = Some gh \<and>
      item_attempts W H b gh = g' \<and>
      (\<forall>j<a. \<forall>s. hazard_attempts W H (hazardSpeed diff) j (cleared W H diff g) = Some s \<longrightarrow>
         length (hazards s) < d_hazards diff) \<and>
      (\<forall>j<b. length (items (item_attempts W H j gh)) < d_items diff) \<and>
      a \<le> 25 * d_hazards diff \<and> b \<le> 20 * d_items diff \<and>
      (length (hazards g') = d_hazards diff \<or> a = 25 * d_hazards diff) \<and>
      (length (items g') = d_items diff \<or> b = 20 * d_items diff) \<and>
      (\<forall>n s. n \<le> 25 * d_hazards diff \<and>
         hazard_attempts W H (hazardSpeed diff) n (cleared W H diff g) = Some s \<and>
         d_hazards diff \<le> length (hazards s) \<longrightarrow> length (hazards g') = d_hazards diff) \<and>
      (\<forall>n. n \<le> 20 * d_items diff \<and>
         d_items diff \<le> length (items (item_attempts W H n gh)) \<longrightarrow>
         length (items g') = d_items diff)"
proof -
  let ?c = "cleared W H diff g"
  from startGame_stages [OF d s] obtain a gh
    where l: "spawnHazards_loop W H (d_hazards diff) (hazardSpeed diff) 0 ?c = Some (a, gh)"
      and g': "g' = snd (spawnItems_loop W H (d_items diff) 0 gh)"
    by blast
  note p = spawnHazards_loop_props [OF l]
  from spawnHazards_loop_passes [OF l]
  have ha: "hazard_attempts W H (hazardSpeed diff) a ?c = Some gh"
    and hb: "\<forall>j<a. \<forall>s. hazard_attempts W H (hazardSpeed diff) j ?c = Some s \<longrightarrow>
         length (hazards s) < d_hazards diff"
    by auto
  from spawnItems_loop_passes [of W H "d_items diff" 0 gh] obtain b
    where il: "spawnItems_loop W H (d_items diff) 0 gh = (b, item_attempts W H b gh)"
      and ib: "\<forall>j<b. length (items (item_attempts W H j gh)) < d_items diff"
    by auto
  from il g' have ia: "item_attempts W H b gh = g'" by simp
  from il ia have il': "spawnItems_loop W H (d_items diff) 0 gh = (b, g')" by simp
  from p have hl: "length (hazards gh) \<le> d_hazards diff"
    and he: "d_hazards diff \<le> length (hazards gh) \<or> d_hazards diff * 25 \<le> a"
    and hc: "a \<le> 25 * d_hazards diff"
    by auto
  have hg: "hazards g' = hazards gh" by (simp add: g')
  from spawnHazards_loop_keeps [OF l] have ig: "items gh = []" by simp
  from spawnItems_loop_items [of W H "d_items diff" 0 gh] ig g'
  have ilen: "length (items g') \<le> d_items diff" by auto
  from spawnItems_loop_attempts [of 0 W H "d_items diff" gh] il'
  have ic: "b \<le> 20 * d_items diff" by simp
  from spawnItems_loop_exit [of "d_items diff" W H 0 gh] il' ilen ic
  have ie: "length (items g') = d_items diff \<or> b = 20 * d_items diff"
    by auto
  from he hc hl hg have he': "length (hazards g') = d_hazards diff \<or> a = 25 * d_hazards diff"
    by auto
  have hr: "\<forall>n s. n \<le> 25 * d_hazards diff \<and>
         hazard_attempts W H (hazardSpeed diff) n ?c = Some s \<and>
         d_hazards diff \<le> length (hazards s) \<longrightarrow> length (hazards g') = d_hazards diff"
  proof (intro allI impI)
    fix n s
    assume n: "n \<le> 25 * d_hazards diff \<and>
         hazard_attempts W H (hazardSpeed diff) n ?c = Some s \<and>
         d_hazards diff \<le> length (hazards s)"
    show "length (hazards g') = d_hazards diff"
    proof (cases "n < a")
      case True
      with hb n show ?thesis by fastforce
    next
      case False
      from he' show ?thesis
      proof
        assume "a = 25 * d_hazards diff"
        with False n have "n = a" by simp
        with n ha have "s = gh" by simp
        with n hl hg show ?thesis by simp
      qed
    qed
  qed
  have ir: "\<forall>n. n \<le> 20 * d_items diff \<and>
         d_items diff \<le> length (items (item_attempts W H n gh)) \<longrightarrow>
         length (items g') = d_items diff"
  proof (intro allI impI)
    fix n
    assume n: "n \<le> 20 * d_items diff \<and>
         d_items diff \<le> length (items (item_attempts W H n gh))"
    show "length (items g') = d_items diff"
    proof (cases "n < b")
      case True
      with ib n show ?thesis by fastforce
    next
      case False
      from ie show ?thesis
      proof
        assume "b = 20 * d_items diff"
        with False n have "n = b" by simp
        with n ia ilen show ?thesis by simp
      qed
    qed
  qed
  from l il' ha ia hb ib hc ic he' ie hr ir show ?thesis by blast
qed

text \<open>
  Claim C4, amended. For every difficulty preset, starting a run sets lives and
  \<open>timeLeft\<close> exactly to the preset's values, resets the score to 0, clears the combo
  state, recentres the player (and ends its invulnerability), discards all earlier
  items, hazards, particles and floating texts (the result does not depend on them),
  and then spawns hazards and items up to the preset's numbers: it makes hazard
  attempts one after another until the preset's number of hazards is there or
  \<open>25 * count\<close> attempts are made, then item attempts until the preset's number of items
  is there or \<open>20 * count\<close> attempts are made; each attempt places the candidate it draws
  exactly when the candidate meets the separation rules, and changes nothing else on the
  field. So the counts are never above the preset's, they are exactly the preset's
  unless the spawner used up its attempts, and they are exactly the preset's whenever
  some number of attempts within the cap gets there. The run does start on every fair
  random source.
\<close>

theorem startGame_resets:
  assumes "difficulty_at (difficultyIndex g) = Some diff"
  shows "(fair (rng g) \<longrightarrow> (\<exists>g'. startGame W H g = Some (Inr g'))) \<and>
   (\<forall>g'. startGame W H g = Some (Inr g') \<longrightarrow>
      (state g' = Playing \<and> lives g' = d_lives diff \<and> timeLeft g' = d_time diff \<and>
       score g' = 0 \<and> combo g' = 0 \<and> comboTimer g' = 0 \<and>
       pos (player g') = \<lparr>X = W / 2, Y = H / 2\<rparr> \<and> hitCooldown (player g') = 0 \<and>
       particles g' = [] \<and> floaters g' = [] \<and> shakeTimer g' = 0 \<and> \<not> newHighScore g') \<and>
      (length (hazards g') \<le> d_hazards diff \<and> length (items g') \<le> d_items diff \<and>
       hazards_ok \<lparr>X = W / 2, Y = H / 2\<rparr> [] (hazards g') \<and>
       items_ok \<lparr>X = W / 2, Y = H / 2\<rparr> (hazards g') [] (items g')) \<and>
      (\<exists>a gh b.
         spawnHazards_loop W H (d_hazards diff) (hazardSpeed diff) 0 (cleared W H diff g) =
           Some (a, gh) \<and>
         spawnItems_loop W H (d_items diff) 0 gh = (b, g') \<and>
         hazard_attempts W H (hazardSpeed diff) a (cleared W H diff g) = Some gh \<and>
         item_attempts W H b gh = g' \<and>
         (\<forall>j<a. \<forall>s. hazard_attempts W H (hazardSpeed diff) j (cleared W H diff g) = Some s \<longrightarrow>
            length (hazards s) < d_hazards diff) \<and>
         (\<forall>j<b. length (items (item_attempts W H j gh)) < d_items diff) \<and>
         a \<le> 25 * d_hazards diff \<and> b \<le> 20 * d_items diff \<and>
         (length (hazards g') = d_hazards diff \<or> a = 25 * d_hazards diff) \<and>
         (length (items g') = d_items diff \<or> b = 20 * d_items diff) \<and>
         (\<forall>n s. n \<le> 25 * d_hazards diff \<and>
            hazard_attempts W H (hazardSpeed diff) n (cleared W H diff g) = Some s \<and>
            d_hazards diff \<le> length (hazards s) \<longrightarrow>
            length (hazards g') = d_hazards diff) \<and>
         (\<forall>n. n \<le> 20 * d_items diff \<and>
            d_items diff \<le> length (items (item_attempts W H n gh)) \<longrightarrow>
            length (items g') = d_items diff))) \<and>
   (\<forall>s s'. spawnHazards_attempt W H (hazardSpeed diff) s = Some s' \<longrightarrow>
      player s' = player s \<and> items s' = items s \<and>
      (\<exists>v. hazards s' =
         (if hazard_ok (pos (player s)) (hazards s)
               \<lparr>hpos = hazard_candidate W H s, hsize = 24, vel = v\<rparr>
          then hazards s @ [\<lparr>hpos = hazard_candidate W H s, hsize = 24, vel = v\<rparr>]
          else hazards s))) \<and>
   (\<forall>s. player (spawnItems_attempt W H s) = player s \<and>
      hazards (spawnItems_attempt W H s) = hazards s \<and>
      items (spawnItems_attempt W H s) =
        (if item_ok (pos (player s)) (hazards s) (items s) (item_candidate W H s)
         then items s @ [item_candidate W H s] else items s)) \<and>
   startGame W H (g\<lparr>items := its, hazards := hzs, particles := ps, floaters := fts\<rparr>) =
     startGame W H g"
proof -
  have returns: "fair (rng g) \<longrightarrow> (\<exists>g'. startGame W H g = Some (Inr g'))"
    using assms by (blast intro: startGame_returns)
  have result: "\<forall>g'. startGame W H g = Some (Inr g') \<longrightarrow>
      (state g' = Playing \<and> lives g' = d_lives diff \<and> timeLeft g' = d_time diff \<and>
       score g' = 0 \<and> combo g' = 0 \<and> comboTimer g' = 0 \<and>
       pos (player g') = \<lparr>X = W / 2, Y = H / 2\<rparr> \<and> hitCooldown (player g') = 0 \<and>
       particles g' = [] \<and> floaters g' = [] \<and> shakeTimer g' = 0 \<and> \<not> newHighScore g') \<and>
      (length (hazards g') \<le> d_hazards diff \<and> length (items g') \<le> d_items diff \<and>
       hazards_ok \<lparr>X = W / 2, Y = H / 2\<rparr> [] (hazards g') \<and>
       items_ok \<lparr>X = W / 2, Y = H / 2\<rparr> (hazards g') [] (items g')) \<and>
      (\<exists>a gh b.
         spawnHazards_loop W H (d_hazards diff) (hazardSpeed diff) 0 (cleared W H diff g) =
           Some (a, gh) \<and>
         spawnItems_loop W H (d_items diff) 0 gh = (b, g') \<and>
         hazard_attempts W H (hazardSpeed diff) a (cleared W H diff g) = Some gh \<and>
         item_attempts W H b gh = g' \<and>
         (\<forall>j<a. \<forall>s. hazard_attempts W H (hazardSpeed diff) j (cleared W H diff g) = Some s \<longrightarrow>
            length (hazards s) < d_hazards diff) \<and>
         (\<forall>j<b. length (items (item_attempts W H j gh)) < d_items diff) \<and>
         a \<le> 25 * d_hazards diff \<and> b \<le> 20 * d_items diff \<and>
         (length (hazards g') = d_hazards diff \<or> a = 25 * d_hazards diff) \<and>
         (length (items g') = d_items diff \<or> b = 20 * d_items diff) \<and>
         (\<forall>n s. n \<le> 25 * d_hazards diff \<and>
            hazard_attempts W H (hazardSpeed diff) n (cleared W H diff g) = Some s \<and>
            d_hazards diff \<le> length (hazards s) \<longrightarrow>
            length (hazards g') = d_hazards diff) \<and>
         (\<forall>n. n \<le> 20 * d_items diff \<and>
            d_items diff \<le> length (items (item_attempts W H n gh)) \<longrightarrow>
            length (items g') = d_items diff))"
  proof (intro allI impI)
    fix g'
    assume s: "startGame W H g = Some (Inr g')"
    note r = startGame_result [OF assms s]
    note passes = startGame_passes [OF assms s]
    show "(state g' = Playing \<and> lives g' = d_lives diff \<and> timeLeft g' = d_time diff \<and>
       score g' = 0 \<and> combo g' = 0 \<and> comboTimer g' = 0 \<and>
       pos (player g') = \<lparr>X = W / 2, Y = H / 2\<rparr> \<and> hitCooldown (player g') = 0 \<and>
       particles g' = [] \<and> floaters g' = [] \<and> shakeTimer g' = 0 \<and> \<not> newHighScore g') \<and>
      (length (hazards g') \<le> d_hazards diff \<and> length (items g') \<le> d_items diff \<and>
       hazards_ok \<lparr>X = W / 2, Y = H / 2\<rparr> [] (hazards g') \<and>
       items_ok \<lparr>X = W / 2, Y = H / 2\<rparr> (hazards g') [] (items g')) \<and>
      (\<exists>a gh b.
         spawnHazards_loop W H (d_hazards diff) (hazardSpeed diff) 0 (cleared W H diff g) =
           Some (a, gh) \<and>
         spawnItems_loop W H (d_items diff) 0 gh = (b, g') \<and>
         hazard_attempts W H (hazardSpeed diff) a (cleared W H diff g) = Some gh \<and>
         item_attempts W H b gh = g' \<and>
         (\<forall>j<a. \<forall>s. hazard_attempts W H (hazardSpeed diff) j (cleared W H diff g) = Some s \<longrightarrow>
            length (hazards s) < d_hazards diff) \<and>
         (\<forall>j<b. length (items (item_attempts W H j gh)) < d_items diff) \<and>
         a \<le> 25 * d_hazards diff \<and> b \<le> 20 * d_items diff \<and>
         (length (hazards g') = d_hazards diff \<or> a = 25 * d_hazards diff) \<and>
         (length (items g') = d_items diff \<or> b = 20 * d_items diff) \<and>
         (\<forall>n s. n \<le> 25 * d_hazards diff \<and>
            hazard_attempts W H (hazardSpeed diff) n (cleared W H diff g) = Some s \<and>
            d_hazards diff \<le> length (hazards s) \<longrightarrow>
            length (hazards g') = d_hazards diff) \<and>
         (\<forall>n. n \<le> 20 * d_items diff \<and>
            d_items diff \<le> length (items (item_attempts W H n gh)) \<longrightarrow>
            length (items g') = d_items diff))"
      by (rule conjI [OF r(1) conjI [OF r(3) passes]])
  qed
  have hazard_pass: "\<forall>s s'. spawnHazards_attempt W H (hazardSpeed diff) s = Some s' \<longrightarrow>
      player s' = player s \<and> items s' = items s \<and>
      (\<exists>v. hazards s' =
         (if hazard_ok (pos (player s)) (hazards s)
               \<lparr>hpos = hazard_candidate W H s, hsize = 24, vel = v\<rparr>
          then hazards s @ [\<lparr>hpos = hazard_candidate W H s, hsize = 24, vel = v\<rparr>]
          else hazards s))"
  proof (intro allI impI)
    fix s s'
    assume a: "spawnHazards_attempt W H (hazardSpeed diff) s = Some s'"
    from spawnHazards_attempt_keeps(10,11) [OF a] spawnHazards_attempt_places [OF a]
    show "player s' = player s \<and> items s' = items s \<and>
      (\<exists>v. hazards s' =
         (if hazard_ok (pos (player s)) (hazards s)
               \<lparr>hpos = hazard_candidate W H s, hsize = 24, vel = v\<rparr>
          then hazards s @ [\<lparr>hpos = hazard_candidate W H s, hsize = 24, vel = v\<rparr>]
          else hazards s))"
      by (intro conjI)
  qed
  have item_pass: "\<forall>s. player (spawnItems_attempt W H s) = player s \<and>
      hazards (spawnItems_attempt W H s) = hazards s \<and>
      items (spawnItems_attempt W H s) =
        (if item_ok (pos (player s)) (hazards s) (items s) (item_candidate W H s)
         then items s @ [item_candidate W H s] else items s)"
    by (simp add: spawnItems_attempt_places)
  have forgets: "startGame W H (g\<lparr>items := its, hazards := hzs, particles := ps, floaters := fts\<rparr>) =
     startGame W H g"
    by (rule startGame_forgets)
  from returns result hazard_pass item_pass forgets show ?thesis by (intro conjI)
qed

lemma difficulty_at_1: "difficulty_at 1 = Some preset_Normal"
  by (simp add: difficulty_at_def DIFFICULTIES_def preset_Normal_def)

lemma Normal_preset:
  "d_lives preset_Normal = 4" "d_time preset_Normal = 50"
  "d_hazards preset_Normal = 4" "d_items preset_Normal = 10"
  "hazardSpeed preset_Normal = (150, 210)"
  by (simp_all add: DIFFICULTIES_def preset_Normal_def)

lemma startGame_central:
  assumes d: "difficulty_at (difficultyIndex g) = Some preset_Normal"
    and c: "central 600 (rng g)"
  shows "startGame 960 540 g =
    Some (Inr ((cleared 960 540 preset_Normal g)\<lparr>rng := sdrop 600 (rng g)\<rparr>))"
proof -
  let ?c = "cleared 960 540 preset_Normal g"
  let ?gh = "?c\<lparr>rng := sdrop 200 (rng g)\<rparr>"
  have p: "pos (player ?c) = \<lparr>X = 480, Y = 270\<rparr>" by simp
  have "central (2 * (4 * 25 - 0)) (rng ?c)"
    using central_less [OF c, of 200] by simp
  from spawnHazards_loop_central [OF p _ this, of "(150, 210)"]
  have h: "spawnHazards 960 540 4 (150, 210) ?c = Some ?gh"
    by (simp add: spawnHazards_def)
  have pg: "pos (player ?gh) = \<lparr>X = 480, Y = 270\<rparr>" by simp
  have "central (2 * (10 * 20 - 0)) (rng ?gh)"
    using central_sdrop [of 200 400 "rng g"] c by simp
  from spawnItems_loop_central [OF pg _ this]
  have it: "spawnItems 960 540 10 ?gh = ?c\<lparr>rng := sdrop 600 (rng g)\<rparr>"
    by (simp add: spawnItems_def)
  show ?thesis
    by (simp add: startGame_unfold d Normal_preset h it del: cleared_fields)
qed

text \<open>
  Claim C4, as stated, fails for the counts: the spawner gives up after its attempts.
  Whenever the first 600 values of \<^verbatim>\<open>Math.random\<close> lie between 0.45 and 0.55, every
  position drawn for the Normal preset on a 960 by 540 canvas lies within 45 of the
  centre on either axis, too close to the recentred player: the 100 hazard attempts and
  the 200 item attempts are all rejected, and the run starts with no hazard and no
  item. The source of the example is of that kind: 0.45, 0.5, 0.55, 0.48 in turn for
  600 values, then 0; it is a fair one.
\<close>

theorem startGame_counts_counterexample:
  "difficulty_at (difficultyIndex example_unlucky_game) = Some preset_Normal \<and>
   d_hazards preset_Normal = 4 \<and> d_items preset_Normal = 10 \<and>
   fair (rng example_unlucky_game) \<and>
   (\<exists>g'. startGame 960 540 example_unlucky_game = Some (Inr g') \<and>
      hazards g' = [] \<and> items g' = [] \<and> rng g' = sconst 0)"
proof -
  have d: "difficulty_at (difficultyIndex example_unlucky_game) = Some preset_Normal"
    by (simp add: example_unlucky_game_def example_game_def difficulty_at_1)
  have r: "rng example_unlucky_game = example_central_draws"
    by (simp add: example_unlucky_game_def)
  have f: "fair (rng example_unlucky_game)"
    by (simp add: r example_central_draws_def fair_shift_sconst_0)
  have c: "central 600 (rng example_unlucky_game)"
    by (simp add: r central_example)
  have "sdrop 600 (rng example_unlucky_game) = sconst 0"
    by (simp add: r example_central_draws_def sdrop_shift concat_replicate_facts(1)
        sdrop_sconst)
  with startGame_central [OF d c]
  have "\<exists>g'. startGame 960 540 example_unlucky_game = Some (Inr g') \<and>
      hazards g' = [] \<and> items g' = [] \<and> rng g' = sconst 0"
    by simp
  with d f show ?thesis by (simp add: Normal_preset)
qed

lemma finished_run:
  "\<exists>gh g'. startGame 960 540 example_finished_game = Some (Inr g') \<and>
     spawnHazards_loop 960 540 4 (150, 210) 0
       (cleared 960 540 preset_Normal example_finished_game) = Some (6, gh) \<and>
     spawnItems_loop 960 540 10 0 gh = (13, g') \<and>
     map hpos (hazards g') =
       [\<lparr>X = 60, Y = 100\<rparr>, \<lparr>X = 270, Y = 100\<rparr>, \<lparr>X = 480, Y = 100\<rparr>, \<lparr>X = 690, Y = 100\<rparr>] \<and>
     map vel (hazards g') =
       [\<lparr>X = - 150, Y = 0\<rparr>, \<lparr>X = 0, Y = - 180\<rparr>, \<lparr>X = - 195, Y = 0\<rparr>, \<lparr>X = 0, Y = - 165\<rparr>] \<and>
     map ipos (items g') =
       [\<lparr>X = 40, Y = 480\<rparr>, \<lparr>X = 120, Y = 480\<rparr>, \<lparr>X = 200, Y = 480\<rparr>, \<lparr>X = 280, Y = 480\<rparr>,
        \<lparr>X = 360, Y = 480\<rparr>, \<lparr>X = 440, Y = 480\<rparr>, \<lparr>X = 520, Y = 480\<rparr>, \<lparr>X = 600, Y = 480\<rparr>,
        \<lparr>X = 680, Y = 480\<rparr>, \<lparr>X = 760, Y = 480\<rparr>] \<and>
     rng g' = sconst 0"
  by (simp add: startGame_unfold cleared_def difficulty_at_1 Normal_preset
      spawnHazards_def spawnItems_def spawnHazards_loop.simps spawnItems_loop.simps
      spawnHazards_attempt_def spawnItems_attempt_def rand_def new_Hazard_def
      randomVelocity_unfold acceptable_def new_Item_def distanceTo_def hypot_less_iff Let_def
      example_finished_game_def example_combo_game_def example_game_def example_draws_def
      new_Player_def markHit_def)

theorem startGame_resets_witness:
  "difficulty_at (difficultyIndex example_finished_game) = Some preset_Normal \<and>
   fair (rng example_finished_game) \<and>
   state example_finished_game = GameOver \<and> lives example_finished_game = 0 \<and>
   timeLeft example_finished_game = 7 \<and> score example_finished_game = 34 \<and>
   combo example_finished_game = 3 \<and>
   pos (player example_finished_game) = \<lparr>X = 100, Y = 400\<rparr> \<and>
   hitCooldown (player example_finished_game) = 1 \<and>
   length (hazards example_finished_game) = 1 \<and> length (items example_finished_game) = 1 \<and>
   length (particles example_finished_game) = 1 \<and> length (floaters example_finished_game) = 1 \<and>
   (\<exists>g'. startGame 960 540 example_finished_game = Some (Inr g') \<and>
      state g' = Playing \<and> lives g' = 4 \<and> timeLeft g' = 50 \<and> score g' = 0 \<and>
      combo g' = 0 \<and> comboTimer g' = 0 \<and>
      pos (player g') = \<lparr>X = 480, Y = 270\<rparr> \<and> hitCooldown (player g') = 0 \<and>
      particles g' = [] \<and> floaters g' = [] \<and> shakeTimer g' = 0 \<and>
      newHighScore g' = False \<and>
      length (hazards g') = 4 \<and> length (items g') = 10 \<and>
      map hpos (hazards g') =
        [\<lparr>X = 60, Y = 100\<rparr>, \<lparr>X = 270, Y = 100\<rparr>, \<lparr>X = 480, Y = 100\<rparr>, \<lparr>X = 690, Y = 100\<rparr>] \<and>
      map ipos (items g') =
        [\<lparr>X = 40, Y = 480\<rparr>, \<lparr>X = 120, Y = 480\<rparr>, \<lparr>X = 200, Y = 480\<rparr>, \<lparr>X = 280, Y = 480\<rparr>,
         \<lparr>X = 360, Y = 480\<rparr>, \<lparr>X = 440, Y = 480\<rparr>, \<lparr>X = 520, Y = 480\<rparr>, \<lparr>X = 600, Y = 480\<rparr>,
         \<lparr>X = 680, Y = 480\<rparr>, \<lparr>X = 760, Y = 480\<rparr>] \<and>
      hazards_ok \<lparr>X = 480, Y = 270\<rparr> [] (hazards g') \<and>
      items_ok \<lparr>X = 480, Y = 270\<rparr> (hazards g') [] (items g') \<and>
      (\<exists>gh. hazard_attempts 960 540 (150, 210) 6
               (cleared 960 540 preset_Normal example_finished_game) = Some gh \<and>
             item_attempts 960 540 13 gh = g'))"
proof -
  let ?g = example_finished_game
  have d: "difficulty_at (difficultyIndex ?g) = Some preset_Normal"
    by (simp add: example_finished_game_def example_combo_game_def example_game_def
        difficulty_at_1)
  have f: "fair (rng ?g)"
    by (simp add: example_finished_game_def fair_shift_sconst_0)
  have before: "state ?g = GameOver \<and> lives ?g = 0 \<and> timeLeft ?g = 7 \<and> score ?g = 34 \<and>
      combo ?g = 3 \<and> pos (player ?g) = \<lparr>X = 100, Y = 400\<rparr> \<and> hitCooldown (player ?g) = 1 \<and>
      length (hazards ?g) = 1 \<and> length (items ?g) = 1 \<and>
      length (particles ?g) = 1 \<and> length (floaters ?g) = 1"
    by (simp add: example_finished_game_def example_combo_game_def example_game_def
        markHit_def INVULN_TIME_def)
  note main = startGame_resets [OF d, of 960 540 "[]" "[]" "[]" "[]"]
  from main f obtain g' where s: "startGame 960 540 ?g = Some (Inr g')"
    by blast
  note r = main [THEN conjunct2, THEN conjunct1, rule_format, OF s]
  note reset = r [THEN conjunct1, unfolded Normal_preset]
  note placed = r [THEN conjunct2, THEN conjunct1]
  note stages = r [THEN conjunct2, THEN conjunct2, unfolded Normal_preset]
  from reset have fields: "state g' = Playing \<and> lives g' = 4 \<and> timeLeft g' = 50 \<and> score g' = 0 \<and>
      combo g' = 0 \<and> comboTimer g' = 0 \<and>
      pos (player g') = \<lparr>X = 480, Y = 270\<rparr> \<and> hitCooldown (player g') = 0 \<and>
      particles g' = [] \<and> floaters g' = [] \<and> shakeTimer g' = 0 \<and>
      newHighScore g' = False"
    by simp
  from placed have ok: "hazards_ok \<lparr>X = 480, Y = 270\<rparr> [] (hazards g') \<and>
      items_ok \<lparr>X = 480, Y = 270\<rparr> (hazards g') [] (items g')"
    by simp
  obtain a gh b
    where l: "spawnHazards_loop 960 540 4 (150, 210) 0 (cleared 960 540 preset_Normal ?g) =
          Some (a, gh)"
      and li: "spawnItems_loop 960 540 10 0 gh = (b, g')"
      and ha: "hazard_attempts 960 540 (150, 210) a (cleared 960 540 preset_Normal ?g) = Some gh"
      and ia: "item_attempts 960 540 b gh = g'"
  proof -
    from stages show ?thesis by (elim exE conjE) (rule that)
  qed
  obtain gh0 g0
    where s0: "startGame 960 540 ?g = Some (Inr g0)"
      and l0: "spawnHazards_loop 960 540 4 (150, 210) 0 (cleared 960 540 preset_Normal ?g) =
          Some (6, gh0)"
      and li0: "spawnItems_loop 960 540 10 0 gh0 = (13, g0)"
      and hp: "map hpos (hazards g0) =
        [\<lparr>X = 60, Y = 100\<rparr>, \<lparr>X = 270, Y = 100\<rparr>, \<lparr>X = 480, Y = 100\<rparr>, \<lparr>X = 690, Y = 100\<rparr>]"
      and ip: "map ipos (items g0) =
        [\<lparr>X = 40, Y = 480\<rparr>, \<lparr>X = 120, Y = 480\<rparr>, \<lparr>X = 200, Y = 480\<rparr>, \<lparr>X = 280, Y = 480\<rparr>,
         \<lparr>X = 360, Y = 480\<rparr>, \<lparr>X = 440, Y = 480\<rparr>, \<lparr>X = 520, Y = 480\<rparr>, \<lparr>X = 600, Y = 480\<rparr>,
         \<lparr>X = 680, Y = 480\<rparr>, \<lparr>X = 760, Y = 480\<rparr>]"
  proof -
    from finished_run show ?thesis by (elim exE conjE) (rule that)
  qed
  from s s0 have g0: "g0 = g'" by simp
  from l l0 have a: "a = 6" and gh: "gh0 = gh" by simp_all
  from li li0 gh have b: "b = 13" by simp
  have run: "map hpos (hazards g') =
        [\<lparr>X = 60, Y = 100\<rparr>, \<lparr>X = 270, Y = 100\<rparr>, \<lparr>X = 480, Y = 100\<rparr>, \<lparr>X = 690, Y = 100\<rparr>] \<and>
      map ipos (items g') =
        [\<lparr>X = 40, Y = 480\<rparr>, \<lparr>X = 120, Y = 480\<rparr>, \<lparr>X = 200, Y = 480\<rparr>, \<lparr>X = 280, Y = 480\<rparr>,
         \<lparr>X = 360, Y = 480\<rparr>, \<lparr>X = 440, Y = 480\<rparr>, \<lparr>X = 520, Y = 480\<rparr>, \<lparr>X = 600, Y = 480\<rparr>,
         \<lparr>X = 680, Y = 480\<rparr>, \<lparr>X = 760, Y = 480\<rparr>]"
    using hp ip unfolding g0 by (rule conjI)
  from hp have "length (map hpos (hazards g0)) = 4" by simp
  then have lh: "length (hazards g') = 4" by (simp add: g0)
  from ip have "length (map ipos (items g0)) = 10" by simp
  then have lit: "length (items g') = 10" by (simp add: g0)
  from lh lit have lens: "length (hazards g') = 4 \<and> length (items g') = 10" by (rule conjI)
  from ha ia have passes: "\<exists>gh. hazard_attempts 960 540 (150, 210) 6
               (cleared 960 540 preset_Normal ?g) = Some gh \<and>
             item_attempts 960 540 13 gh = g'"
    unfolding a b by blast
  have after: "startGame 960 540 example_finished_game = Some (Inr g') \<and>
      (state g' = Playing \<and> lives g' = 4 \<and> timeLeft g' = 50 \<and> score g' = 0 \<and>
      combo g' = 0 \<and> comboTimer g' = 0 \<and>
      pos (player g') = \<lparr>X = 480, Y = 270\<rparr> \<and> hitCooldown (player g') = 0 \<and>
      particles g' = [] \<and> floaters g' = [] \<and> shakeTimer g' = 0 \<and>
      newHighScore g' = False) \<and>
      (length (hazards g') = 4 \<and> length (items g') = 10) \<and>
      (map hpos (hazards g') =
        [\<lparr>X = 60, Y = 100\<rparr>, \<lparr>X = 270, Y = 100\<rparr>, \<lparr>X = 480, Y = 100\<rparr>, \<lparr>X = 690, Y = 100\<rparr>] \<and>
      map ipos (items g') =
        [\<lparr>X = 40, Y = 480\<rparr>, \<lparr>X = 120, Y = 480\<rparr>, \<lparr>X = 200, Y = 480\<rparr>, \<lparr>X = 280, Y = 480\<rparr>,
         \<lparr>X = 360, Y = 480\<rparr>, \<lparr>X = 440, Y = 480\<rparr>, \<lparr>X = 520, Y = 480\<rparr>, \<lparr>X = 600, Y = 480\<rparr>,
         \<lparr>X = 680, Y = 480\<rparr>, \<lparr>X = 760, Y = 480\<rparr>]) \<and>
      (hazards_ok \<lparr>X = 480, Y = 270\<rparr> [] (hazards g') \<and>
      items_ok \<lparr>X = 480, Y = 270\<rparr> (hazards g') [] (items g')) \<and>
      (\<exists>gh. hazard_attempts 960 540 (150, 210) 6
               (cleared 960 540 preset_Normal example_finished_game) = Some gh \<and>
             item_attempts 960 540 13 gh = g')"
    by (rule conjI [OF s conjI [OF fields conjI [OF lens conjI [OF run conjI [OF ok passes]]]]])
  then have "\<exists>g'. startGame 960 540 example_finished_game = Some (Inr g') \<and>
      state g' = Playing \<and> lives g' = 4 \<and> timeLeft g' = 50 \<and> score g' = 0 \<and>
      combo g' = 0 \<and> comboTimer g' = 0 \<and>
      pos (player g') = \<lparr>X = 480, Y = 270\<rparr> \<and> hitCooldown (player g') = 0 \<and>
      particles g' = [] \<and> floaters g' = [] \<and> shakeTimer g' = 0 \<and>
      newHighScore g' = False \<and>
      length (hazards g') = 4 \<and> length (items g') = 10 \<and>
      map hpos (hazards g') =
        [\<lparr>X = 60, Y = 100\<rparr>, \<lparr>X = 270, Y = 100\<rparr>, \<lparr>X = 480, Y = 100\<rparr>, \<lparr>X = 690, Y = 100\<rparr>] \<and>
      map ipos (items g') =
        [\<lparr>X = 40, Y = 480\<rparr>, \<lparr>X = 120, Y = 480\<rparr>, \<lparr>X = 200, Y = 480\<rparr>, \<lparr>X = 280, Y = 480\<rparr>,
         \<lparr>X = 360, Y = 480\<rparr>, \<lparr>X = 440, Y = 480\<rparr>, \<lparr>X = 520, Y = 480\<rparr>, \<lparr>X = 600, Y = 480\<rparr>,
         \<lparr>X = 680, Y = 480\<rparr>, \<lparr>X = 760, Y = 480\<rparr>] \<and>
      hazards_ok \<lparr>X = 480, Y = 270\<rparr> [] (hazards g') \<and>
      items_ok \<lparr>X = 480, Y = 270\<rparr> (hazards g') [] (items g') \<and>
      (\<exists>gh. hazard_attempts 960 540 (150, 210) 6
               (cleared 960 540 preset_Normal example_finished_game) = Some gh \<and>
             item_attempts 960 540 13 gh = g')"
    unfolding conj_assoc by (rule exI)
  note ex = this
  from before show ?thesis
    by (elim conjE) (intro conjI d f ex; assumption)
qed

subsection \<open>Key events and the high score\<close>

lemma resetRun_unfold:
  "resetRun W H idx g =
    (case difficulty_at (difficultyIndex (selected idx g)) of
       None \<Rightarrow> Some (Inl TypeError)
     | Some diff \<Rightarrow>
         (case spawnHazards W H (d_hazards diff) (hazardSpeed diff)
                 (wiped W H diff (selected idx g)) of
            None \<Rightarrow> None
          | Some g1 \<Rightarrow> Some (Inr ((spawnItems W H (d_items diff) g1)\<lparr>state := Menu\<rparr>))))"
  unfolding resetRun_def wiped_def selected_def Let_def by (simp split: option.splits)

lemma wiped_fields [simp]:
  "highScore (wiped W H diff g) = highScore g"
  "storage (wiped W H diff g) = storage g"
  "difficultyIndex (wiped W H diff g) = difficultyIndex g"
  "rng (wiped W H diff g) = rng g"
  "state (wiped W H diff g) = state g"
  by (simp_all add: wiped_def Let_def)

lemma selected_fields [simp]:
  "highScore (selected idx g) = highScore g"
  "storage (selected idx g) = storage g"
  "rng (selected idx g) = rng g"
  "state (selected idx g) = state g"
  by (cases idx; simp add: selected_def)+

lemma resetRun_highScore:
  assumes "resetRun W H idx g = Some (Inr g')"
  shows "highScore g' = highScore g" and "storage g' = storage g"
proof -
  from assms obtain diff a gh
    where l: "spawnHazards_loop W H (d_hazards diff) (hazardSpeed diff) 0
        (wiped W H diff (selected idx g)) = Some (a, gh)"
      and g': "g' = (spawnItems W H (d_items diff) gh)\<lparr>state := Menu\<rparr>"
    by (auto simp add: resetRun_unfold spawnHazards_def split: option.splits)
  from spawnHazards_loop_keeps [OF l] g'
  show "highScore g' = highScore g" and "storage g' = storage g"
    by simp_all
qed

lemma resetRun_returns:
  assumes "difficulty_at (difficultyIndex (selected idx g)) = Some diff" and "fair (rng g)"
  shows "\<exists>g'. resetRun W H idx g = Some (Inr g')"
proof -
  have "fair (rng (wiped W H diff (selected idx g)))" using assms(2) by simp
  from spawnHazards_loop_returns [OF this, of W H "d_hazards diff" "hazardSpeed diff" 0]
  obtain a g1 where "spawnHazards_loop W H (d_hazards diff) (hazardSpeed diff) 0
      (wiped W H diff (selected idx g)) = Some (a, g1)"
    by blast
  then show ?thesis using assms(1)
    by (simp add: resetRun_unfold spawnHazards_def)
qed

lemma startGame_highScore:
  assumes "startGame W H g = Some (Inr g')"
  shows "highScore g' = highScore g" and "storage g' = storage g"
proof -
  from assms obtain diff where d: "difficulty_at (difficultyIndex g) = Some diff"
    by (auto simp add: startGame_unfold split: option.splits)
  from startGame_result(2) [OF d assms]
  show "highScore g' = highScore g" and "storage g' = storage g" by simp_all
qed

lemma onKeyDown_highScore:
  assumes "onKeyDown W H key g = Some (Inr g')"
  shows "highScore g' = highScore g" and "storage g' = storage g"
proof -
  let ?up = "g\<lparr>difficultyIndex :=
      js_rem (difficultyIndex g - 1 + int (length DIFFICULTIES)) (int (length DIFFICULTIES))\<rparr>"
  let ?down = "g\<lparr>difficultyIndex :=
      js_rem (difficultyIndex g + 1) (int (length DIFFICULTIES))\<rparr>"
  from assms consider
      (reset) "resetRun W H (Some (difficultyIndex g)) g = Some (Inr g')"
    | (start) g1 where "startGame W H g1 = Some (Inr g')" "highScore g1 = highScore g"
        "storage g1 = storage g"
    | (same) "highScore g' = highScore g" "storage g' = storage g"
    unfolding onKeyDown_def Let_def
    by (fastforce split: if_splits)
  then have "highScore g' = highScore g \<and> storage g' = storage g"
  proof cases
    case reset
    from resetRun_highScore [OF reset] show ?thesis by simp
  next
    case start
    from startGame_highScore [OF start(1)] start(2,3) show ?thesis by simp
  next
    case same
    then show ?thesis by simp
  qed
  then show "highScore g' = highScore g" and "storage g' = storage g"
    by simp_all
qed

lemma new_Game_highScore:
  assumes "new_Game W H a r st = Some (Inr g')"
  shows "highScore g' = loadHighScore st"
  using resetRun_highScore(1) [OF assms [unfolded new_Game_def]] by simp

lemma update_highScore:
  assumes "update W H dt keys g = Inr g'"
  shows "highScore g \<le> highScore g' \<and>
    (highScore g' \<noteq> highScore g \<longrightarrow>
       state g = Playing \<and> state g' = GameOver \<and> highScore g < score g' \<and>
       highScore g' = score g')"
proof (cases "state g = Playing")
  case False
  with assms show ?thesis by (auto simp add: update_idle)
next
  case True
  from update_Playing_result(3) [OF True assms] True show ?thesis
    by (simp split: if_splits)
qed

lemma step_highScore:
  assumes "step W H e g = Some (Inr g')"
  shows "highScore g \<le> highScore g'"
proof (cases e)
  case (Frame dt keys)
  with assms have "update W H dt keys g = Inr g'" by simp
  from update_highScore [OF this] show ?thesis by simp
next
  case (KeyDown key)
  with assms have "onKeyDown W H key g = Some (Inr g')" by simp
  from onKeyDown_highScore(1) [OF this] show ?thesis by simp
qed

lemma play_highScore:
  "play W H es g = Some (Inr g') \<Longrightarrow> highScore g \<le> highScore g'"
proof (induction es arbitrary: g)
  case Nil
  then show ?case by simp
next
  case (Cons e es)
  from Cons.prems obtain g1
    where s: "step W H e g = Some (Inr g1)" and rest: "play W H es g1 = Some (Inr g')"
    by (auto split: option.splits sum.splits)
  from step_highScore [OF s] Cons.IH [OF rest] show ?case by simp
qed

text \<open>
  Claim C10. The high score never decreases. A frame update changes it only when it
  takes the game from \<open>Playing\<close> into \<open>GameOver\<close> with a score strictly above it,
  and then it becomes that score; key events, starting a run and resetting a run leave
  it as it is; \<^verbatim>\<open>enterGameOver\<close> sets it to the score when the score is strictly
  greater and leaves it alone otherwise. So over any sequence of frames and key events
  the high score at the end is at least the one at the beginning, which is the value
  \<^verbatim>\<open>loadHighScore\<close> gave the constructor.
\<close>

theorem highScore_monotone:
  "(\<forall>g'. update W H dt keys g = Inr g' \<longrightarrow>
      highScore g \<le> highScore g' \<and>
      (highScore g' \<noteq> highScore g \<longrightarrow>
         state g = Playing \<and> state g' = GameOver \<and> highScore g < score g' \<and>
         highScore g' = score g')) \<and>
   (\<forall>g'. onKeyDown W H key g = Some (Inr g') \<longrightarrow> highScore g' = highScore g) \<and>
   (\<forall>g'. startGame W H g = Some (Inr g') \<longrightarrow> highScore g' = highScore g) \<and>
   (\<forall>g'. resetRun W H idx g = Some (Inr g') \<longrightarrow> highScore g' = highScore g) \<and>
   highScore (enterGameOver g) = (if highScore g < score g then score g else highScore g) \<and>
   highScore g \<le> highScore (enterGameOver g) \<and>
   (\<forall>g'. play W H es g = Some (Inr g') \<longrightarrow> highScore g \<le> highScore g') \<and>
   (\<forall>g'. new_Game W H a r st = Some (Inr g') \<longrightarrow> highScore g' = loadHighScore st)"
proof -
  have a: "\<forall>g'. update W H dt keys g = Inr g' \<longrightarrow>
      highScore g \<le> highScore g' \<and>
      (highScore g' \<noteq> highScore g \<longrightarrow>
         state g = Playing \<and> state g' = GameOver \<and> highScore g < score g' \<and>
         highScore g' = score g')"
    using update_highScore [of W H dt keys g] by blast
  have b: "\<forall>g'. onKeyDown W H key g = Some (Inr g') \<longrightarrow> highScore g' = highScore g"
    using onKeyDown_highScore(1) [of W H key g] by blast
  have c: "\<forall>g'. startGame W H g = Some (Inr g') \<longrightarrow> highScore g' = highScore g"
    using startGame_highScore(1) [of W H g] by blast
  have d: "\<forall>g'. resetRun W H idx g = Some (Inr g') \<longrightarrow> highScore g' = highScore g"
    using resetRun_highScore(1) [of W H idx g] by blast
  have e: "highScore (enterGameOver g) = (if highScore g < score g then score g else highScore g)"
    by (simp add: enterGameOver_highScore)
  have f: "highScore g \<le> highScore (enterGameOver g)"
    by (simp add: enterGameOver_highScore)
  have h: "\<forall>g'. play W H es g = Some (Inr g') \<longrightarrow> highScore g \<le> highScore g'"
    using play_highScore [of W H es g] by blast
  have i: "\<forall>g'. new_Game W H a r st = Some (Inr g') \<longrightarrow> highScore g' = loadHighScore st"
    using new_Game_highScore [of W H a r st] by blast
  from a b c d e f h i show ?thesis by (intro conjI)
qed

theorem highScore_monotone_witness:
  "highScore example_ending_game = 20 \<and>
   (\<exists>g'. update 960 540 (5 / 100) {} example_ending_game = Inr g' \<and>
      highScore g' = 50 \<and> state g' = GameOver) \<and>
   (\<exists>g'. onKeyDown 960 540 ''p'' example_ending_game = Some (Inr g') \<and>
      state g' = Paused \<and> highScore g' = 20) \<and>
   (\<exists>g'. startGame 960 540 example_open_game = Some (Inr g') \<and>
      highScore g' = highScore example_open_game) \<and>
   (\<exists>g'. resetRun 960 540 (Some 1) example_open_game = Some (Inr g') \<and>
      highScore g' = highScore example_open_game) \<and>
   score (example_ending_game\<lparr>highScore := 60\<rparr>) = 50 \<and>
   highScore (enterGameOver (example_ending_game\<lparr>highScore := 60\<rparr>)) = 60 \<and>
   (\<exists>g'. play 960 540 [KeyDown ''p'', Frame (5 / 100) {}, KeyDown ''p'', Frame (5 / 100) {}]
            example_ending_game = Some (Inr g') \<and>
      20 \<le> highScore g') \<and>
   (\<exists>g'. new_Game 960 540 (assets example_game) (sconst 0) example_store = Some (Inr g') \<and>
      highScore g' = 50)"
proof -
  let ?g = example_ending_game
  let ?o = example_open_game
  let ?es = "[KeyDown ''p'', Frame (5 / 100) {}, KeyDown ''p'', Frame (5 / 100) {}]"
  note last_frame = highScore_monotone [of 960 540 "5 / 100" "{}" ?g "''p''" "Some 1" ?es
      "assets example_game" "sconst 0" example_store]
  note fresh = highScore_monotone [of 960 540 "5 / 100" "{}" ?o "''p''" "Some 1" "[]"
      "assets example_game" "sconst 0" example_store]
  note beaten = highScore_monotone [of 960 540 "5 / 100" "{}" "?g\<lparr>highScore := 60\<rparr>" "''p''"
      "Some 1" "[]" "assets example_game" "sconst 0" example_store]
  have p: "state ?g = Playing" and v: "validIndex ?g" and h: "highScore ?g = 20"
    and sc: "score (?g\<lparr>highScore := 60\<rparr>) = 50"
    by (simp_all add: example_ending_game_def example_game_def validIndex_def)
  from update_returns [OF v] obtain g1
    where u: "update 960 540 (5 / 100) {} ?g = Inr g1"
    by blast
  have s1: "score g1 = 50"
    using update_Playing_result(5) [OF p u] ending_score by simp
  from update_Playing_result(1,2) [OF p u] have go: "state g1 = GameOver"
    by (simp add: example_ending_game_def example_game_def)
  from last_frame [THEN conjunct1, rule_format, OF u] h have "20 \<le> highScore g1" by simp
  moreover from update_Playing_result(3) [OF p u] go s1 h have "highScore g1 = 50" by simp
  ultimately have A: "\<exists>g'. update 960 540 (5 / 100) {} ?g = Inr g' \<and>
      highScore g' = 50 \<and> state g' = GameOver"
    using u go by blast
  have k: "onKeyDown 960 540 ''p'' ?g = Some (Inr (?g\<lparr>state := Paused\<rparr>))"
    using p by (simp add: onKeyDown_def)
  from last_frame [THEN conjunct2, THEN conjunct1, rule_format, OF k] h
  have "highScore (?g\<lparr>state := Paused\<rparr>) = 20" by simp
  with k have B: "\<exists>g'. onKeyDown 960 540 ''p'' ?g = Some (Inr g') \<and>
      state g' = Paused \<and> highScore g' = 20"
    by simp
  have d: "difficulty_at (difficultyIndex ?o) = Some preset_Normal"
    and d': "difficulty_at (difficultyIndex (selected (Some 1) ?o)) = Some preset_Normal"
    by (simp_all add: example_open_game_def example_crowded_game_def example_game_def
        difficulty_at_1 selected_def)
  have f: "fair (rng ?o)"
    by (simp add: example_open_game_def fair_sconst_0)
  from startGame_returns [OF d f] obtain g2
    where st: "startGame 960 540 ?o = Some (Inr g2)"
    by blast
  from fresh [THEN conjunct2, THEN conjunct2, THEN conjunct1, rule_format, OF st] st
  have C: "\<exists>g'. startGame 960 540 ?o = Some (Inr g') \<and> highScore g' = highScore ?o"
    by blast
  from resetRun_returns [OF d' f] obtain g3
    where rs: "resetRun 960 540 (Some 1) ?o = Some (Inr g3)"
    by blast
  from fresh [THEN conjunct2, THEN conjunct2, THEN conjunct2, THEN conjunct1, rule_format, OF rs] rs
  have D: "\<exists>g'. resetRun 960 540 (Some 1) ?o = Some (Inr g') \<and> highScore g' = highScore ?o"
    by blast
  from beaten [THEN conjunct2, THEN conjunct2, THEN conjunct2, THEN conjunct2, THEN conjunct1] sc
  have E: "highScore (enterGameOver (?g\<lparr>highScore := 60\<rparr>)) = 60" by simp
  let ?paused = "?g\<lparr>state := Paused\<rparr>"
  have vp: "validIndex ?paused" using v by (simp add: validIndex_def)
  have "update 960 540 (5 / 100) {} ?paused = Inr (idleFrame (5 / 100) ?paused)"
    by (simp add: update_idle)
  moreover have "onKeyDown 960 540 ''p'' (idleFrame (5 / 100) ?paused) =
      Some (Inr ((idleFrame (5 / 100) ?paused)\<lparr>state := Playing\<rparr>))"
    by (simp add: onKeyDown_def)
  moreover have "validIndex ((idleFrame (5 / 100) ?paused)\<lparr>state := Playing\<rparr>)"
    using vp by (simp add: validIndex_def)
  from update_returns [OF this] obtain g4
    where "update 960 540 (5 / 100) {} ((idleFrame (5 / 100) ?paused)\<lparr>state := Playing\<rparr>) = Inr g4"
    by blast
  ultimately have pl: "play 960 540 ?es ?g = Some (Inr g4)"
    using k by simp
  from last_frame [THEN conjunct2, THEN conjunct2, THEN conjunct2, THEN conjunct2, THEN conjunct2,
      THEN conjunct2, THEN conjunct1, rule_format, OF pl] h
  have "20 \<le> highScore g4" by simp
  with pl have F: "\<exists>g'. play 960 540 ?es ?g = Some (Inr g') \<and> 20 \<le> highScore g'"
    by blast
  let ?init = "\<lparr>assets = assets example_game, state = Menu, difficultyIndex = 0, timeAcc = 0,
      score = 0, lives = d_lives (DIFFICULTIES ! 0), timeLeft = d_time (DIFFICULTIES ! 0),
      combo = 0, comboTimer = 0,
      player = new_Player \<lparr>X = 960 / 2, Y = 540 / 2\<rparr> (mouseFrames (assets example_game))
        (mouseFramesFlipped (assets example_game)),
      items = [], hazards = [], particles = [], floaters = [],
      shakeTimer = 0, shakeStrength = 10,
      highScore = loadHighScore example_store, newHighScore = False,
      rng = sconst 0, storage = example_store\<rparr>"
  have "difficulty_at (difficultyIndex (selected None ?init)) = Some (DIFFICULTIES ! 0)"
    by (simp add: selected_def difficulty_at_def DIFFICULTIES_def)
  moreover have "fair (rng ?init)" by (simp add: fair_sconst_0)
  ultimately have "\<exists>g'. resetRun 960 540 None ?init = Some (Inr g')"
    by (rule resetRun_returns)
  then obtain g5
    where ng: "new_Game 960 540 (assets example_game) (sconst 0) example_store = Some (Inr g5)"
    by (auto simp add: new_Game_def)
  have "loadHighScore example_store = 50"
    by (simp add: loadHighScore_def example_store_def HIGHSCORE_KEY_def parseInt10_def isSpace_def
        isDigit_def digitValue_def digitsValue_def digitStep_def Let_def)
  with last_frame [THEN conjunct2, THEN conjunct2, THEN conjunct2, THEN conjunct2, THEN conjunct2,
      THEN conjunct2, THEN conjunct2, rule_format, OF ng] ng
  have G: "\<exists>g'. new_Game 960 540 (assets example_game) (sconst 0) example_store = Some (Inr g') \<and>
      highScore g' = 50"
    by simp
  from h A B C D sc E F G show ?thesis by (intro conjI)
qed

end
